theory Spec2Isabelle
  imports Main
begin

section \<open>JavaScript strings\<close>

text \<open>
  A JavaScript string is a sequence of UTF-16 code units; \<open>length\<close>, \<open>substring\<close>,
  \<open>slice\<close> and the regular expressions of \<^verbatim>\<open>monitor.ts\<close> (none has the \<^verbatim>\<open>u\<close> flag) all
  count code units. A string is therefore a list of code units, each a natural number;
  \<open>js\<close> turns an ASCII literal into one. The characters outside ASCII that the source
  names are written by their code points.
\<close>

type_synonym jsstring = "nat list"

definition js :: "string \<Rightarrow> jsstring" where
  "js s = map of_char s"

text \<open>\<^verbatim>\<open>\s\<close>, and what \<^verbatim>\<open>trim()\<close> strips: ECMAScript WhiteSpace and LineTerminator.\<close>

definition isWhiteSpace :: "nat \<Rightarrow> bool" where
  "isWhiteSpace c =
     (c = 9 \<or> c = 10 \<or> c = 11 \<or> c = 12 \<or> c = 13 \<or> c = 32 \<or> c = 160 \<or> c = 5760
      \<or> (8192 \<le> c \<and> c \<le> 8202) \<or> c = 8232 \<or> c = 8233 \<or> c = 8239 \<or> c = 8287
      \<or> c = 12288 \<or> c = 65279)"

text \<open>The characters \<^verbatim>\<open>.\<close> does not match, and where \<^verbatim>\<open>^\<close> and \<^verbatim>\<open>$\<close> match under the \<^verbatim>\<open>m\<close> flag.\<close>

definition isLineTerminator :: "nat \<Rightarrow> bool" where
  "isLineTerminator c = (c = 10 \<or> c = 13 \<or> c = 8232 \<or> c = 8233)"

definition isDigit :: "nat \<Rightarrow> bool" where
  "isDigit c = (48 \<le> c \<and> c \<le> 57)"

text \<open>\<^verbatim>\<open>\w\<close>, which decides the word boundary \<^verbatim>\<open>\b\<close>.\<close>

definition isWordChar :: "nat \<Rightarrow> bool" where
  "isWordChar c =
     ((48 \<le> c \<and> c \<le> 57) \<or> (65 \<le> c \<and> c \<le> 90) \<or> (97 \<le> c \<and> c \<le> 122) \<or> c = 95)"

text \<open>
  The canonical form the \<^verbatim>\<open>i\<close> flag compares: the upper-case letter. Every pattern of the
  source is ASCII where it has letters, and ECMAScript never folds a character outside
  ASCII onto an ASCII one, so only \<^verbatim>\<open>a-z\<close> need folding.
\<close>

definition canon :: "nat \<Rightarrow> nat" where
  "canon c = (if 97 \<le> c \<and> c \<le> 122 then c - 32 else c)"

text \<open>
  \<^verbatim>\<open>toLowerCase()\<close> on the ASCII letters. (Characters outside ASCII are left alone; the
  one string the source lowers is matched against digits, a colon, white space and the
  letters a, m, p right after, and no character outside ASCII lowers to one of those.)
\<close>

definition toLowerCase :: "jsstring \<Rightarrow> jsstring" where
  "toLowerCase s = map (\<lambda>c. if 65 \<le> c \<and> c \<le> 90 then c + 32 else c) s"

definition trim :: "jsstring \<Rightarrow> jsstring" where
  "trim s = rev (dropWhile isWhiteSpace (rev (dropWhile isWhiteSpace s)))"

text \<open>\<^verbatim>\<open>s.split('\n')\<close>: the pieces between line feeds; the empty string gives one empty piece.\<close>

fun split_lines :: "jsstring \<Rightarrow> jsstring list" where
  "split_lines [] = [[]]"
| "split_lines (c # cs) =
     (if c = 10 then [] # split_lines cs
      else (case split_lines cs of l # ls \<Rightarrow> (c # l) # ls | [] \<Rightarrow> [[c]]))"

text \<open>\<^verbatim>\<open>lines.join('\n')\<close>.\<close>

fun join_lines :: "jsstring list \<Rightarrow> jsstring" where
  "join_lines [] = []"
| "join_lines [l] = l"
| "join_lines (l # m # ls) = l @ 10 # join_lines (m # ls)"

fun starts_with :: "'a list \<Rightarrow> 'a list \<Rightarrow> bool" where
  "starts_with s [] = True"
| "starts_with [] (x # xs) = False"
| "starts_with (c # cs) (x # xs) = (c = x \<and> starts_with cs xs)"

text \<open>\<^verbatim>\<open>s.includes(sub)\<close>: \<open>sub\<close> occurs somewhere in \<open>s\<close>.\<close>

fun str_includes :: "'a list \<Rightarrow> 'a list \<Rightarrow> bool" where
  "str_includes [] sub = (sub = [])"
| "str_includes (c # cs) sub = (starts_with (c # cs) sub \<or> str_includes cs sub)"

text \<open>
  \<^verbatim>\<open>Number.parseInt(s, 10)\<close>. Leading white space is skipped, then a sign is read, then
  the decimal digits that follow; without a digit the result is \<^verbatim>\<open>NaN\<close>. The result is a
  double: the number the digits denote, rounded to the nearest double with ties to the
  even significand (exact below \<open>2 ^ 53\<close>), and infinite from \<open>2 ^ 1024 - 2 ^ 970\<close> on.
  \<open>bitLength n\<close> is the number of binary digits of \<open>n\<close>.
\<close>

datatype parsed_number = Finite int | PlusInfinity | MinusInfinity | NotANumber

definition digitsValue :: "jsstring \<Rightarrow> int" where
  "digitsValue ds = foldl (\<lambda>a c. 10 * a + (int c - 48)) 0 ds"

function bitLength :: "int \<Rightarrow> nat" where
  "bitLength n = (if n \<le> 0 then 0 else Suc (bitLength (n div 2)))"
  by auto
termination
  by (relation "measure nat") auto

definition roundToDouble :: "int \<Rightarrow> int option" where
  "roundToDouble n =
     (if n < 2 ^ 53 then Some n
      else
        (let e = bitLength n - 53;
             q = n div 2 ^ e;
             r = n mod 2 ^ e;
             q' = (if r > 2 ^ (e - 1) \<or> (r = 2 ^ (e - 1) \<and> odd q) then q + 1 else q)
         in if q' * 2 ^ e \<ge> 2 ^ 1024 then None else Some (q' * 2 ^ e)))"

definition parseInt :: "jsstring \<Rightarrow> parsed_number" where
  "parseInt s =
     (let s1 = dropWhile isWhiteSpace s;
          negative = (case s1 of [] \<Rightarrow> False | c # cs \<Rightarrow> c = 45);
          s2 = (case s1 of [] \<Rightarrow> [] | c # cs \<Rightarrow> if c = 45 \<or> c = 43 then cs else s1);
          digits = takeWhile isDigit s2
      in if digits = [] then NotANumber
         else
           (case roundToDouble (digitsValue digits) of
              None \<Rightarrow> if negative then MinusInfinity else PlusInfinity
            | Some n \<Rightarrow> Finite (if negative then - n else n)))"

section \<open>Regular expressions\<close>

text \<open>
  The regular expressions of the source, as a datatype, and a backtracking matcher.
  \<open>Cls\<close> is one code unit of a class, \<open>Bol\<close> and \<open>Eol\<close> are \<^verbatim>\<open>^\<close> and \<^verbatim>\<open>$\<close> (their
  argument is the \<^verbatim>\<open>m\<close> flag), \<open>WordB\<close> is \<^verbatim>\<open>\b\<close>, \<open>NotAhead\<close> is \<^verbatim>\<open>(?!...)\<close>.

  \<open>mt r p s\<close> matches \<open>r\<close> at the start of \<open>s\<close>, where \<open>p\<close> is the code unit before \<open>s\<close> in
  the whole string (\<open>None\<close> at its start). It returns every way to match, as the code unit
  before and the rest of the string after the match, in the order a backtracking matcher
  tries them (the first alternative first, the longest repetition first). A repetition
  does not iterate on the empty match, as in ECMAScript.
\<close>

datatype rx = Eps | Cls "nat \<Rightarrow> bool" | Seq rx rx | Alt rx rx | Star rx
  | Bol bool | Eol bool | WordB | NotAhead rx

function mt :: "rx \<Rightarrow> nat option \<Rightarrow> jsstring \<Rightarrow> (nat option \<times> jsstring) list" where
  "mt Eps p s = [(p, s)]"
| "mt (Cls f) p s = (case s of [] \<Rightarrow> [] | c # t \<Rightarrow> if f c then [(Some c, t)] else [])"
| "mt (Seq a b) p s = concat (map (\<lambda>q. mt b (fst q) (snd q)) (mt a p s))"
| "mt (Alt a b) p s = mt a p s @ mt b p s"
| "mt (Star a) p s =
     concat (map (\<lambda>q. mt (Star a) (fst q) (snd q))
                 (filter (\<lambda>q. length (snd q) < length s) (mt a p s))) @ [(p, s)]"
| "mt (Bol m) p s =
     (case p of None \<Rightarrow> [(p, s)]
      | Some c \<Rightarrow> if m \<and> isLineTerminator c then [(p, s)] else [])"
| "mt (Eol m) p s =
     (case s of [] \<Rightarrow> [(p, s)]
      | c # t \<Rightarrow> if m \<and> isLineTerminator c then [(p, s)] else [])"
| "mt WordB p s =
     (if (case p of None \<Rightarrow> False | Some c \<Rightarrow> isWordChar c)
         \<noteq> (case s of [] \<Rightarrow> False | c # t \<Rightarrow> isWordChar c)
      then [(p, s)] else [])"
| "mt (NotAhead a) p s = (if mt a p s = [] then [(p, s)] else [])"
  by pat_completeness auto
termination
  by (relation "measures [\<lambda>(r, p, s). size r, \<lambda>(r, p, s). length s]") auto

text \<open>Every position of a string: the code unit before it and the string from it on.\<close>

fun sufs :: "nat option \<Rightarrow> jsstring \<Rightarrow> (nat option \<times> jsstring) list" where
  "sufs p [] = [(p, [])]"
| "sufs p (c # t) = (p, c # t) # sufs (Some c) t"

text \<open>\<^verbatim>\<open>regex.test(s)\<close>: the expression matches at some position.\<close>

definition rtest :: "rx \<Rightarrow> jsstring \<Rightarrow> bool" where
  "rtest r s = list_ex (\<lambda>q. mt r (fst q) (snd q) \<noteq> []) (sufs None s)"

text \<open>
  A match with its pieces. \<open>mseq rs p s\<close> matches the expressions \<open>rs\<close> one after the other
  and returns what each of them matched on the first way through that succeeds (the match
  a backtracking matcher finds); \<open>rmatch\<close> is \<^verbatim>\<open>s.match(regex)\<close> for a regex without the
  \<^verbatim>\<open>g\<close> flag: the match at the leftmost position that has one.
\<close>

fun mseq :: "rx list \<Rightarrow> nat option \<Rightarrow> jsstring \<Rightarrow> jsstring list option"
  and mseqs :: "rx list \<Rightarrow> jsstring \<Rightarrow> (nat option \<times> jsstring) list \<Rightarrow> jsstring list option" where
  "mseq [] p s = Some []"
| "mseq (r # rs) p s = mseqs rs s (mt r p s)"
| "mseqs rs s [] = None"
| "mseqs rs s (q # qs) =
     (case mseq rs (fst q) (snd q) of
        Some gs \<Rightarrow> Some (take (length s - length (snd q)) s # gs)
      | None \<Rightarrow> mseqs rs s qs)"

fun mfirst :: "rx list \<Rightarrow> (nat option \<times> jsstring) list \<Rightarrow> jsstring list option" where
  "mfirst rs [] = None"
| "mfirst rs (q # qs) =
     (case mseq rs (fst q) (snd q) of Some gs \<Rightarrow> Some gs | None \<Rightarrow> mfirst rs qs)"

definition rmatch :: "rx list \<Rightarrow> jsstring \<Rightarrow> jsstring list option" where
  "rmatch rs s = mfirst rs (sufs None s)"

text \<open>The matcher run from each of a list of positions, one after the other.\<close>

definition mts :: "rx \<Rightarrow> (nat option \<times> jsstring) list \<Rightarrow> (nat option \<times> jsstring) list" where
  "mts r qs = concat (map (\<lambda>q. mt r (fst q) (snd q)) qs)"

text \<open>The building blocks the source's expressions are written with.\<close>

definition chr :: "char \<Rightarrow> rx" where
  "chr c = Cls (\<lambda>x. x = of_char c)"

definition chri :: "char \<Rightarrow> rx" where
  "chri c = Cls (\<lambda>x. canon x = canon (of_char c))"

definition lit :: "string \<Rightarrow> rx" where
  "lit cs = foldr (\<lambda>c r. Seq (chr c) r) cs Eps"

definition liti :: "string \<Rightarrow> rx" where
  "liti cs = foldr (\<lambda>c r. Seq (chri c) r) cs Eps"

definition Seqs :: "rx list \<Rightarrow> rx" where
  "Seqs rs = foldr Seq rs Eps"

definition OneOrMore :: "rx \<Rightarrow> rx" where
  "OneOrMore r = Seq r (Star r)"

definition Opt :: "rx \<Rightarrow> rx" where
  "Opt r = Alt r Eps"

definition digit :: rx where
  "digit = Cls isDigit"

definition wspace :: rx where
  "wspace = Cls isWhiteSpace"

definition anychar :: rx where
  "anychar = Cls (\<lambda>c. \<not> isLineTerminator c)"

section \<open>getNewOutput\<close>

text \<open>
  \<^verbatim>\<open>getNewOutput(lastOutput, currentOutput)\<close> (monitor.ts, lines 234-246). The empty string
  is the only falsy string; \<^verbatim>\<open>substring(n)\<close> with \<open>n\<close> within the string drops its first \<open>n\<close>
  code units.
\<close>

definition getNewOutput :: "'a list \<Rightarrow> 'a list \<Rightarrow> 'a list" where
  "getNewOutput lastOutput currentOutput =
     (if lastOutput = [] then currentOutput
      else if str_includes currentOutput lastOutput
        then drop (length lastOutput) currentOutput
      else currentOutput)"

section \<open>The pattern library\<close>

text \<open>
  The predicates and extractors of \<^verbatim>\<open>monitor.ts\<close> over captured pane text. Each regular
  expression of the source is quoted above its transcription.
\<close>

text \<open>\<^verbatim>\<open>/limit\s+reached|usage\s+limit|limit.*resets/i\<close> (\<open>hasLimitMessage\<close>, line 498).\<close>

definition hasLimitMessage :: "jsstring \<Rightarrow> bool" where
  "hasLimitMessage output =
     rtest (Alt (Seqs [liti ''limit'', OneOrMore wspace, liti ''reached''])
           (Alt (Seqs [liti ''usage'', OneOrMore wspace, liti ''limit''])
                (Seqs [liti ''limit'', Star anychar, liti ''resets''])))
       output"

text \<open>
  \<open>isActiveTerminalState\<close> (lines 505-517): some pattern of
  \<^verbatim>\<open>/^>\s*$/m\<close>, \<^verbatim>\<open>/^[^>\n]*>\s*$/m\<close>, \<^verbatim>\<open>/-+\s*>\s*-+/\<close> (where \<^verbatim>\<open>-\<close> stands for the box
  drawing character U+2500), \<^verbatim>\<open>/continue\s+this\s+conversation/i\<close>,
  \<^verbatim>\<open>/you\s+can\s+continue/i\<close>, \<^verbatim>\<open>/your\s+limit\s+(?:will\s+)?reset/i\<close> matches.
\<close>

definition activeStatePatterns :: "rx list" where
  "activeStatePatterns =
     [Seqs [Bol True, chr CHR ''>'', Star wspace, Eol True],
      Seqs [Bol True, Star (Cls (\<lambda>c. c \<noteq> 62 \<and> c \<noteq> 10)), chr CHR ''>'', Star wspace, Eol True],
      Seqs [OneOrMore (Cls (\<lambda>c. c = 9472)), Star wspace, chr CHR ''>'', Star wspace,
            OneOrMore (Cls (\<lambda>c. c = 9472))],
      Seqs [liti ''continue'', OneOrMore wspace, liti ''this'', OneOrMore wspace, liti ''conversation''],
      Seqs [liti ''you'', OneOrMore wspace, liti ''can'', OneOrMore wspace, liti ''continue''],
      Seqs [liti ''your'', OneOrMore wspace, liti ''limit'', OneOrMore wspace,
            Opt (Seq (liti ''will'') (OneOrMore wspace)), liti ''reset'']]"

definition isActiveTerminalState :: "jsstring \<Rightarrow> bool" where
  "isActiveTerminalState output = list_ex (\<lambda>pattern. rtest pattern output) activeStatePatterns"

text \<open>
  \<open>patterns.approvalDialog\<close> (lines 47-52):
  \<^verbatim>\<open>question: /Do you want to (?:make this edit to|create|proceed)/i\<close>,
  \<^verbatim>\<open>numberedOptions: /\b\d+\.\s+Yes/\<close>, \<^verbatim>\<open>currentSelection\<close>: the character U+276F.
\<close>

definition approvalDialog_question :: rx where
  "approvalDialog_question =
     Seq (liti ''Do you want to '')
         (Alt (liti ''make this edit to'') (Alt (liti ''create'') (liti ''proceed'')))"

definition approvalDialog_numberedOptions :: rx where
  "approvalDialog_numberedOptions =
     Seqs [WordB, OneOrMore digit, chr CHR ''.'', OneOrMore wspace, lit ''Yes'']"

definition selectionMarker :: nat where
  "selectionMarker = 10095"

definition approvalDialog_currentSelection :: rx where
  "approvalDialog_currentSelection = Cls (\<lambda>c. c = selectionMarker)"

text \<open>
  \<open>detectApprovalDialog\<close> (lines 523-554): the loop over the lines, with its three flags
  and its early exit.
\<close>

fun detectApprovalDialog_loop :: "jsstring list \<Rightarrow> bool \<Rightarrow> bool \<Rightarrow> bool \<Rightarrow> bool" where
  "detectApprovalDialog_loop [] hasApprovalQuestion hasNumberedOptions hasCurrentSelection = False"
| "detectApprovalDialog_loop (line # rest) hasApprovalQuestion hasNumberedOptions hasCurrentSelection =
     (let trimmedLine = trim line;
          q = (hasApprovalQuestion \<or> rtest approvalDialog_question trimmedLine);
          n = (hasNumberedOptions \<or> rtest approvalDialog_numberedOptions trimmedLine);
          c = (hasCurrentSelection \<or> rtest approvalDialog_currentSelection trimmedLine)
      in if q \<and> n \<and> c then True else detectApprovalDialog_loop rest q n c)"

definition detectApprovalDialog :: "jsstring \<Rightarrow> bool" where
  "detectApprovalDialog output = detectApprovalDialog_loop (split_lines output) False False False"

text \<open>
  \<open>isInteractiveApprovalDialog\<close> (lines 459-492). \<open>ANSI_ESCAPE\<close> is \<^verbatim>\<open>'\u001B['\<close>. A line
  carries approval content when it includes \<^verbatim>\<open>Do you want to\<close> or the selection marker,
  or matches \<^verbatim>\<open>/\d+\.\s+Yes/\<close>. Its colours are normal when it includes \<open>ANSI_ESCAPE\<close> and
  matches \<^verbatim>\<open>/\[(?:[013-79]|[13][0-79]|4[0-79]|9[1-79])m/\<close>, grey or dim when it includes
  \<open>ANSI_ESCAPE\<close> and matches \<^verbatim>\<open>/\[(?:2|8|90)m/\<close>.
\<close>

definition ANSI_ESCAPE :: jsstring where
  "ANSI_ESCAPE = [27, 91]"

definition hasApprovalContentLine :: "jsstring \<Rightarrow> bool" where
  "hasApprovalContentLine line =
     (str_includes line (js ''Do you want to'') \<or> str_includes line [selectionMarker]
      \<or> rtest (Seqs [OneOrMore digit, chr CHR ''.'', OneOrMore wspace, lit ''Yes'']) line)"

text \<open>The classes \<^verbatim>\<open>[013-79]\<close>, \<^verbatim>\<open>[13]\<close>, \<^verbatim>\<open>[0-79]\<close> and \<^verbatim>\<open>[1-79]\<close>.\<close>

definition cls_013_79 :: rx where
  "cls_013_79 = Cls (\<lambda>c. c = 48 \<or> c = 49 \<or> (51 \<le> c \<and> c \<le> 55) \<or> c = 57)"

definition cls_13 :: rx where
  "cls_13 = Cls (\<lambda>c. c = 49 \<or> c = 51)"

definition cls_0_79 :: rx where
  "cls_0_79 = Cls (\<lambda>c. (48 \<le> c \<and> c \<le> 55) \<or> c = 57)"

definition cls_1_79 :: rx where
  "cls_1_79 = Cls (\<lambda>c. (49 \<le> c \<and> c \<le> 55) \<or> c = 57)"

definition normalCodes :: rx where
  "normalCodes =
     Seqs [chr CHR ''['',
           Alt cls_013_79 (Alt (Seq cls_13 cls_0_79)
             (Alt (Seq (chr CHR ''4'') cls_0_79) (Seq (chr CHR ''9'') cls_1_79))),
           chr CHR ''m'']"

definition greyCodes :: rx where
  "greyCodes = Seqs [chr CHR ''['', Alt (lit ''2'') (Alt (lit ''8'') (lit ''90'')), chr CHR ''m'']"

definition hasNormalColors :: "jsstring \<Rightarrow> bool" where
  "hasNormalColors line = (str_includes line ANSI_ESCAPE \<and> rtest normalCodes line)"

definition isGreyOrDim :: "jsstring \<Rightarrow> bool" where
  "isGreyOrDim line = (str_includes line ANSI_ESCAPE \<and> rtest greyCodes line)"

text \<open>The loop over the lines; the pair is (\<open>hasInteractiveColors\<close>, \<open>hasApprovalContent\<close>).\<close>

fun isInteractive_loop :: "jsstring list \<Rightarrow> bool \<times> bool \<Rightarrow> bool \<times> bool" where
  "isInteractive_loop [] flags = flags"
| "isInteractive_loop (line # rest) (hasInteractiveColors, hasApprovalContent) =
     (if hasApprovalContentLine line
      then isInteractive_loop rest
             (if hasNormalColors line \<and> \<not> isGreyOrDim line then True else hasInteractiveColors,
              True)
      else isInteractive_loop rest (hasInteractiveColors, hasApprovalContent))"

definition isInteractiveApprovalDialog :: "jsstring \<Rightarrow> bool" where
  "isInteractiveApprovalDialog colorOutput =
     (case isInteractive_loop (split_lines colorOutput) (False, False) of
        (hasInteractiveColors, hasApprovalContent) \<Rightarrow>
          if hasApprovalContent \<and> \<not> str_includes colorOutput ANSI_ESCAPE then True
          else hasApprovalContent \<and> hasInteractiveColors)"

text \<open>
  \<open>extractResetTime\<close> (lines 827-843): the first of the four patterns that matches, each a
  lead-in followed by the group \<^verbatim>\<open>(\d{1,2}(?::\d{2})?\s*(?:am|pm)?)\<close>, all with the \<^verbatim>\<open>i\<close> flag;
  the group is returned trimmed.
\<close>

definition resetTimeGroup :: rx where
  "resetTimeGroup =
     Seqs [digit, Opt digit, Opt (Seqs [chr CHR '':'', digit, digit]), Star wspace,
           Opt (Alt (liti ''am'') (liti ''pm''))]"

fun firstMatch :: "string list \<Rightarrow> jsstring \<Rightarrow> jsstring option" where
  "firstMatch [] output = None"
| "firstMatch (leadIn # more) output =
     (case rmatch [liti leadIn, resetTimeGroup] output of
        Some gs \<Rightarrow> Some (trim (gs ! 1))
      | None \<Rightarrow> firstMatch more output)"

definition extractResetTime :: "jsstring \<Rightarrow> jsstring option" where
  "extractResetTime output =
     firstMatch [''resets '', ''resets at '', ''available again at '', ''ready at ''] output"

text \<open>
  \<open>patterns.taskCompletion\<close> (lines 55-65): \<^verbatim>\<open>waitingForInput: /^>.*X\s*send|^>\s*$/m\<close> where
  \<^verbatim>\<open>X\<close> is the character U+21B5, and
  \<^verbatim>\<open>notProcessing: /^(?!.*(?:...|processing|analyzing|running|executing|working|loading)).*$/im\<close>
  where the dots stand for the eight spinner characters U+25D0 to U+25D3, U+280B, U+2819,
  U+2839 and U+2838.
\<close>

definition waitingForInput :: rx where
  "waitingForInput =
     Alt (Seqs [Bol True, chr CHR ''>'', Star anychar, Cls (\<lambda>c. c = 8629), Star wspace, lit ''send''])
         (Seqs [Bol True, chr CHR ''>'', Star wspace, Eol True])"

definition processingMarkers :: rx where
  "processingMarkers =
     foldr Alt
       [Cls (\<lambda>c. c = 9680), Cls (\<lambda>c. c = 9681), Cls (\<lambda>c. c = 9682), Cls (\<lambda>c. c = 9683),
        Cls (\<lambda>c. c = 10251), Cls (\<lambda>c. c = 10265), Cls (\<lambda>c. c = 10297), Cls (\<lambda>c. c = 10296),
        liti ''processing'', liti ''analyzing'', liti ''running'', liti ''executing'',
        liti ''working'']
       (liti ''loading'')"

definition notProcessing :: rx where
  "notProcessing =
     Seqs [Bol True, NotAhead (Seq (Star anychar) processingMarkers), Star anychar, Eol True]"

text \<open>
  \<open>extractApprovalInfo\<close> (lines 559-636). \<open>boxChars\<close> are the 36 box drawing characters
  of the two character classes the source strips, as code points in the source's order;
  the first class also strips the selection marker.
\<close>

definition boxChars :: "nat list" where
  "boxChars =
     [9474, 9475, 9478, 9482, 9550, 9551, 9553, 9581, 9582, 9583, 9584, 9484, 9488,
      9492, 9496, 9500, 9508, 9516, 9524, 9532, 9472, 9473, 9476, 9477, 9480, 9481,
      9552, 9556, 9559, 9562, 9565, 9568, 9571, 9574, 9577, 9580]"

text \<open>\<^verbatim>\<open>s.replace(/\s+/g, ' ')\<close>: every run of white space becomes one space.\<close>

function collapse_ws :: "jsstring \<Rightarrow> jsstring" where
  "collapse_ws [] = []"
| "collapse_ws (c # cs) =
     (if isWhiteSpace c then 32 # collapse_ws (dropWhile isWhiteSpace cs) else c # collapse_ws cs)"
  by pat_completeness auto
termination
  by (relation "measure length") (auto simp: length_dropWhile_le less_Suc_eq_le)

record approval_option =
  opt_number :: parsed_number
  opt_text :: jsstring
  opt_shortcut :: "jsstring option"

record approval_info =
  ai_tool :: jsstring
  ai_action :: jsstring
  ai_question :: jsstring
  ai_options :: "approval_option list"

text \<open>
  The numbered option of a cleaned line, if it has one: \<^verbatim>\<open>/^(\d+)\./\<close>, then the shortcut
  \<^verbatim>\<open>/\(([^)]+)\)$/\<close> at the end of what follows the number.
\<close>

definition parseOption :: "jsstring \<Rightarrow> approval_option option" where
  "parseOption cleanLine =
     (case rmatch [Bol False, OneOrMore digit, chr CHR ''.''] cleanLine of
        None \<Rightarrow> None
      | Some numberMatch \<Rightarrow>
          let afterNumber = trim (drop (length (numberMatch ! 1) + 1) cleanLine)
          in (case rmatch [chr CHR ''('', OneOrMore (Cls (\<lambda>c. c \<noteq> 41)), chr CHR '')'', Eol False]
                     afterNumber of
                None \<Rightarrow>
                  Some \<lparr>opt_number = parseInt (numberMatch ! 1), opt_text = afterNumber,
                        opt_shortcut = None\<rparr>
              | Some shortcutMatch \<Rightarrow>
                  Some \<lparr>opt_number = parseInt (numberMatch ! 1),
                        opt_text = trim (take (length afterNumber - (length (shortcutMatch ! 1) + 2))
                                     afterNumber),
                        opt_shortcut = Some (shortcutMatch ! 1)\<rparr>))"

text \<open>
  The command of a Bash dialog: the first line that, stripped of box characters and
  trimmed, is not empty, names none of \<^verbatim>\<open>Bash command\<close>, \<^verbatim>\<open>Do you want\<close>, \<^verbatim>\<open>Yes\<close>, \<^verbatim>\<open>No\<close>
  and is longer than three code units; \<^verbatim>\<open>unknown command\<close> when there is none.
\<close>

fun findCommand :: "jsstring list \<Rightarrow> jsstring" where
  "findCommand [] = js ''unknown command''"
| "findCommand (line # rest) =
     (let cleanLine = trim (filter (\<lambda>c. c \<notin> set boxChars) line)
      in if cleanLine \<noteq> [] \<and> \<not> str_includes cleanLine (js ''Bash command'')
            \<and> \<not> str_includes cleanLine (js ''Do you want'') \<and> \<not> str_includes cleanLine (js ''Yes'')
            \<and> \<not> str_includes cleanLine (js ''No'') \<and> length cleanLine > 3
         then cleanLine else findCommand rest)"

text \<open>
  The tool and the action of a question line: \<^verbatim>\<open>/([^/\\\s]+\.[a-z0-9]+)\?/i\<close> finds the
  file of an edit, \<^verbatim>\<open>/create ([^?\s]+)/\<close> the file to create. A question line that fits
  none of the three branches leaves the tool and the action as they were.
\<close>

definition classify :: "jsstring \<Rightarrow> jsstring \<Rightarrow> approval_info \<Rightarrow> approval_info" where
  "classify output cleanLine info =
     (if str_includes cleanLine (js ''make this edit to'') then
        info\<lparr>ai_tool := js ''Edit'',
             ai_action := js ''Edit '' @
               (case rmatch [Seqs [OneOrMore (Cls (\<lambda>c. c \<noteq> 47 \<and> c \<noteq> 92 \<and> \<not> isWhiteSpace c)),
                                   chr CHR ''.'',
                                   OneOrMore (Cls (\<lambda>c. isDigit c \<or> (65 \<le> c \<and> c \<le> 90)
                                                        \<or> (97 \<le> c \<and> c \<le> 122)))],
                             chr CHR ''?''] cleanLine of
                  Some m \<Rightarrow> m ! 0 | None \<Rightarrow> js ''file'')\<rparr>
      else if str_includes cleanLine (js ''create'') \<and> str_includes cleanLine (js ''.'') then
        info\<lparr>ai_tool := js ''Write'',
             ai_action := js ''Create '' @
               (case rmatch [lit ''create '', OneOrMore (Cls (\<lambda>c. c \<noteq> 63 \<and> \<not> isWhiteSpace c))]
                       cleanLine of
                  Some m \<Rightarrow> m ! 1 | None \<Rightarrow> js ''file'')\<rparr>
      else if str_includes cleanLine (js ''proceed'') then
        (if str_includes output (js ''Bash command'')
         then info\<lparr>ai_tool := js ''Bash'',
                   ai_action := js ''Execute: '' @ findCommand (split_lines output)\<rparr>
         else info\<lparr>ai_tool := js ''Tool'', ai_action := js ''Proceed with operation''\<rparr>)
      else info)"

text \<open>The loop over the lines: options are collected, the last question line wins.\<close>

fun extractApprovalInfo_loop :: "jsstring \<Rightarrow> jsstring list \<Rightarrow> approval_info \<Rightarrow> approval_info" where
  "extractApprovalInfo_loop output [] info = info"
| "extractApprovalInfo_loop output (line # rest) info =
     (let cleanLine =
            trim (collapse_ws (filter (\<lambda>c. c \<notin> set boxChars \<and> c \<noteq> selectionMarker) line));
          info1 = (case parseOption cleanLine of
                     Some opt \<Rightarrow> info\<lparr>ai_options := ai_options info @ [opt]\<rparr>
                   | None \<Rightarrow> info);
          info2 = (if rtest approvalDialog_question cleanLine
                   then classify output cleanLine (info1\<lparr>ai_question := cleanLine\<rparr>)
                   else info1)
      in extractApprovalInfo_loop output rest info2)"

definition extractApprovalInfo :: "jsstring \<Rightarrow> approval_info" where
  "extractApprovalInfo output =
     extractApprovalInfo_loop output (split_lines output)
       \<lparr>ai_tool = js ''Unknown'', ai_action = js ''Unknown operation'', ai_question = [],
        ai_options = []\<rparr>"

section \<open>Reset times\<close>

text \<open>
  A \<^verbatim>\<open>Date\<close> is its time value, the milliseconds since the epoch in UTC. The local time
  zone is the function ECMAScript calls \<open>LocalTZA\<close>: the offset of local time from UTC in
  milliseconds, at a UTC time value when its flag is true and at a local time value when
  it is false (daylight saving time makes it depend on the time). \<open>LocalTime\<close>, \<open>UTC\<close>,
  \<open>Day\<close>, \<open>TimeWithinDay\<close>, \<open>MakeTime\<close> (with no seconds and milliseconds) and
  \<open>MakeDate\<close> are the abstract operations of that name.

  \<open>setHours tz d h m\<close> is \<^verbatim>\<open>d.setHours(h, m, 0, 0)\<close>: the local day of \<open>d\<close> with the time
  made of \<open>h\<close> hours and \<open>m\<close> minutes, whatever their size, taken back to UTC.
  \<open>addOneDay tz d\<close> is \<^verbatim>\<open>d.setDate(d.getDate() + 1)\<close>: the next local day at the same local
  time within the day, taken back to UTC (\<open>MakeDay\<close> of the year, the month and the date
  plus one is the day after). \<open>getHours\<close>, \<open>getMinutes\<close> and \<open>dayOf\<close> read the local time.
  Time values stay far below the 8.64e15 ms at which \<open>TimeClip\<close> gives up, so it is left
  out.
\<close>

type_synonym timezone = "int \<Rightarrow> bool \<Rightarrow> int"

definition msPerDay :: int where
  "msPerDay = 86400000"

definition msPerHour :: int where
  "msPerHour = 3600000"

definition msPerMinute :: int where
  "msPerMinute = 60000"

definition Day :: "int \<Rightarrow> int" where
  "Day t = t div msPerDay"

definition TimeWithinDay :: "int \<Rightarrow> int" where
  "TimeWithinDay t = t mod msPerDay"

definition LocalTime :: "timezone \<Rightarrow> int \<Rightarrow> int" where
  "LocalTime tz t = t + tz t True"

definition UTC :: "timezone \<Rightarrow> int \<Rightarrow> int" where
  "UTC tz t = t - tz t False"

definition MakeTime :: "int \<Rightarrow> int \<Rightarrow> int" where
  "MakeTime h m = h * msPerHour + m * msPerMinute"

definition MakeDate :: "int \<Rightarrow> int \<Rightarrow> int" where
  "MakeDate day time = day * msPerDay + time"

definition setHours :: "timezone \<Rightarrow> int \<Rightarrow> int \<Rightarrow> int \<Rightarrow> int" where
  "setHours tz d h m = UTC tz (MakeDate (Day (LocalTime tz d)) (MakeTime h m))"

definition addOneDay :: "timezone \<Rightarrow> int \<Rightarrow> int" where
  "addOneDay tz d =
     UTC tz (MakeDate (Day (LocalTime tz d) + 1) (TimeWithinDay (LocalTime tz d)))"

definition getHours :: "timezone \<Rightarrow> int \<Rightarrow> int" where
  "getHours tz d = (LocalTime tz d div msPerHour) mod 24"

definition getMinutes :: "timezone \<Rightarrow> int \<Rightarrow> int" where
  "getMinutes tz d = (LocalTime tz d div msPerMinute) mod 60"

text \<open>The local day a date falls on, counted from the epoch.\<close>

definition dayOf :: "timezone \<Rightarrow> int \<Rightarrow> int" where
  "dayOf tz d = Day (LocalTime tz d)"

text \<open>
  \<^verbatim>\<open>/^(\d{1,2})(?::(\d{2}))?\s*(am|pm)?$/\<close>, the expression of \<open>parseResetTime\<close> and of
  \<open>parseTimeToNextOccurrence\<close>, in six pieces: the hours are piece 1, the minutes piece 2
  without its colon, the period piece 4; a group that took no part is empty.
\<close>

definition timeRegex :: "rx list" where
  "timeRegex =
     [Bol False, Seq digit (Opt digit), Opt (Seqs [chr CHR '':'', digit, digit]), Star wspace,
      Opt (Alt (lit ''am'') (lit ''pm'')), Eol False]"

text \<open>The 12-hour conversion both functions apply; an absent period is the empty string.\<close>

definition convertPeriod :: "int \<Rightarrow> jsstring \<Rightarrow> int" where
  "convertPeriod numHours period =
     (if period \<noteq> [] then
        (if period = js ''pm'' \<and> numHours \<noteq> 12 then numHours + 12
         else if period = js ''am'' \<and> numHours = 12 then 0
         else numHours)
      else numHours)"

text \<open>
  \<open>parseResetTime\<close> (lines 848-897); \<open>now\<close> is the \<^verbatim>\<open>new Date()\<close> of line 850 and \<open>tz\<close> the
  local time zone. The source compares \<^verbatim>\<open>(resetTime - now) / (1000 * 60 * 60) > 5\<close> in
  floating point; for a whole number of milliseconds that is
  \<open>resetTime - now > 5 * msPerHour\<close>, the division being correctly rounded and 5 a
  floating-point number. The two groups are one or two digits each, so \<^verbatim>\<open>Number.parseInt\<close>
  gives a finite number for both (\<open>timeRegex_numbers\<close> below); the last branch is never
  taken.
\<close>

definition parseResetTime :: "timezone \<Rightarrow> int \<Rightarrow> jsstring \<Rightarrow> int option" where
  "parseResetTime tz now timeStr =
     (case rmatch timeRegex (trim (toLowerCase timeStr)) of
        None \<Rightarrow> None
      | Some timeMatch \<Rightarrow>
          let hours = timeMatch ! 1;
              minutes = drop 1 (timeMatch ! 2);
              period = timeMatch ! 4
          in (case (parseInt hours, if minutes \<noteq> [] then parseInt minutes else Finite 0) of
                (Finite parsedHours, Finite numMinutes) \<Rightarrow>
                  let numHours = convertPeriod parsedHours period;
                      resetTime = setHours tz now numHours numMinutes;
                      resetTime' = (if resetTime \<le> now then addOneDay tz resetTime else resetTime)
                  in if resetTime' - now > 5 * msPerHour then None else Some resetTime'
              | _ \<Rightarrow> None))"

text \<open>\<open>parseTimeToNextOccurrence\<close> (lines 965-1007): validated, always tomorrow, no cap.\<close>

definition parseTimeToNextOccurrence :: "timezone \<Rightarrow> int \<Rightarrow> jsstring \<Rightarrow> int option" where
  "parseTimeToNextOccurrence tz now timeStr =
     (case rmatch timeRegex (trim (toLowerCase timeStr)) of
        None \<Rightarrow> None
      | Some timeMatch \<Rightarrow>
          let hours = timeMatch ! 1;
              minutes = drop 1 (timeMatch ! 2);
              period = timeMatch ! 4
          in (case (parseInt hours, if minutes \<noteq> [] then parseInt minutes else Finite 0) of
                (Finite parsedHours, Finite numMinutes) \<Rightarrow>
                  let numHours = convertPeriod parsedHours period
                  in if numHours < 0 \<or> numHours > 23 \<or> numMinutes < 0 \<or> numMinutes > 59 then None
                     else Some (addOneDay tz (setHours tz now numHours numMinutes))
              | _ \<Rightarrow> None))"

section \<open>The monitor and its collaborators\<close>

text \<open>
  \<open>MonitoringOptions\<close> is the constructor's argument, each field optional. A number is an
  integer or \<^verbatim>\<open>NaN\<close> (fractions and infinities are left out); \<^verbatim>\<open>a || d\<close> takes \<open>d\<close> when \<open>a\<close>
  is \<^verbatim>\<open>undefined\<close>, zero, \<^verbatim>\<open>NaN\<close> or \<^verbatim>\<open>false\<close>.
\<close>

datatype jsnumber = Num int | NaN

record MonitoringOptions =
  pollInterval :: "jsnumber option"
  maxRetries :: "jsnumber option"
  autoRestart :: "bool option"

record RequiredOptions =
  opt_pollInterval :: int
  opt_maxRetries :: int
  opt_autoRestart :: bool

fun number_or :: "jsnumber option \<Rightarrow> int \<Rightarrow> int" where
  "number_or None d = d"
| "number_or (Some NaN) d = d"
| "number_or (Some (Num n)) d = (if n = 0 then d else n)"

fun bool_or :: "bool option \<Rightarrow> bool \<Rightarrow> bool" where
  "bool_or None d = d"
| "bool_or (Some b) d = (if b then b else d)"

text \<open>
  The per-session state (lines 28-39), with the \<open>lastApprovalQuestion\<close> that
  \<open>handleApprovalRequest\<close> adds to it. Dates are optional where the source's are; the two
  optional flags are only ever tested for truth, so \<^verbatim>\<open>undefined\<close> is \<open>False\<close>.
\<close>

record session_state =
  lastOutput :: jsstring
  limitDetectedAt :: "int option"
  awaitingContinuation :: bool
  retryCount :: int
  lastContinuationTime :: "int option"
  scheduledResetTime :: "int option"
  immediateContinueAttempted :: bool
  quotaCommandSent :: bool
  lastOutputChangeTime :: "int option"
  lastTaskCompletionNotification :: "int option"
  lastApprovalQuestion :: "jsstring option"

text \<open>
  The monitor: its options, the \<open>monitoringIntervals\<close> map from session ids to timer
  handles (a JavaScript \<^verbatim>\<open>Map\<close> keeps its keys in insertion order, so an association
  list), the \<open>sessionStates\<close> map, whether a Discord bot was given, and, of the
  \<^verbatim>\<open>EventEmitter\<close> it extends, whether a listener for \<^verbatim>\<open>'error'\<close> is registered.
\<close>

record monitor =
  options :: RequiredOptions
  monitoringIntervals :: "(jsstring \<times> nat) list"
  sessionStates :: "jsstring \<rightharpoonup> session_state"
  discordBot :: bool
  errorListener :: bool

text \<open>The constructor (lines 68-83).\<close>

definition Monitor_new :: "bool \<Rightarrow> MonitoringOptions option \<Rightarrow> monitor" where
  "Monitor_new bot_given arg =
     (let opts = (case arg of Some given \<Rightarrow> given
                  | None \<Rightarrow> \<lparr>pollInterval = None, maxRetries = None, autoRestart = None\<rparr>)
      in \<lparr>options = \<lparr>opt_pollInterval = number_or (pollInterval opts) 2000,
                      opt_maxRetries = number_or (maxRetries opts) 3,
                      opt_autoRestart = bool_or (autoRestart opts) True\<rparr>,
          monitoringIntervals = [],
          sessionStates = Map.empty,
          discordBot = bot_given,
          errorListener = False\<rparr>)"

text \<open>The session record of the registry, as far as the monitor reads it.\<close>

datatype session_status = Active | Waiting | WaitingApproval | Ended

record quota_schedule =
  q_time :: jsstring
  q_command :: jsstring
  q_nextExecution :: int

record session =
  s_name :: jsstring
  tmuxSession :: jsstring
  created :: int
  quotaSchedule :: "quota_schedule option"

datatype session_update = SetStatus session_status | SetQuotaSchedule quota_schedule

datatype error = Error jsstring

text \<open>
  Events and notifications. An event carries its type, the session id, its data and its
  timestamp. A notification carries its type, the session name and its metadata; its
  message, a fixed text around the same values, is left out. The idle time is kept in
  milliseconds: \<^verbatim>\<open>idleDurationSeconds\<close> is that number divided by 1000.
\<close>

datatype event_data =
    LimitData jsstring
  | ApprovalData jsstring approval_info
  | TaskData jsstring int
  | ErrorData jsstring

datatype event_type = LimitDetected | ApprovalNeeded | TaskCompleted | ErrorEvent

record monitor_event =
  ev_type :: event_type
  ev_sessionId :: jsstring
  ev_data :: event_data
  ev_timestamp :: int

datatype metadata =
    LimitMeta jsstring int
  | ApprovalMeta jsstring jsstring jsstring int
  | TaskMeta int "int option" int
  | QuotaMeta int jsstring int
  | NoMeta

datatype notification_type = NLimit | NContinued | NApproval | NTaskCompleted

record notification =
  n_type :: notification_type
  n_sessionName :: jsstring
  n_metadata :: metadata

text \<open>
  What a run of the monitor does to the outside, in order: events emitted, notifications
  handed to the Discord bot, session updates, keys sent to the pane, waits, and timers
  set and cleared.
\<close>

datatype effect =
    Emit monitor_event
  | Notify jsstring notification
  | UpdateSession jsstring session_update
  | SendRawKeys jsstring jsstring
  | SendContinueCommand jsstring
  | Sleep nat
  | SetInterval nat jsstring int
  | ClearInterval nat

text \<open>
  The collaborators answer through an environment: what the \<open>k\<close>-th interaction of a run
  returns, were it that call with those arguments. A session lookup returns a session,
  \<^verbatim>\<open>null\<close> or throws; \<open>sessionExists\<close> never throws (part 2 of the sources: it catches);
  a capture returns the text or throws; sending keys and updating a session may throw.
  The clock is read the same way; the local time zone is the host's. \<open>generateQuotaMessage\<close> is imported from
  \<^verbatim>\<open>utils/quota.ts\<close>, which is not among the sources.
\<close>

record env =
  e_getSession :: "nat \<Rightarrow> jsstring \<Rightarrow> error + session option"
  e_sessionExists :: "nat \<Rightarrow> jsstring \<Rightarrow> bool"
  e_capturePane :: "nat \<Rightarrow> jsstring \<Rightarrow> error + jsstring"
  e_capturePaneWithColors :: "nat \<Rightarrow> jsstring \<Rightarrow> error + jsstring"
  e_sendRawKeys :: "nat \<Rightarrow> jsstring \<Rightarrow> jsstring \<Rightarrow> error option"
  e_sendContinueCommand :: "nat \<Rightarrow> jsstring \<Rightarrow> error option"
  e_updateSession :: "nat \<Rightarrow> jsstring \<Rightarrow> session_update \<Rightarrow> error option"
  e_clock :: "nat \<Rightarrow> int"
  e_LocalTZA :: timezone
  e_generateQuotaMessage :: "int \<Rightarrow> jsstring"

text \<open>
  The state of a run: the monitor, the number of interactions so far, and the effects so
  far. A method is a function from the environment and this state to a result, thrown
  (\<open>Inl\<close>) or returned (\<open>Inr\<close>), and the state after it. One call runs from start to end:
  what another call on the same monitor does while this one awaits is not in the model.
\<close>

record run =
  mon :: monitor
  steps :: nat
  trace :: "effect list"

type_synonym 'a prog = "env \<Rightarrow> run \<Rightarrow> (error + 'a) \<times> run"

definition ret :: "'a \<Rightarrow> 'a prog" where
  "ret v e s = (Inr v, s)"

definition throw :: "error \<Rightarrow> 'a prog" where
  "throw x e s = (Inl x, s)"

definition bnd :: "'a prog \<Rightarrow> ('a \<Rightarrow> 'b prog) \<Rightarrow> 'b prog" where
  "bnd m f e s = (case m e s of (Inl x, s') \<Rightarrow> (Inl x, s') | (Inr v, s') \<Rightarrow> f v e s')"

definition andThen :: "unit prog \<Rightarrow> 'b prog \<Rightarrow> 'b prog" where
  "andThen m k = bnd m (\<lambda>u. k)"

definition try_catch :: "'a prog \<Rightarrow> (error \<Rightarrow> 'a prog) \<Rightarrow> 'a prog" where
  "try_catch m h e s = (case m e s of (Inl x, s') \<Rightarrow> h x e s' | (Inr v, s') \<Rightarrow> (Inr v, s'))"

text \<open>The interactions.\<close>

definition tick :: "run \<Rightarrow> run" where
  "tick s = s\<lparr>steps := Suc (steps s)\<rparr>"

definition effect :: "effect \<Rightarrow> run \<Rightarrow> run" where
  "effect x s = s\<lparr>trace := trace s @ [x]\<rparr>"

definition getSession :: "jsstring \<Rightarrow> session option prog" where
  "getSession sessionId e s = (e_getSession e (steps s) sessionId, tick s)"

definition sessionExists :: "jsstring \<Rightarrow> bool prog" where
  "sessionExists pane e s = (Inr (e_sessionExists e (steps s) pane), tick s)"

definition capturePane :: "jsstring \<Rightarrow> jsstring prog" where
  "capturePane pane e s = (e_capturePane e (steps s) pane, tick s)"

definition capturePaneWithColors :: "jsstring \<Rightarrow> jsstring prog" where
  "capturePaneWithColors pane e s = (e_capturePaneWithColors e (steps s) pane, tick s)"

definition sendRawKeys :: "jsstring \<Rightarrow> jsstring \<Rightarrow> unit prog" where
  "sendRawKeys pane keys e s =
     (case e_sendRawKeys e (steps s) pane keys of
        Some x \<Rightarrow> (Inl x, tick s)
      | None \<Rightarrow> (Inr (), effect (SendRawKeys pane keys) (tick s)))"

definition sendContinueCommand :: "jsstring \<Rightarrow> unit prog" where
  "sendContinueCommand pane e s =
     (case e_sendContinueCommand e (steps s) pane of
        Some x \<Rightarrow> (Inl x, tick s)
      | None \<Rightarrow> (Inr (), effect (SendContinueCommand pane) (tick s)))"

definition updateSession :: "jsstring \<Rightarrow> session_update \<Rightarrow> unit prog" where
  "updateSession sessionId upd e s =
     (case e_updateSession e (steps s) sessionId upd of
        Some x \<Rightarrow> (Inl x, tick s)
      | None \<Rightarrow> (Inr (), effect (UpdateSession sessionId upd) (tick s)))"

definition newDate :: "int prog" where
  "newDate e s = (Inr (e_clock e (steps s)), tick s)"

definition localTZA :: "timezone prog" where
  "localTZA e s = (Inr (e_LocalTZA e), s)"

definition sleep :: "nat \<Rightarrow> unit prog" where
  "sleep ms e s = (Inr (), effect (Sleep ms) s)"

text \<open>
  \<^verbatim>\<open>this.emit(type, event)\<close>. An \<^verbatim>\<open>EventEmitter\<close> with no listener for \<^verbatim>\<open>'error'\<close> throws
  when that event is emitted; of the error it throws only the start of the message is
  kept. The call is recorded in either case.
\<close>

definition emit :: "monitor_event \<Rightarrow> unit prog" where
  "emit ev e s =
     (if ev_type ev = ErrorEvent \<and> \<not> errorListener (mon s)
      then (Inl (Error (js ''Unhandled error.'')), effect (Emit ev) s)
      else (Inr (), effect (Emit ev) s))"

text \<open>
  \<open>safeNotifyDiscord\<close> (lines 88-103): nothing without a bot; otherwise the notification
  is handed to the bot, and whatever that call throws is caught and logged.
\<close>

definition safeNotifyDiscord :: "jsstring \<Rightarrow> notification \<Rightarrow> unit prog" where
  "safeNotifyDiscord sessionId n e s =
     (if \<not> discordBot (mon s) then (Inr (), s)
      else (Inr (), effect (Notify sessionId n) (tick s)))"

definition generateQuotaMessage :: "int \<Rightarrow> jsstring prog" where
  "generateQuotaMessage d e s = (Inr (e_generateQuotaMessage e d), s)"

text \<open>Reading the options, reading and writing the state of a session, and the two maps.\<close>

definition getOptions :: "RequiredOptions prog" where
  "getOptions e s = (Inr (options (mon s)), s)"

definition getState :: "jsstring \<Rightarrow> session_state option prog" where
  "getState sessionId e s = (Inr (sessionStates (mon s) sessionId), s)"

definition modState :: "jsstring \<Rightarrow> (session_state \<Rightarrow> session_state) \<Rightarrow> unit prog" where
  "modState sessionId f e s =
     (Inr (),
      (case sessionStates (mon s) sessionId of
         None \<Rightarrow> s
       | Some x \<Rightarrow> s\<lparr>mon := (mon s)\<lparr>sessionStates := (sessionStates (mon s))(sessionId \<mapsto> f x)\<rparr>\<rparr>))"

fun map_set :: "(jsstring \<times> nat) list \<Rightarrow> jsstring \<Rightarrow> nat \<Rightarrow> (jsstring \<times> nat) list" where
  "map_set [] k v = [(k, v)]"
| "map_set ((k', v') # kvs) k v = (if k' = k then (k, v) # kvs else (k', v') # map_set kvs k v)"

definition map_delete :: "(jsstring \<times> nat) list \<Rightarrow> jsstring \<Rightarrow> (jsstring \<times> nat) list" where
  "map_delete kvs k = filter (\<lambda>kv. fst kv \<noteq> k) kvs"

text \<open>\<^verbatim>\<open>(await getSession(id))?.name || id\<close>: the id when there is no session or no name.\<close>

definition nameOr :: "session option \<Rightarrow> jsstring \<Rightarrow> jsstring" where
  "nameOr session sessionId =
     (case session of None \<Rightarrow> sessionId
      | Some x \<Rightarrow> if s_name x = [] then sessionId else s_name x)"

section \<open>The monitor's methods\<close>

text \<open>
  \<^verbatim>\<open>setInterval\<close> returns a fresh handle (the number of the interaction serves as one);
  \<^verbatim>\<open>clearInterval\<close> stops the timer of a handle.
\<close>

definition setInterval :: "jsstring \<Rightarrow> nat prog" where
  "setInterval sessionId e s =
     (Inr (steps s),
      effect (SetInterval (steps s) sessionId (opt_pollInterval (options (mon s)))) (tick s))"

text \<open>\<open>stopMonitoring\<close> (lines 133-141).\<close>

definition stopMonitoring :: "jsstring \<Rightarrow> unit prog" where
  "stopMonitoring sessionId e s =
     (let s1 = (case map_of (monitoringIntervals (mon s)) sessionId of
                  Some interval \<Rightarrow>
                    (effect (ClearInterval interval) s)
                      \<lparr>mon := (mon s)\<lparr>monitoringIntervals :=
                                map_delete (monitoringIntervals (mon s)) sessionId\<rparr>\<rparr>
                | None \<Rightarrow> s)
      in (Inr (), s1\<lparr>mon := (mon s1)\<lparr>sessionStates := (sessionStates (mon s1))(sessionId := None)\<rparr>\<rparr>))"

text \<open>\<open>startMonitoring\<close> (lines 105-131).\<close>

definition initialState :: "int \<Rightarrow> session_state" where
  "initialState t =
     \<lparr>lastOutput = [], limitDetectedAt = None, awaitingContinuation = False, retryCount = 0,
      lastContinuationTime = None, scheduledResetTime = None,
      immediateContinueAttempted = False, quotaCommandSent = False,
      lastOutputChangeTime = Some t, lastTaskCompletionNotification = None,
      lastApprovalQuestion = None\<rparr>"

definition startMonitoring :: "jsstring \<Rightarrow> unit prog" where
  "startMonitoring sessionId =
     bnd (getSession sessionId) (\<lambda>session.
       case session of
         None \<Rightarrow> throw (Error (js ''Session not found: '' @ sessionId))
       | Some found \<Rightarrow>
           bnd newDate (\<lambda>t.
           bnd (\<lambda>e s. (Inr (), s\<lparr>mon := (mon s)\<lparr>sessionStates :=
                                    (sessionStates (mon s))(sessionId \<mapsto> initialState t)\<rparr>\<rparr>)) (\<lambda>u.
           bnd (setInterval sessionId) (\<lambda>interval.
             (\<lambda>e s. (Inr (), s\<lparr>mon := (mon s)\<lparr>monitoringIntervals :=
                                   map_set (monitoringIntervals (mon s)) sessionId interval\<rparr>\<rparr>))))))"

text \<open>\<open>stopAll\<close> (lines 1009-1014) and \<open>getActiveMonitoring\<close> (lines 1016-1018).\<close>

fun stopAll_loop :: "jsstring list \<Rightarrow> unit prog" where
  "stopAll_loop [] = ret ()"
| "stopAll_loop (sessionId # rest) = andThen (stopMonitoring sessionId) (stopAll_loop rest)"

definition stopAll :: "unit prog" where
  "stopAll e s = stopAll_loop (map fst (monitoringIntervals (mon s))) e s"

definition getActiveMonitoring :: "jsstring list prog" where
  "getActiveMonitoring e s = (Inr (map fst (monitoringIntervals (mon s))), s)"

text \<open>\<open>handleSessionEnded\<close> (lines 690-694).\<close>

definition handleSessionEnded :: "jsstring \<Rightarrow> unit prog" where
  "handleSessionEnded sessionId = stopMonitoring sessionId"

text \<open>\<open>handlePollingError\<close> (lines 696-720).\<close>

definition errorMessage :: "error \<Rightarrow> jsstring" where
  "errorMessage x = (case x of Error m \<Rightarrow> m)"

definition handlePollingError :: "jsstring \<Rightarrow> error \<Rightarrow> unit prog" where
  "handlePollingError sessionId err =
     bnd (getState sessionId) (\<lambda>sessionState.
       case sessionState of
         None \<Rightarrow> ret ()
       | Some st \<Rightarrow>
           andThen (modState sessionId (\<lambda>x. x\<lparr>retryCount := retryCount x + 1\<rparr>))
          (bnd getOptions (\<lambda>opts.
             if retryCount st + 1 \<ge> opt_maxRetries opts
             then andThen (stopMonitoring sessionId)
                    (bnd newDate (\<lambda>t.
                       emit \<lparr>ev_type = ErrorEvent, ev_sessionId = sessionId,
                             ev_data = ErrorData (errorMessage err), ev_timestamp = t\<rparr>))
             else ret ())))"

text \<open>\<open>tryImmediateContinuation\<close> (lines 767-822); the result is (success, response).\<close>

definition lastLines :: "nat \<Rightarrow> jsstring list \<Rightarrow> jsstring list" where
  "lastLines n ls = drop (length ls - n) ls"

definition classifyContinuation :: "jsstring \<Rightarrow> jsstring \<Rightarrow> bool \<times> jsstring option" where
  "classifyContinuation outputBefore outputAfter =
     (let hasLimitInFull = hasLimitMessage outputAfter;
          newContent = trim (drop (length outputBefore) outputAfter);
          isJustLimitResponse = (length newContent < 50 \<and> hasLimitInFull)
      in if hasLimitInFull \<and> isJustLimitResponse then (False, Some outputAfter)
         else if hasLimitInFull then
           (let recentLines = join_lines (lastLines 15 (split_lines outputAfter));
                hasRecentLimit = (hasLimitMessage recentLines \<and> isActiveTerminalState recentLines)
            in if hasRecentLimit then (False, Some outputAfter) else (True, Some outputAfter))
         else (True, Some outputAfter))"

definition tryImmediateContinuation :: "jsstring \<Rightarrow> jsstring \<Rightarrow> (bool \<times> jsstring option) prog" where
  "tryImmediateContinuation sessionId output =
     try_catch
       (bnd (getSession sessionId) (\<lambda>session.
          case session of
            None \<Rightarrow> ret (False, None)
          | Some found \<Rightarrow>
              bnd (capturePane (tmuxSession found)) (\<lambda>outputBefore.
              andThen (sendContinueCommand (tmuxSession found))
             (andThen (sleep 3000)
             (bnd (capturePane (tmuxSession found)) (\<lambda>outputAfter.
                ret (classifyContinuation outputBefore outputAfter)))))))
       (\<lambda>err. ret (False, None))"

text \<open>
  \<open>handleLimitDetected\<close> (lines 383-453), in two parts. The first, up to the immediate
  continuation (lines 404-427), returns the output to read the reset time from, or nothing
  when the method has returned. In the second (lines 429-452) \<open>resetTime\<close> is empty when the source's is
  \<^verbatim>\<open>null\<close>: the source only tests it for truth, and the empty string is falsy as well.
\<close>

definition handleLimitDetected_immediate :: "jsstring \<Rightarrow> jsstring \<Rightarrow> session_state \<Rightarrow> jsstring option prog" where
  "handleLimitDetected_immediate sessionId output st =
     (if \<not> immediateContinueAttempted st then
        andThen (modState sessionId (\<lambda>x. x\<lparr>immediateContinueAttempted := True\<rparr>))
          (bnd (tryImmediateContinuation sessionId output) (\<lambda>continueResult.
             if fst continueResult then
               bnd newDate (\<lambda>t.
               andThen (modState sessionId (\<lambda>x. x\<lparr>lastContinuationTime := Some t,
                                                    awaitingContinuation := False,
                                                    immediateContinueAttempted := False\<rparr>))
              (andThen (updateSession sessionId (SetStatus Active))
                 (ret None)))
             else
               ret (Some (case snd continueResult of
                            Some response \<Rightarrow> if response \<noteq> [] then response else output
                          | None \<Rightarrow> output))))
      else ret (Some output))"

definition handleLimitDetected_schedule :: "jsstring \<Rightarrow> jsstring \<Rightarrow> unit prog" where
  "handleLimitDetected_schedule sessionId output =
     (let resetTime = (case extractResetTime output of Some r \<Rightarrow> r | None \<Rightarrow> [])
      in andThen
           (if resetTime \<noteq> [] then
              bnd newDate (\<lambda>now.
              bnd localTZA (\<lambda>tz.
                case parseResetTime tz now resetTime of
                  Some resetDateTime \<Rightarrow>
                    modState sessionId (\<lambda>x. x\<lparr>scheduledResetTime := Some resetDateTime\<rparr>)
                | None \<Rightarrow> ret ()))
            else ret ())
           (bnd (getSession sessionId) (\<lambda>session.
            bnd newDate (\<lambda>detectedAt.
            andThen
              (safeNotifyDiscord sessionId
                 \<lparr>n_type = NLimit, n_sessionName = nameOr session sessionId,
                  n_metadata =
                    LimitMeta (if resetTime \<noteq> [] then resetTime
                               else js ''Monitoring for availability'') detectedAt\<rparr>)
              (updateSession sessionId (SetStatus Waiting))))))"

definition handleLimitDetected :: "jsstring \<Rightarrow> jsstring \<Rightarrow> unit prog" where
  "handleLimitDetected sessionId output =
     bnd (getState sessionId) (\<lambda>sessionState.
       case sessionState of
         None \<Rightarrow> ret ()
       | Some st \<Rightarrow>
           if scheduledResetTime st \<noteq> None then ret ()
           else
             bnd newDate (\<lambda>t.
             andThen (emit \<lparr>ev_type = LimitDetected, ev_sessionId = sessionId,
                            ev_data = LimitData output, ev_timestamp = t\<rparr>)
            (bnd (handleLimitDetected_immediate sessionId output st) (\<lambda>continue.
               case continue of
                 None \<Rightarrow> ret ()
               | Some output' \<Rightarrow> handleLimitDetected_schedule sessionId output'))))"

text \<open>\<open>handleApprovalRequest\<close> (lines 638-688).\<close>

definition handleApprovalRequest :: "jsstring \<Rightarrow> jsstring \<Rightarrow> unit prog" where
  "handleApprovalRequest sessionId output =
     bnd (getState sessionId) (\<lambda>sessionState.
       case sessionState of
         None \<Rightarrow> ret ()
       | Some st \<Rightarrow>
           (let approvalInfo = extractApprovalInfo output;
                approvalKey = ai_question approvalInfo
            in if lastApprovalQuestion st = Some approvalKey then ret ()
               else
                 andThen (modState sessionId (\<lambda>x. x\<lparr>lastApprovalQuestion := Some approvalKey\<rparr>))
                (bnd newDate (\<lambda>t.
                 andThen (emit \<lparr>ev_type = ApprovalNeeded, ev_sessionId = sessionId,
                                ev_data = ApprovalData output approvalInfo, ev_timestamp = t\<rparr>)
                (bnd (getSession sessionId) (\<lambda>session.
                 bnd newDate (\<lambda>t'.
                 andThen
                   (safeNotifyDiscord sessionId
                      \<lparr>n_type = NApproval, n_sessionName = nameOr session sessionId,
                       n_metadata = ApprovalMeta (ai_tool approvalInfo) (ai_action approvalInfo)
                                      (ai_question approvalInfo) t'\<rparr>)
                   (updateSession sessionId (SetStatus WaitingApproval)))))))))"

text \<open>
  \<open>handleTaskCompletion\<close> (lines 347-381) and \<open>checkTaskCompletion\<close> (lines 295-345). The
  idle time is in milliseconds: the source's \<^verbatim>\<open>idleDuration < MIN_IDLE_SECONDS\<close>, with
  \<^verbatim>\<open>idleDuration\<close> the milliseconds divided by 1000 and \<^verbatim>\<open>MIN_IDLE_SECONDS = 10\<close>, is
  \<open>idle < 10000\<close>; \<^verbatim>\<open>Math.round\<close> of the seconds is \<open>(idle + 500) div 1000\<close>.
\<close>

definition handleTaskCompletion :: "jsstring \<Rightarrow> jsstring \<Rightarrow> int \<Rightarrow> unit prog" where
  "handleTaskCompletion sessionId output idle =
     bnd (getState sessionId) (\<lambda>sessionState.
       case sessionState of
         None \<Rightarrow> ret ()
       | Some st \<Rightarrow>
           bnd newDate (\<lambda>t.
           andThen (modState sessionId (\<lambda>x. x\<lparr>lastTaskCompletionNotification := Some t\<rparr>))
          (bnd newDate (\<lambda>t'.
           andThen (emit \<lparr>ev_type = TaskCompleted, ev_sessionId = sessionId,
                          ev_data = TaskData output idle, ev_timestamp = t'\<rparr>)
          (bnd (getSession sessionId) (\<lambda>session.
           bnd newDate (\<lambda>t''.
             safeNotifyDiscord sessionId
               \<lparr>n_type = NTaskCompleted, n_sessionName = nameOr session sessionId,
                n_metadata = TaskMeta ((idle + 500) div 1000) (lastOutputChangeTime st) t''\<rparr>)))))))"

definition MIN_IDLE_MS :: int where
  "MIN_IDLE_MS = 10 * 1000"

definition COMPLETION_COOLDOWN_MS :: int where
  "COMPLETION_COOLDOWN_MS = 5 * 60 * 1000"

definition checkTaskCompletion :: "jsstring \<Rightarrow> jsstring \<Rightarrow> unit prog" where
  "checkTaskCompletion sessionId output =
     bnd (getState sessionId) (\<lambda>sessionState.
       case sessionState of
         None \<Rightarrow> ret ()
       | Some st \<Rightarrow>
           if awaitingContinuation st then ret ()
           else
             (case lastOutputChangeTime st of
                None \<Rightarrow> ret ()
              | Some lastChangeTime \<Rightarrow>
                  bnd newDate (\<lambda>now.
                    let idle = now - lastChangeTime
                    in if idle < MIN_IDLE_MS then ret ()
                       else if \<not> rtest waitingForInput output \<or> \<not> rtest notProcessing output
                         then ret ()
                       else
                         (case lastTaskCompletionNotification st of
                            Some lastNotification \<Rightarrow>
                              if now - lastNotification < COMPLETION_COOLDOWN_MS then ret ()
                              else handleTaskCompletion sessionId output idle
                          | None \<Rightarrow> handleTaskCompletion sessionId output idle))))"

text \<open>
  \<open>detectPatterns\<close> (lines 248-290). The limit part returns whether the method goes on to
  the approval part (it returns from the method while in the cooldown).
\<close>

definition CONTINUATION_COOLDOWN_MS :: int where
  "CONTINUATION_COOLDOWN_MS = 5 * 60 * 1000"

definition detectPatterns_limit :: "jsstring \<Rightarrow> jsstring \<Rightarrow> session_state \<Rightarrow> bool prog" where
  "detectPatterns_limit sessionId output st =
     (if hasLimitMessage output \<and> isActiveTerminalState output \<and> \<not> awaitingContinuation st then
        bnd (case lastContinuationTime st of
               Some lastContinuation \<Rightarrow> bnd newDate (\<lambda>now. ret (now - lastContinuation))
             | None \<Rightarrow> ret (CONTINUATION_COOLDOWN_MS + 1)) (\<lambda>timeSinceLastContinuation.
          if timeSinceLastContinuation < CONTINUATION_COOLDOWN_MS then ret False
          else
            bnd newDate (\<lambda>t.
            andThen (modState sessionId (\<lambda>x. x\<lparr>limitDetectedAt := Some t,
                                                 awaitingContinuation := True\<rparr>))
           (andThen (handleLimitDetected sessionId output) (ret True))))
      else ret True)"

definition detectPatterns :: "jsstring \<Rightarrow> jsstring \<Rightarrow> unit prog" where
  "detectPatterns sessionId output =
     bnd (getState sessionId) (\<lambda>sessionState.
       case sessionState of
         None \<Rightarrow> ret ()
       | Some st \<Rightarrow>
           bnd (detectPatterns_limit sessionId output st) (\<lambda>goOn.
             if \<not> goOn then ret ()
             else if detectApprovalDialog output then
               bnd (getSession sessionId) (\<lambda>session.
                 case session of
                   None \<Rightarrow> ret ()
                 | Some found \<Rightarrow>
                     bnd (capturePaneWithColors (tmuxSession found)) (\<lambda>colorOutput.
                       if isInteractiveApprovalDialog colorOutput
                       then handleApprovalRequest sessionId output
                       else ret ()))
             else ret ()))"

text \<open>\<open>analyzeOutput\<close> (lines 209-232).\<close>

definition analyzeOutput :: "jsstring \<Rightarrow> jsstring \<Rightarrow> unit prog" where
  "analyzeOutput sessionId output =
     bnd (getState sessionId) (\<lambda>sessionState.
       case sessionState of
         None \<Rightarrow> ret ()
       | Some st \<Rightarrow>
           andThen
             (if output \<noteq> lastOutput st then
                bnd newDate (\<lambda>t.
                andThen (modState sessionId (\<lambda>x. x\<lparr>lastOutputChangeTime := Some t\<rparr>))
               (andThen (modState sessionId (\<lambda>x. x\<lparr>lastOutput := output\<rparr>))
                  (detectPatterns sessionId (getNewOutput (lastOutput st) output))))
              else ret ())
             (checkTaskCompletion sessionId output))"

text \<open>\<open>performAutoContinuation\<close> (lines 722-761).\<close>

definition performAutoContinuation :: "jsstring \<Rightarrow> unit prog" where
  "performAutoContinuation sessionId =
     try_catch
       (bnd (getSession sessionId) (\<lambda>session.
          case session of
            None \<Rightarrow> ret ()
          | Some found \<Rightarrow>
              bnd (getState sessionId) (\<lambda>sessionState.
                case sessionState of
                  None \<Rightarrow> ret ()
                | Some st \<Rightarrow>
                    andThen (sendContinueCommand (tmuxSession found))
                   (bnd newDate (\<lambda>t.
                    andThen (modState sessionId (\<lambda>x. x\<lparr>lastContinuationTime := Some t,
                                                         awaitingContinuation := False,
                                                         scheduledResetTime := None,
                                                         immediateContinueAttempted := False\<rparr>))
                   (andThen (updateSession sessionId (SetStatus Active))
                      (safeNotifyDiscord sessionId
                         \<lparr>n_type = NContinued, n_sessionName = s_name found,
                          n_metadata = NoMeta\<rparr>)))))))
       (\<lambda>err. ret ())"

text \<open>\<open>executeQuotaSchedule\<close> (lines 902-959).\<close>

definition executeQuotaSchedule :: "jsstring \<Rightarrow> quota_schedule \<Rightarrow> unit prog" where
  "executeQuotaSchedule sessionId quota =
     try_catch
       (bnd (getSession sessionId) (\<lambda>session.
          case session of
            None \<Rightarrow> ret ()
          | Some found \<Rightarrow>
              andThen (sendRawKeys (tmuxSession found) (js ''Enter''))
             (bnd newDate (\<lambda>now.
              bnd newDate (\<lambda>now'.
              bnd localTZA (\<lambda>tz.
                case parseTimeToNextOccurrence tz now' (q_time quota) of
                  None \<Rightarrow> ret ()
                | Some nextExecution \<Rightarrow>
                    bnd (generateQuotaMessage nextExecution) (\<lambda>newCommand.
                    andThen (updateSession sessionId
                               (SetQuotaSchedule
                                  (quota\<lparr>q_command := newCommand,
                                         q_nextExecution := nextExecution\<rparr>)))
                   (andThen (modState sessionId (\<lambda>x. x\<lparr>quotaCommandSent := False\<rparr>))
                   (bnd newDate (\<lambda>t.
                      safeNotifyDiscord sessionId
                        \<lparr>n_type = NContinued, n_sessionName = s_name found,
                         n_metadata = QuotaMeta nextExecution (q_time quota) t\<rparr>))))))))))
       (\<lambda>err. ret ())"

text \<open>
  \<open>pollSession\<close> (lines 143-207): the body of its \<^verbatim>\<open>try\<close> in three parts (the capture and
  its analysis; the quota schedule; the lookups and the scheduled continuation), and the
  \<^verbatim>\<open>catch\<close> around them.
\<close>

definition pollSession_capture :: "jsstring \<Rightarrow> session \<Rightarrow> unit prog" where
  "pollSession_capture sessionId found =
     bnd (capturePane (tmuxSession found)) (\<lambda>currentOutput. analyzeOutput sessionId currentOutput)"

definition sentFlag :: "session_state option \<Rightarrow> bool" where
  "sentFlag sessionState = (case sessionState of Some st \<Rightarrow> quotaCommandSent st | None \<Rightarrow> False)"

definition pollSession_quota :: "jsstring \<Rightarrow> session \<Rightarrow> unit prog" where
  "pollSession_quota sessionId found =
     (case quotaSchedule found of
        None \<Rightarrow> pollSession_capture sessionId found
      | Some quota \<Rightarrow>
          bnd (getState sessionId) (\<lambda>sessionState.
          bnd newDate (\<lambda>now.
          andThen
            (if \<not> sentFlag sessionState then
               (if now - created found > 5000 then
                  andThen (sendRawKeys (tmuxSession found) (q_command quota))
                    (modState sessionId (\<lambda>x. x\<lparr>quotaCommandSent := True\<rparr>))
                else ret ())
             else ret ())
            (bnd (getState sessionId) (\<lambda>sessionState'.
               if now \<ge> q_nextExecution quota \<and> sentFlag sessionState'
               then executeQuotaSchedule sessionId quota
               else pollSession_capture sessionId found)))))"

definition pollSession_body :: "jsstring \<Rightarrow> unit prog" where
  "pollSession_body sessionId =
     bnd (getSession sessionId) (\<lambda>session.
       case session of
         None \<Rightarrow> stopMonitoring sessionId
       | Some found \<Rightarrow>
           bnd (sessionExists (tmuxSession found)) (\<lambda>tmuxExists.
             if \<not> tmuxExists then handleSessionEnded sessionId
             else
               bnd (getState sessionId) (\<lambda>sessionState.
                 case (case sessionState of Some st \<Rightarrow> scheduledResetTime st | None \<Rightarrow> None) of
                   Some scheduled \<Rightarrow>
                     bnd newDate (\<lambda>now.
                       if now \<ge> scheduled then
                         andThen (modState sessionId (\<lambda>x. x\<lparr>scheduledResetTime := None\<rparr>))
                           (performAutoContinuation sessionId)
                       else pollSession_quota sessionId found)
                 | None \<Rightarrow> pollSession_quota sessionId found)))"

definition pollSession :: "jsstring \<Rightarrow> unit prog" where
  "pollSession sessionId =
     try_catch (pollSession_body sessionId) (\<lambda>err. handlePollingError sessionId err)"

section \<open>Sample data\<close>

text \<open>
  A session, environments and a run to evaluate the methods on: in \<open>quietEnv t\<close> every
  lookup finds \<open>demoSession\<close>, the pane exists and is empty, nothing throws, the clock
  reads \<open>t\<close> and local time is UTC; in \<open>noSessionEnv\<close> the lookups return \<^verbatim>\<open>null\<close>. \<open>demoRun st\<close> is a monitor
  with default options and a Discord bot that monitors the session \<open>s1\<close> in state \<open>st\<close>.
\<close>

text \<open>
  Two time zones: \<open>utcZone\<close> is the zone of UTC itself. In \<open>springZone\<close> the clock is put
  forward by an hour at 02:00 of day 0, so that the local times from 02:00 to 03:00 of
  that day do not exist; as ECMAScript asks, such a time is read with the offset from
  before the change.
\<close>

definition utcZone :: timezone where
  "utcZone t isUTC = 0"

definition springZone :: timezone where
  "springZone t isUTC =
     (if isUTC then (if t < 2 * msPerHour then 0 else msPerHour)
      else (if t < 3 * msPerHour then 0 else msPerHour))"

definition demoSession :: session where
  "demoSession = \<lparr>s_name = js ''demo'', tmuxSession = js ''pane'', created = 0, quotaSchedule = None\<rparr>"

definition quietEnv :: "int \<Rightarrow> env" where
  "quietEnv t =
     \<lparr>e_getSession = (\<lambda>k sessionId. Inr (Some demoSession)),
      e_sessionExists = (\<lambda>k pane. True),
      e_capturePane = (\<lambda>k pane. Inr []),
      e_capturePaneWithColors = (\<lambda>k pane. Inr []),
      e_sendRawKeys = (\<lambda>k pane keys. None),
      e_sendContinueCommand = (\<lambda>k pane. None),
      e_updateSession = (\<lambda>k sessionId upd. None),
      e_clock = (\<lambda>k. t),
      e_LocalTZA = utcZone,
      e_generateQuotaMessage = (\<lambda>d. [])\<rparr>"

definition noSessionEnv :: env where
  "noSessionEnv = (quietEnv 0)\<lparr>e_getSession := (\<lambda>k sessionId. Inr None)\<rparr>"

definition demoState :: session_state where
  "demoState = initialState 0"

definition demoRun :: "session_state \<Rightarrow> run" where
  "demoRun st =
     \<lparr>mon = (Monitor_new True None)\<lparr>monitoringIntervals := [(js ''s1'', 0)],
                                      sessionStates := [js ''s1'' \<mapsto> st]\<rparr>,
      steps = 1, trace = []\<rparr>"

text \<open>A pane that shows a finished task and an empty prompt, and an approval dialog.\<close>

definition demoPrompt :: jsstring where
  "demoPrompt = js ''Task finished'' @ 10 # js ''> ''"

definition demoDialog :: jsstring where
  "demoDialog = js ''Do you want to proceed?'' @ 10 # selectionMarker # js '' 1. Yes''"

text \<open>
  A pane at the usage limit with an input prompt, and an environment whose pane shows it
  at every capture: the limit is still there after the attempt to continue.
\<close>

definition limitPane :: jsstring where
  "limitPane = js ''limit reached, resets 3pm'' @ 10 # js ''> ''"

definition limitEnv :: "int \<Rightarrow> env" where
  "limitEnv t = (quietEnv t)\<lparr>e_capturePane := (\<lambda>k pane. Inr limitPane)\<rparr>"

text \<open>
  Three captures of a one-line dialog: in bold, dimmed, and without any escape; and a limit
  notice that names a reset time.
\<close>

definition boldDialog :: jsstring where
  "boldDialog = ANSI_ESCAPE @ js ''1mDo you want to proceed?''"

definition dimDialog :: jsstring where
  "dimDialog = ANSI_ESCAPE @ js ''2mDo you want to proceed?'' @ ANSI_ESCAPE @ js ''0m''"

definition plainDialog :: jsstring where
  "plainDialog = js ''Do you want to proceed?''"

text \<open>
  Two more, with escape sequences of two parameters: the dialog in bold red, and in dim
  white with a reset at its end.
\<close>

definition boldRedDialog :: jsstring where
  "boldRedDialog = ANSI_ESCAPE @ js ''1;31mDo you want to proceed?''"

definition dimWhiteDialog :: jsstring where
  "dimWhiteDialog = ANSI_ESCAPE @ js ''2;37mDo you want to proceed?'' @ ANSI_ESCAPE @ js ''0m''"

definition limitNotice :: "string \<Rightarrow> jsstring" where
  "limitNotice t = js ''Limit reached, resets '' @ js t"

section \<open>Notions the claims are stated with\<close>

text \<open>
  The deadline \<open>parseResetTime\<close> computes from a match before it applies its cap: today at
  the hour and minute, or tomorrow when that is not in the future.
\<close>

definition rolledDeadline :: "timezone \<Rightarrow> int \<Rightarrow> jsstring list \<Rightarrow> int" where
  "rolledDeadline tz now timeMatch =
     (let today = setHours tz now
                    (convertPeriod (digitsValue (timeMatch ! 1)) (timeMatch ! 4))
                    (digitsValue (drop 1 (timeMatch ! 2)))
      in if today \<le> now then addOneDay tz today else today)"

text \<open>
  The reset-time strings: one or two digits for the hour, then possibly a colon and two
  digits for the minute, then possibly white space and \<^verbatim>\<open>am\<close> or \<^verbatim>\<open>pm\<close> in any letter case.
  \<open>oneOrTwoDigits H hh\<close> says that the text \<open>hh\<close> is the number \<open>H\<close> in one or two digits,
  \<open>colonMinutes M mm\<close> that \<open>mm\<close> is empty and \<open>M\<close> is 0 or that \<open>mm\<close> is a colon and \<open>M\<close> in
  two digits. \<open>amForms\<close> and \<open>pmForms\<close> are the spellings of the two periods.
\<close>

definition oneOrTwoDigits :: "nat \<Rightarrow> jsstring \<Rightarrow> bool" where
  "oneOrTwoDigits H hh =
     ((H < 10 \<and> hh = [48 + H]) \<or> (H < 100 \<and> hh = [48 + H div 10, 48 + H mod 10]))"

definition colonMinutes :: "nat \<Rightarrow> jsstring \<Rightarrow> bool" where
  "colonMinutes M mm =
     ((M = 0 \<and> mm = []) \<or> (M < 100 \<and> mm = [58, 48 + M div 10, 48 + M mod 10]))"

definition amForms :: "jsstring list" where
  "amForms = [js ''am'', js ''AM'', js ''Am'', js ''aM'']"

definition pmForms :: "jsstring list" where
  "pmForms = [js ''pm'', js ''PM'', js ''Pm'', js ''pM'']"

text \<open>
  A local time exists in a time zone when going to UTC and back gives it again: it is not
  one of the times a clock skips when daylight saving time begins.
\<close>

definition localTimeExists :: "timezone \<Rightarrow> int \<Rightarrow> bool" where
  "localTimeExists tz t = (LocalTime tz (UTC tz t) = t)"

text \<open>
  The codes that the first colour expression of \<open>isInteractiveApprovalDialog\<close> accepts, as digits: one of 0, 1, 3 to 7
  and 9; or two digits, the first 1, 3 or 4 and the second any but 8, or the first 9 and
  the second any but 0 and 8.
\<close>

definition normalCode :: "jsstring \<Rightarrow> bool" where
  "normalCode code =
     (case code of
        [a] \<Rightarrow> a \<in> set (js ''01345679'')
      | [a, b] \<Rightarrow>
          (a \<in> set (js ''134'') \<and> b \<in> set (js ''012345679'')) \<or>
          (a = 57 \<and> b \<in> set (js ''12345679''))
      | _ \<Rightarrow> False)"

text \<open>
  What a run of a method leaves alone. A run from \<open>s\<close> to \<open>s'\<close> is within the frame of a
  session when the effects of \<open>s'\<close> extend those of \<open>s\<close> and the session's state, if it is
  still there afterwards, was there before, with a \<open>retryCount\<close> that is not smaller (the
  same, for the strict frame), and with the same \<open>lastApprovalQuestion\<close> unless an
  \<open>approval_needed\<close> event is among the effects added. A method is framed when every run
  of it is within the frame.
\<close>

fun isApprovalEvent :: "effect \<Rightarrow> bool" where
  "isApprovalEvent (Emit ev) = (ev_type ev = ApprovalNeeded)"
| "isApprovalEvent x = False"

definition frame :: "bool \<Rightarrow> jsstring \<Rightarrow> run \<Rightarrow> run \<Rightarrow> bool" where
  "frame strict sessionId s s' =
     (take (length (trace s)) (trace s') = trace s \<and>
      (case sessionStates (mon s') sessionId of
         None \<Rightarrow> True
       | Some st' \<Rightarrow>
           (case sessionStates (mon s) sessionId of
              None \<Rightarrow> False
            | Some st \<Rightarrow>
                retryCount st \<le> retryCount st' \<and>
                (strict \<longrightarrow> retryCount st' = retryCount st) \<and>
                (lastApprovalQuestion st' = lastApprovalQuestion st \<or>
                 list_ex isApprovalEvent (drop (length (trace s)) (trace s'))))))"

definition framed :: "bool \<Rightarrow> jsstring \<Rightarrow> 'a prog \<Rightarrow> bool" where
  "framed strict sessionId m = (\<forall>e s. frame strict sessionId s (snd (m e s)))"





section \<open>Facts about strings and the matcher\<close>

declare mt.simps [simp del]

declare bitLength.simps [simp del]

text \<open>
  The matcher's equations in the form used to evaluate it on a given string: the
  recursive calls stand outside of any abstraction, so rewriting with them stops.
\<close>

lemma mts_Nil: "mts r [] = []"
  by (simp add: mts_def)

lemma mts_Cons: "mts r ((p, s) # qs) = mt r p s @ mts r qs"
  by (simp add: mts_def)

lemma mt_Seq: "mt (Seq a b) p s = mts b (mt a p s)"
  unfolding mts_def by (rule mt.simps(3))

lemma mt_Star:
  "mt (Star a) p s = mts (Star a) (filter (\<lambda>q. length (snd q) < length s) (mt a p s)) @ [(p, s)]"
  unfolding mts_def by (rule mt.simps(5))

text \<open>What is left after a match is a suffix of the string.\<close>

lemma mt_suffix: "(p', s') \<in> set (mt r p s) \<Longrightarrow> \<exists>pre. s = pre @ s'"
proof (induction r p s arbitrary: p' s' rule: mt.induct)
  case (1 p s)
  then show ?case by (simp add: mt.simps)
next
  case (2 f p s)
  then show ?case by (auto simp: mt.simps split: list.splits if_splits)
next
  case (3 a b p s)
  from "3.prems" obtain p1 s1 where q1: "(p1, s1) \<in> set (mt a p s)" and q: "(p', s') \<in> set (mt b p1 s1)"
    unfolding mt.simps(3)[of a b p s] by auto
  from "3.IH"(1)[OF q1] obtain pre1 where "s = pre1 @ s1" by blast
  moreover from "3.IH"(2)[of "(p1, s1)" p' s'] q1 q obtain pre2 where "s1 = pre2 @ s'" by auto
  ultimately have "s = (pre1 @ pre2) @ s'" by simp
  then show ?case by blast
next
  case (4 a b p s)
  from "4.prems" have "(p', s') \<in> set (mt a p s) \<or> (p', s') \<in> set (mt b p s)"
    by (simp add: mt.simps)
  then show ?case using "4.IH" by blast
next
  case (5 a p s)
  from "5.prems" consider
    (iter) p1 s1 where "(p1, s1) \<in> set (mt a p s)" "length s1 < length s" "(p', s') \<in> set (mt (Star a) p1 s1)"
    | (stop) "(p', s') = (p, s)"
    unfolding mt.simps(5)[of a p s] by auto
  then show ?case
  proof cases
    case iter
    from "5.IH"(1)[OF iter(1)] obtain pre1 where "s = pre1 @ s1" by blast
    moreover from "5.IH"(2)[of "(p1, s1)" p' s'] iter obtain pre2 where "s1 = pre2 @ s'" by auto
    ultimately have "s = (pre1 @ pre2) @ s'" by simp
    then show ?thesis by blast
  next
    case stop
    then show ?thesis by simp
  qed
next
  case (6 m p s)
  then show ?case by (auto simp: mt.simps split: option.splits if_splits)
next
  case (7 m p s)
  then show ?case by (auto simp: mt.simps split: list.splits if_splits)
next
  case (8 p s)
  then show ?case by (auto simp: mt.simps split: if_splits)
next
  case (9 a p s)
  then show ?case by (auto simp: mt.simps split: if_splits)
qed

text \<open>So a repetition makes progress exactly when the rest has changed.\<close>

lemma mt_Star_eval:
  "mt (Star a) p s = mts (Star a) (filter (\<lambda>q. snd q \<noteq> s) (mt a p s)) @ [(p, s)]"
proof -
  have "filter (\<lambda>q. length (snd q) < length s) (mt a p s) = filter (\<lambda>q. snd q \<noteq> s) (mt a p s)"
  proof (rule filter_cong[OF refl])
    fix q assume "q \<in> set (mt a p s)"
    then have "(fst q, snd q) \<in> set (mt a p s)" by simp
    then obtain pre where "s = pre @ snd q" using mt_suffix by blast
    then have "length s = length pre + length (snd q)" by (metis length_append)
    then show "(length (snd q) < length s) = (snd q \<noteq> s)"
      using \<open>s = pre @ snd q\<close> by (cases pre) auto
  qed
  then show ?thesis by (simp only: mt_Star)
qed

lemmas mt_eval = mt.simps(1,2,4,6,7,8,9) mts_Nil mts_Cons mt_Seq mt_Star_eval

lemmas rx_defs = rtest_def rmatch_def chr_def chri_def lit_def liti_def Seqs_def OneOrMore_def
  Opt_def digit_def wspace_def anychar_def canon_def isDigit_def isWhiteSpace_def
  isLineTerminator_def isWordChar_def js_def

lemmas pattern_defs = hasLimitMessage_def activeStatePatterns_def isActiveTerminalState_def
  approvalDialog_question_def approvalDialog_numberedOptions_def selectionMarker_def
  approvalDialog_currentSelection_def detectApprovalDialog_def ANSI_ESCAPE_def
  hasApprovalContentLine_def cls_013_79_def cls_13_def cls_0_79_def cls_1_79_def
  normalCodes_def greyCodes_def hasNormalColors_def isGreyOrDim_def
  isInteractiveApprovalDialog_def resetTimeGroup_def
  extractResetTime_def waitingForInput_def processingMarkers_def notProcessing_def trim_def
  toLowerCase_def boxChars_def parseOption_def classify_def extractApprovalInfo_def parseInt_def
  digitsValue_def roundToDouble_def

lemmas prog_defs = ret_def throw_def bnd_def andThen_def try_catch_def tick_def effect_def
  getSession_def sessionExists_def capturePane_def capturePaneWithColors_def sendRawKeys_def
  sendContinueCommand_def updateSession_def newDate_def sleep_def emit_def
  safeNotifyDiscord_def getState_def modState_def setInterval_def getOptions_def
  generateQuotaMessage_def localTZA_def

lemmas demo_defs = demoSession_def quietEnv_def noSessionEnv_def demoState_def demoRun_def
  initialState_def Monitor_new_def map_delete_def nameOr_def limitEnv_def

lemmas time_defs = msPerDay_def msPerHour_def msPerMinute_def Day_def TimeWithinDay_def
  LocalTime_def UTC_def MakeTime_def MakeDate_def setHours_def addOneDay_def getHours_def
  getMinutes_def dayOf_def timeRegex_def convertPeriod_def parseResetTime_def
  parseTimeToNextOccurrence_def utcZone_def

lemma starts_with_iff: "starts_with s sub \<longleftrightarrow> (\<exists>ss. s = sub @ ss)"
  by (induction s sub rule: starts_with.induct) auto

lemma str_includes_iff: "str_includes s sub \<longleftrightarrow> (\<exists>ps ss. s = ps @ sub @ ss)"
proof (induction s)
  case Nil
  then show ?case by auto
next
  case (Cons c cs)
  show ?case
  proof
    assume "str_includes (c # cs) sub"
    then consider "starts_with (c # cs) sub" | "str_includes cs sub" by auto
    then show "\<exists>ps ss. c # cs = ps @ sub @ ss"
    proof cases
      case 1
      then obtain ss where "c # cs = sub @ ss" by (auto simp: starts_with_iff)
      then have "c # cs = [] @ sub @ ss" by simp
      then show ?thesis by blast
    next
      case 2
      then obtain ps ss where "cs = ps @ sub @ ss" using Cons.IH by blast
      then have "c # cs = (c # ps) @ sub @ ss" by simp
      then show ?thesis by blast
    qed
  next
    assume "\<exists>ps ss. c # cs = ps @ sub @ ss"
    then obtain ps ss where eq: "c # cs = ps @ sub @ ss" by blast
    show "str_includes (c # cs) sub"
    proof (cases ps)
      case Nil
      with eq have "starts_with (c # cs) sub" by (auto simp: starts_with_iff)
      then show ?thesis by simp
    next
      case (Cons a ps')
      with eq have "cs = ps' @ sub @ ss" by simp
      then have "str_includes cs sub" using Cons.IH by blast
      then show ?thesis by simp
    qed
  qed
qed


text \<open>What \<open>getNewOutput\<close> returns, case by case.\<close>

lemma getNewOutput_cases:
  "(lastOut = [] \<longrightarrow> getNewOutput lastOut curOut = curOut) \<and>
   (lastOut \<noteq> [] \<and> (\<exists>ps ss. curOut = ps @ lastOut @ ss) \<longrightarrow>
      getNewOutput lastOut curOut = drop (length lastOut) curOut) \<and>
   getNewOutput lastOut (lastOut @ rest) = rest \<and>
   (\<not> (\<exists>ps ss. curOut = ps @ lastOut @ ss) \<longrightarrow>
      getNewOutput lastOut curOut = curOut)"
proof -
  have incl: "str_includes (lastOut @ rest) lastOut"
    unfolding str_includes_iff by (rule exI[of _ "[]"]) simp
  have "getNewOutput lastOut (lastOut @ rest) = rest"
    using incl by (simp add: getNewOutput_def)
  then show ?thesis
    by (simp add: getNewOutput_def str_includes_iff)
qed

section \<open>Facts about numbers and the time expression\<close>

text \<open>\<^verbatim>\<open>Number.parseInt\<close> on digits that denote a number below \<open>2 ^ 53\<close>.\<close>

lemma parseInt_digits:
  assumes "ds \<noteq> []" and "\<forall>c\<in>set ds. isDigit c" and "digitsValue ds < 2 ^ 53"
  shows "parseInt ds = Finite (digitsValue ds)"
proof -
  from assms obtain c cs where ds: "ds = c # cs" by (cases ds) auto
  with assms have c: "isDigit c" by simp
  then have nw: "\<not> isWhiteSpace c" and ns: "c \<noteq> 45" "c \<noteq> 43"
    by (auto simp: isDigit_def isWhiteSpace_def)
  have tw: "takeWhile isDigit ds = ds" using assms(2) by (simp add: takeWhile_eq_all_conv)
  show ?thesis
    using nw ns assms(1,3) tw by (simp add: parseInt_def ds roundToDouble_def Let_def)
qed

lemma digitsValue_one: "digitsValue [a] = int a - 48"
  by (simp add: digitsValue_def)

lemma digitsValue_two: "digitsValue [a, b] = 10 * (int a - 48) + (int b - 48)"
  by (simp add: digitsValue_def)

lemma oneOrTwoDigits_value:
  assumes "oneOrTwoDigits H hh"
  shows "hh \<noteq> []" and "\<forall>c\<in>set hh. isDigit c" and "digitsValue hh = int H"
    and "parseInt hh = Finite (int H)" and "length hh \<le> 2"
proof -
  from assms consider (one) "H < 10" "hh = [48 + H]"
    | (two) "H < 100" "hh = [48 + H div 10, 48 + H mod 10]"
    by (auto simp: oneOrTwoDigits_def)
  then have all: "hh \<noteq> [] \<and> (\<forall>c\<in>set hh. isDigit c) \<and> digitsValue hh = int H \<and> length hh \<le> 2"
  proof cases
    case one
    then show ?thesis by (simp add: isDigit_def digitsValue_one)
  next
    case two
    then have "H div 10 \<le> 9" by simp
    moreover have "H mod 10 \<le> 9" by simp
    moreover have "10 * int (H div 10) + int (H mod 10) = int H" by presburger
    ultimately show ?thesis using two by (simp add: isDigit_def digitsValue_two)
  qed
  then show "hh \<noteq> []" "\<forall>c\<in>set hh. isDigit c" "digitsValue hh = int H" "length hh \<le> 2"
    by simp_all
  from assms have "H < 100" by (auto simp: oneOrTwoDigits_def)
  then have "digitsValue hh < 2 ^ 53" using all by simp
  with all show "parseInt hh = Finite (int H)" by (simp add: parseInt_digits)
qed

text \<open>
  The time expression on a reset-time string: each piece matches what the string is made
  of, on the first way through.
\<close>

lemma mt_hours_one:
  "isDigit a \<Longrightarrow> (rest = [] \<or> \<not> isDigit (hd rest)) \<Longrightarrow>
   mt (Seq digit (Opt digit)) p (a # rest) = [(Some a, rest)]"
  by (auto simp: digit_def Opt_def mt_eval split: list.splits)

lemma mt_hours_two:
  "isDigit a \<Longrightarrow> isDigit b \<Longrightarrow>
   mt (Seq digit (Opt digit)) p (a # b # rest) = [(Some b, rest), (Some a, b # rest)]"
  by (simp add: digit_def Opt_def mt_eval)

lemma mt_minutes_some:
  "isDigit c \<Longrightarrow> isDigit d \<Longrightarrow>
   mt (Opt (Seqs [chr CHR '':'', digit, digit])) p (58 # c # d # rest)
     = [(Some d, rest), (p, 58 # c # d # rest)]"
  by (simp add: digit_def Opt_def Seqs_def chr_def mt_eval)

lemma mt_minutes_none:
  "(rest = [] \<or> hd rest \<noteq> 58) \<Longrightarrow>
   mt (Opt (Seqs [chr CHR '':'', digit, digit])) p rest = [(p, rest)]"
  by (cases rest) (auto simp: digit_def Opt_def Seqs_def chr_def mt_eval split: list.splits)

lemma mt_spaces:
  assumes "\<forall>c\<in>set gap. isWhiteSpace c" and "(rest = [] \<or> \<not> isWhiteSpace (hd rest))"
  shows "\<exists>p' qs. mt (Star wspace) p (gap @ rest) = (p', rest) # qs"
  using assms(1)
proof (induction gap arbitrary: p)
  case Nil
  from assms(2) have "mt wspace p rest = []"
    by (auto simp: wspace_def mt_eval split: list.splits)
  then show ?case by (simp add: mt_eval)
next
  case (Cons g gap)
  then have g: "isWhiteSpace g" and rest: "\<forall>c\<in>set gap. isWhiteSpace c" by simp_all
  from Cons.IH[OF rest] obtain p' qs where
    ih: "mt (Star wspace) (Some g) (gap @ rest) = (p', rest) # qs" by blast
  have "mt wspace p ((g # gap) @ rest) = [(Some g, gap @ rest)]"
    using g by (simp add: wspace_def mt_eval)
  then have "mt (Star wspace) p ((g # gap) @ rest)
       = mt (Star wspace) (Some g) (gap @ rest) @ [(p, (g # gap) @ rest)]"
    by (simp add: mt_eval)
  with ih show ?case by simp
qed

lemma mt_period:
  "mt (Opt (Alt (lit ''am'') (lit ''pm''))) p [] = [(p, [])]"
  "mt (Opt (Alt (lit ''am'') (lit ''pm''))) p (js ''am'') = [(Some 109, []), (p, js ''am'')]"
  "mt (Opt (Alt (lit ''am'') (lit ''pm''))) p (js ''pm'') = [(Some 109, []), (p, js ''pm'')]"
  by (simp_all add: rx_defs mt_eval)

lemma mseq_head:
  "mt r p s = (p', s') # qs \<Longrightarrow> mseq rs p' s' = Some gs \<Longrightarrow>
   mseq (r # rs) p s = Some (take (length s - length s') s # gs)"
  by simp

lemma mseq_end: "mseq [Eol False] p [] = Some [[]]"
  by (simp add: mt_eval)

lemma mseq_period:
  assumes "pd = [] \<or> pd = js ''am'' \<or> pd = js ''pm''"
  shows "mseq [Opt (Alt (lit ''am'') (lit ''pm'')), Eol False] p pd = Some [pd, []]"
  using assms by (auto simp: mt_period mt_eval)

lemma mseq_spaces:
  assumes "\<forall>c\<in>set gap. isWhiteSpace c" and "pd = [] \<or> pd = js ''am'' \<or> pd = js ''pm''"
  shows "mseq [Star wspace, Opt (Alt (lit ''am'') (lit ''pm'')), Eol False] p (gap @ pd)
         = Some [gap, pd, []]"
proof -
  from assms(2) have "pd = [] \<or> \<not> isWhiteSpace (hd pd)"
    by (auto simp: js_def isWhiteSpace_def)
  from mt_spaces[OF assms(1) this] obtain p' qs where
    "mt (Star wspace) p (gap @ pd) = (p', pd) # qs" by blast
  from mseq_head[OF this mseq_period[OF assms(2)]] show ?thesis by simp
qed

lemma mseq_minutes:
  assumes "mm = [] \<or> (\<exists>c d. isDigit c \<and> isDigit d \<and> mm = [58, c, d])"
    and "\<forall>c\<in>set gap. isWhiteSpace c" and "pd = [] \<or> pd = js ''am'' \<or> pd = js ''pm''"
  shows "mseq [Opt (Seqs [chr CHR '':'', digit, digit]), Star wspace,
               Opt (Alt (lit ''am'') (lit ''pm'')), Eol False] p (mm @ gap @ pd)
         = Some [mm, gap, pd, []]"
proof -
  note sp = mseq_spaces[OF assms(2,3)]
  from assms(1) show ?thesis
  proof
    assume mm: "mm = []"
    have "gap @ pd = [] \<or> hd (gap @ pd) \<noteq> 58"
      using assms(2,3) by (cases gap) (auto simp: js_def isWhiteSpace_def)
    from mseq_head[OF mt_minutes_none[OF this] sp] mm show ?thesis by simp
  next
    assume "\<exists>c d. isDigit c \<and> isDigit d \<and> mm = [58, c, d]"
    then obtain c d where cd: "isDigit c" "isDigit d" and mm: "mm = [58, c, d]" by blast
    from mseq_head[OF mt_minutes_some[OF cd] sp, of p] mm show ?thesis by simp
  qed
qed

lemma mseq_hours:
  assumes "(\<exists>a. isDigit a \<and> hh = [a]) \<or> (\<exists>a b. isDigit a \<and> isDigit b \<and> hh = [a, b])"
    and "mm = [] \<or> (\<exists>c d. isDigit c \<and> isDigit d \<and> mm = [58, c, d])"
    and "\<forall>c\<in>set gap. isWhiteSpace c" and "pd = [] \<or> pd = js ''am'' \<or> pd = js ''pm''"
  shows "mseq [Seq digit (Opt digit), Opt (Seqs [chr CHR '':'', digit, digit]), Star wspace,
               Opt (Alt (lit ''am'') (lit ''pm'')), Eol False] p (hh @ mm @ gap @ pd)
         = Some [hh, mm, gap, pd, []]"
proof -
  note mi = mseq_minutes[OF assms(2,3,4)]
  from assms(1) show ?thesis
  proof
    assume "\<exists>a. isDigit a \<and> hh = [a]"
    then obtain a where a: "isDigit a" and hh: "hh = [a]" by blast
    have "mm @ gap @ pd = [] \<or> \<not> isDigit (hd (mm @ gap @ pd))"
      using assms(2,3,4)
      by (cases gap) (auto simp: js_def isWhiteSpace_def isDigit_def)
    from mseq_head[OF mt_hours_one[OF a this] mi, of p] hh show ?thesis by simp
  next
    assume "\<exists>a b. isDigit a \<and> isDigit b \<and> hh = [a, b]"
    then obtain a b where ab: "isDigit a" "isDigit b" and hh: "hh = [a, b]" by blast
    from mseq_head[OF mt_hours_two[OF ab] mi, of p] hh show ?thesis by simp
  qed
qed

lemma rmatch_timeRegex:
  assumes "(\<exists>a. isDigit a \<and> hh = [a]) \<or> (\<exists>a b. isDigit a \<and> isDigit b \<and> hh = [a, b])"
    and "mm = [] \<or> (\<exists>c d. isDigit c \<and> isDigit d \<and> mm = [58, c, d])"
    and "\<forall>c\<in>set gap. isWhiteSpace c" and "pd = [] \<or> pd = js ''am'' \<or> pd = js ''pm''"
  shows "rmatch timeRegex (hh @ mm @ gap @ pd) = Some [[], hh, mm, gap, pd, []]"
proof -
  let ?s = "hh @ mm @ gap @ pd"
  from assms(1) obtain c t where s: "?s = c # t" by (cases hh) auto
  have b: "mt (Bol False) None ?s = (None, ?s) # []" by (simp add: mt_eval)
  from mseq_head[OF b mseq_hours[OF assms]]
  have "mseq timeRegex None ?s = Some [[], hh, mm, gap, pd, []]"
    by (simp add: timeRegex_def)
  then show ?thesis
    unfolding rmatch_def s[symmetric] using s by (cases ?s) simp_all
qed

text \<open>What a successful match says about its pieces.\<close>

lemma mseqs_Some:
  "mseqs rs s qs = Some gs \<Longrightarrow>
   \<exists>q\<in>set qs. \<exists>gs'. mseq rs (fst q) (snd q) = Some gs' \<and> gs = take (length s - length (snd q)) s # gs'"
  by (induction qs) (auto split: option.splits)

lemma mfirst_Some: "mfirst rs qs = Some gs \<Longrightarrow> \<exists>q\<in>set qs. mseq rs (fst q) (snd q) = Some gs"
  by (induction qs) (auto split: option.splits)

lemma mseq_Cons_Some:
  assumes "mseq (r # rs) p s = Some gs"
  shows "\<exists>p' s' gs'. (p', s') \<in> set (mt r p s) \<and> mseq rs p' s' = Some gs' \<and>
           gs = take (length s - length s') s # gs'"
proof -
  from assms have "mseqs rs s (mt r p s) = Some gs" by simp
  from mseqs_Some[OF this] obtain q gs' where "q \<in> set (mt r p s)"
    "mseq rs (fst q) (snd q) = Some gs'" "gs = take (length s - length (snd q)) s # gs'" by blast
  then have "(fst q, snd q) \<in> set (mt r p s) \<and> mseq rs (fst q) (snd q) = Some gs' \<and>
           gs = take (length s - length (snd q)) s # gs'" by simp
  then show ?thesis by blast
qed

lemma taken_prefix: "s = g @ s' \<Longrightarrow> take (length s - length s') s = g"
  by simp

lemma hours_piece:
  assumes "(p', s') \<in> set (mt (Seq digit (Opt digit)) p s)"
  shows "\<exists>g. s = g @ s' \<and> g \<noteq> [] \<and> length g \<le> 2 \<and> (\<forall>c\<in>set g. isDigit c)"
proof (cases s)
  case Nil
  with assms show ?thesis by (simp add: digit_def Opt_def mt_eval)
next
  case (Cons a t)
  show ?thesis
  proof (cases "isDigit a")
    case False
    with assms Cons show ?thesis by (simp add: digit_def Opt_def mt_eval)
  next
    case True
    with assms Cons have "(p', s') \<in> set (mt digit (Some a) t) \<or> (p', s') = (Some a, t)"
      by (auto simp: digit_def Opt_def mt_eval)
    then show ?thesis
    proof
      assume "(p', s') = (Some a, t)"
      with Cons True have "s = [a] @ s' \<and> [a] \<noteq> [] \<and> length [a] \<le> 2 \<and> (\<forall>c\<in>set [a]. isDigit c)"
        by simp
      then show ?thesis by blast
    next
      assume "(p', s') \<in> set (mt digit (Some a) t)"
      then obtain b where "t = b # s'" "isDigit b"
        by (cases t) (auto simp: digit_def mt_eval split: if_splits)
      with Cons True have "s = [a, b] @ s' \<and> [a, b] \<noteq> [] \<and> length [a, b] \<le> 2 \<and> (\<forall>c\<in>set [a, b]. isDigit c)"
        by simp
      then show ?thesis by blast
    qed
  qed
qed

lemma minutes_piece:
  assumes "(p', s') \<in> set (mt (Opt (Seqs [chr CHR '':'', digit, digit])) p s)"
  shows "\<exists>g. s = g @ s' \<and> (g = [] \<or> (\<exists>c d. g = [58, c, d] \<and> isDigit c \<and> isDigit d))"
proof -
  from assms have "(p', s') \<in> set (mt (Seqs [chr CHR '':'', digit, digit]) p s) \<or> (p', s') = (p, s)"
    by (auto simp: Opt_def mt_eval)
  then show ?thesis
  proof
    assume "(p', s') = (p, s)"
    then have "s = [] @ s'" by simp
    then show ?thesis by blast
  next
    assume m: "(p', s') \<in> set (mt (Seqs [chr CHR '':'', digit, digit]) p s)"
    then obtain c d where "s = [58, c, d] @ s'" "isDigit c" "isDigit d"
      by (auto simp: Seqs_def chr_def digit_def mt_eval split: list.splits if_splits)
    then show ?thesis by blast
  qed
qed

lemma digits_small:
  assumes "length g \<le> 2" and "\<forall>c\<in>set g. isDigit c"
  shows "0 \<le> digitsValue g" and "digitsValue g < 100"
proof -
  have "g = [] \<or> (\<exists>a. g = [a]) \<or> (\<exists>a b. g = [a, b])"
  proof (cases g)
    case Nil
    then show ?thesis by simp
  next
    case (Cons a t)
    with assms(1) show ?thesis by (cases t) auto
  qed
  then have "0 \<le> digitsValue g \<and> digitsValue g < 100"
    using assms(2) by (auto simp: digitsValue_def isDigit_def)
  then show "0 \<le> digitsValue g" and "digitsValue g < 100" by simp_all
qed

text \<open>The hours and the minutes of a match are numbers below 100.\<close>

lemma timeRegex_numbers:
  assumes "rmatch timeRegex s = Some timeMatch"
  shows "parseInt (timeMatch ! 1) = Finite (digitsValue (timeMatch ! 1))"
    and "drop 1 (timeMatch ! 2) \<noteq> [] \<Longrightarrow>
         parseInt (drop 1 (timeMatch ! 2)) = Finite (digitsValue (drop 1 (timeMatch ! 2)))"
    and "drop 1 (timeMatch ! 2) = [] \<Longrightarrow> digitsValue (drop 1 (timeMatch ! 2)) = 0"
    and "0 \<le> digitsValue (timeMatch ! 1)" and "digitsValue (timeMatch ! 1) < 100"
    and "0 \<le> digitsValue (drop 1 (timeMatch ! 2))" and "digitsValue (drop 1 (timeMatch ! 2)) < 100"
proof -
  from assms obtain q where "mseq timeRegex (fst q) (snd q) = Some timeMatch"
    unfolding rmatch_def using mfirst_Some by blast
  then have "mseq (Bol False # Seq digit (Opt digit) # Opt (Seqs [chr CHR '':'', digit, digit]) #
      [Star wspace, Opt (Alt (lit ''am'') (lit ''pm'')), Eol False]) (fst q) (snd q) = Some timeMatch"
    by (simp add: timeRegex_def)
  from mseq_Cons_Some[OF this] obtain p1 s1 gs1 where
    m1: "mseq (Seq digit (Opt digit) # Opt (Seqs [chr CHR '':'', digit, digit]) #
      [Star wspace, Opt (Alt (lit ''am'') (lit ''pm'')), Eol False]) p1 s1 = Some gs1"
    and t0: "timeMatch = take (length (snd q) - length s1) (snd q) # gs1" by blast
  from mseq_Cons_Some[OF m1] obtain p2 s2 gs2 where
    q2: "(p2, s2) \<in> set (mt (Seq digit (Opt digit)) p1 s1)"
    and m2: "mseq (Opt (Seqs [chr CHR '':'', digit, digit]) #
      [Star wspace, Opt (Alt (lit ''am'') (lit ''pm'')), Eol False]) p2 s2 = Some gs2"
    and t1: "gs1 = take (length s1 - length s2) s1 # gs2" by blast
  from mseq_Cons_Some[OF m2] obtain p3 s3 gs3 where
    q3: "(p3, s3) \<in> set (mt (Opt (Seqs [chr CHR '':'', digit, digit])) p2 s2)"
    and t2: "gs2 = take (length s2 - length s3) s2 # gs3" by blast
  from hours_piece[OF q2] obtain g1 where g1: "s1 = g1 @ s2" "g1 \<noteq> []" "length g1 \<le> 2"
    "\<forall>c\<in>set g1. isDigit c" by blast
  from minutes_piece[OF q3] obtain g2 where g2: "s2 = g2 @ s3"
    "g2 = [] \<or> (\<exists>c d. g2 = [58, c, d] \<and> isDigit c \<and> isDigit d)" by blast
  have h: "timeMatch ! 1 = g1" using t0 t1 g1(1) by simp
  have m: "timeMatch ! 2 = g2" using t0 t1 t2 g2(1) by simp
  note hs = digits_small[OF g1(3,4)]
  from g2(2) have ml: "length (drop 1 g2) \<le> 2" and md: "\<forall>c\<in>set (drop 1 g2). isDigit c"
    by auto
  note ms = digits_small[OF ml md]
  show "parseInt (timeMatch ! 1) = Finite (digitsValue (timeMatch ! 1))"
    unfolding h using g1 hs by (intro parseInt_digits) simp_all
  show "parseInt (drop 1 (timeMatch ! 2)) = Finite (digitsValue (drop 1 (timeMatch ! 2)))"
    if "drop 1 (timeMatch ! 2) \<noteq> []"
    using that md ms unfolding m by (intro parseInt_digits) simp_all
  show "digitsValue (drop 1 (timeMatch ! 2)) = 0" if "drop 1 (timeMatch ! 2) = []"
    using that by (simp add: digitsValue_def)
  show "0 \<le> digitsValue (timeMatch ! 1)" "digitsValue (timeMatch ! 1) < 100"
    unfolding h using hs by simp_all
  show "0 \<le> digitsValue (drop 1 (timeMatch ! 2))" "digitsValue (drop 1 (timeMatch ! 2)) < 100"
    unfolding m using ms by simp_all
qed


text \<open>Lower-casing and trimming a reset-time string.\<close>

lemma toLowerCase_append: "toLowerCase (a @ b) = toLowerCase a @ toLowerCase b"
  by (simp add: toLowerCase_def)

lemma toLowerCase_same: "\<forall>c\<in>set s. \<not> (65 \<le> c \<and> c \<le> 90) \<Longrightarrow> toLowerCase s = s"
  by (induction s) (auto simp: toLowerCase_def)

lemma whitespace_no_capital: "isWhiteSpace c \<Longrightarrow> \<not> (65 \<le> c \<and> c \<le> 90)"
  by (auto simp: isWhiteSpace_def)

lemma digit_no_capital: "isDigit c \<Longrightarrow> \<not> (65 \<le> c \<and> c \<le> 90)"
  by (auto simp: isDigit_def)

lemma toLowerCase_period:
  "period \<in> set amForms \<Longrightarrow> toLowerCase period = js ''am''"
  "period \<in> set pmForms \<Longrightarrow> toLowerCase period = js ''pm''"
  by (auto simp: amForms_def pmForms_def toLowerCase_def js_def)

lemma trim_padded:
  assumes "\<forall>c\<in>set lead. isWhiteSpace c" and "\<forall>c\<in>set trail. isWhiteSpace c"
    and "core \<noteq> []" and "\<not> isWhiteSpace (hd core)" and "\<not> isWhiteSpace (last core)"
  shows "trim (lead @ core @ trail) = core"
proof -
  have a: "dropWhile isWhiteSpace (lead @ core @ trail) = core @ trail"
    using assms(1,3,4) by (cases core) (simp_all add: dropWhile_append2)
  have "dropWhile isWhiteSpace (rev trail @ rev core) = dropWhile isWhiteSpace (rev core)"
    by (rule dropWhile_append2) (use assms(2) in auto)
  moreover have "dropWhile isWhiteSpace (rev core) = rev core"
    using assms(3,5) by (cases core rule: rev_cases) simp_all
  ultimately show ?thesis by (simp add: trim_def a)
qed

section \<open>Facts about dates\<close>

text \<open>Reading a local time that is made of a day, an hour and a minute.\<close>

lemma local_fields:
  assumes "0 \<le> h" "h < 24" "0 \<le> m" "m < 60"
  shows "(MakeDate day (MakeTime h m) div msPerHour) mod 24 = h"
    and "(MakeDate day (MakeTime h m) div msPerMinute) mod 60 = m"
    and "MakeDate day (MakeTime h m) mod msPerMinute = 0"
    and "Day (MakeDate day (MakeTime h m)) = day"
    and "TimeWithinDay (MakeDate day (MakeTime h m)) = MakeTime h m"
proof -
  let ?L = "MakeDate day (MakeTime h m)"
  have a: "?L = msPerHour * (24 * day + h) + m * msPerMinute"
    by (simp add: MakeDate_def MakeTime_def msPerDay_def msPerHour_def msPerMinute_def algebra_simps)
  have small: "0 \<le> m * msPerMinute" "m * msPerMinute < msPerHour"
    using assms by (simp_all add: msPerMinute_def msPerHour_def)
  have "?L div msPerHour = 24 * day + h"
    unfolding a using small by (simp add: msPerHour_def)
  moreover have "(24 * day + h) mod 24 = h" using assms by simp
  ultimately show "(?L div msPerHour) mod 24 = h" by simp
  have b: "?L = msPerMinute * (60 * (24 * day + h) + m)"
    by (simp add: MakeDate_def MakeTime_def msPerDay_def msPerHour_def msPerMinute_def algebra_simps)
  then have "?L div msPerMinute = 60 * (24 * day + h) + m"
    by (simp add: msPerMinute_def)
  moreover have "(60 * k + m) mod 60 = m" for k :: int using assms by simp
  ultimately show "(?L div msPerMinute) mod 60 = m" by (simp only:)
  show "?L mod msPerMinute = 0" unfolding b by simp
  have t: "0 \<le> MakeTime h m" "MakeTime h m < msPerDay"
    using assms by (simp_all add: MakeTime_def msPerDay_def msPerHour_def msPerMinute_def)
  have c: "?L = msPerDay * day + MakeTime h m" by (simp add: MakeDate_def)
  show "Day ?L = day" unfolding Day_def c using t by (simp add: msPerDay_def)
  show "TimeWithinDay ?L = MakeTime h m" unfolding TimeWithinDay_def c using t
    by (simp add: msPerDay_def)
qed

lemma next_day: "MakeDate day time + msPerDay = MakeDate (day + 1) time"
  by (simp add: MakeDate_def algebra_simps)

lemma addOneDay_existing:
  assumes "localTimeExists tz L"
  shows "addOneDay tz (UTC tz L) = UTC tz (L + msPerDay)"
proof -
  from assms have l: "LocalTime tz (UTC tz L) = L" by (simp add: localTimeExists_def)
  have "MakeDate (Day L + 1) (TimeWithinDay L) = L + msPerDay"
    by (simp add: MakeDate_def Day_def TimeWithinDay_def algebra_simps)
  then show ?thesis by (simp add: addOneDay_def l)
qed

lemma utcZone_exists: "localTimeExists utcZone t"
  by (simp add: localTimeExists_def LocalTime_def UTC_def utcZone_def)


text \<open>\<open>parseResetTime\<close> in terms of the deadline before the cap.\<close>

lemma parseResetTime_matched:
  assumes "rmatch timeRegex (trim (toLowerCase timeStr)) = Some timeMatch"
  shows "parseResetTime tz now timeStr =
     (if rolledDeadline tz now timeMatch - now > 5 * msPerHour then None
      else Some (rolledDeadline tz now timeMatch))"
proof (cases "drop 1 (timeMatch ! 2) = []")
  case True
  with timeRegex_numbers(1,3)[OF assms] assms show ?thesis
    by (simp add: parseResetTime_def rolledDeadline_def Let_def)
next
  case False
  with timeRegex_numbers(1,2)[OF assms] assms show ?thesis
    by (simp add: parseResetTime_def rolledDeadline_def Let_def)
qed

lemma parseResetTime_unmatched:
  "rmatch timeRegex (trim (toLowerCase timeStr)) = None \<Longrightarrow> parseResetTime tz now timeStr = None"
  by (simp add: parseResetTime_def)

lemma parseResetTime_within_cap:
  "parseResetTime tz now timeStr = Some d \<Longrightarrow> d - now \<le> 5 * msPerHour"
  by (cases "rmatch timeRegex (trim (toLowerCase timeStr))")
     (auto simp: parseResetTime_matched parseResetTime_unmatched split: if_splits)

lemma colonMinutes_value:
  assumes "colonMinutes M mm"
  shows "mm = [] \<or> (\<exists>c d. isDigit c \<and> isDigit d \<and> mm = [58, c, d])"
    and "digitsValue (drop 1 mm) = int M"
    and "mm \<noteq> [] \<Longrightarrow> hd mm = 58"
proof -
  from assms consider (none) "M = 0" "mm = []"
    | (some) "M < 100" "mm = [58, 48 + M div 10, 48 + M mod 10]"
    by (auto simp: colonMinutes_def)
  then have "(mm = [] \<or> (\<exists>c d. isDigit c \<and> isDigit d \<and> mm = [58, c, d])) \<and>
      digitsValue (drop 1 mm) = int M \<and> (mm \<noteq> [] \<longrightarrow> hd mm = 58)"
  proof cases
    case none
    then show ?thesis by (simp add: digitsValue_def)
  next
    case some
    then have "H div 10 \<le> 9" if "H = M" for H using that by simp
    have d: "isDigit (48 + M div 10)" "isDigit (48 + M mod 10)"
      using some(1) by (simp_all add: isDigit_def)
    have "10 * int (M div 10) + int (M mod 10) = int M" by presburger
    with some d show ?thesis by (simp add: digitsValue_two)
  qed
  then show "mm = [] \<or> (\<exists>c d. isDigit c \<and> isDigit d \<and> mm = [58, c, d])"
    and "digitsValue (drop 1 mm) = int M" and "mm \<noteq> [] \<Longrightarrow> hd mm = 58" by simp_all
qed

text \<open>\<open>parseResetTime\<close> on a reset-time string.\<close>

lemma parseResetTime_text:
  assumes hours: "oneOrTwoDigits H hh" and minutes: "colonMinutes M mm"
    and per: "(period = [] \<and> gap = []) \<or> period \<in> set amForms \<or> period \<in> set pmForms"
    and ws: "\<forall>c\<in>set gap. isWhiteSpace c" "\<forall>c\<in>set lead. isWhiteSpace c"
      "\<forall>c\<in>set trail. isWhiteSpace c"
    and h: "h = (if period \<in> set pmForms \<and> H \<noteq> 12 then int H + 12
                 else if period \<in> set amForms \<and> H = 12 then 0 else int H)"
  shows "parseResetTime tz now (lead @ hh @ mm @ gap @ period @ trail) =
     (if (if setHours tz now h (int M) \<le> now then addOneDay tz (setHours tz now h (int M))
          else setHours tz now h (int M)) - now > 5 * msPerHour then None
      else Some (if setHours tz now h (int M) \<le> now then addOneDay tz (setHours tz now h (int M))
                 else setHours tz now h (int M)))"
proof -
  let ?pd = "toLowerCase period"
  let ?core = "hh @ mm @ gap @ ?pd"
  note hv = oneOrTwoDigits_value[OF hours]
  note mv = colonMinutes_value[OF minutes]
  have pd: "?pd = [] \<or> ?pd = js ''am'' \<or> ?pd = js ''pm''"
    using per by (auto simp: toLowerCase_period) (simp add: toLowerCase_def)
  have mmd: "\<forall>c\<in>set mm. \<not> (65 \<le> c \<and> c \<le> 90)"
    using mv(1) by (auto dest: digit_no_capital)
  have low: "toLowerCase (lead @ hh @ mm @ gap @ period @ trail) = lead @ ?core @ trail"
    using ws hv(2) mmd
    by (simp add: toLowerCase_append toLowerCase_same whitespace_no_capital digit_no_capital)
  have ne: "?core \<noteq> []" using hv(1) by simp
  have hd: "\<not> isWhiteSpace (hd ?core)"
    using hv(1,2) by (cases hh) (auto simp: isDigit_def isWhiteSpace_def)
  have last: "\<not> isWhiteSpace (last ?core)"
  proof (cases "?pd = []")
    case False
    with pd have "last ?core = 109" by (auto simp: js_def)
    then show ?thesis by (simp add: isWhiteSpace_def)
  next
    case True
    then have "period = []" by (simp add: toLowerCase_def)
    with per have g: "gap = []" by (auto simp: amForms_def pmForms_def js_def)
    have "isDigit (last (hh @ mm))"
      using hv(1,2) mv(1) by (cases "mm = []") auto
    with True g show ?thesis by (auto simp: isDigit_def isWhiteSpace_def)
  qed
  have tr: "trim (toLowerCase (lead @ hh @ mm @ gap @ period @ trail)) = ?core"
    unfolding low using ws(2,3) ne hd last by (rule trim_padded)
  have hform: "(\<exists>a. isDigit a \<and> hh = [a]) \<or> (\<exists>a b. isDigit a \<and> isDigit b \<and> hh = [a, b])"
    using hours by (auto simp: oneOrTwoDigits_def isDigit_def)
  have rm: "rmatch timeRegex ?core = Some [[], hh, mm, gap, ?pd, []]"
    using hform mv(1) ws(1) pd by (rule rmatch_timeRegex)
  have cp: "convertPeriod (int H) ?pd = h"
  proof -
    have "period \<in> set pmForms \<longleftrightarrow> ?pd = js ''pm''"
      using per by (auto simp: toLowerCase_def js_def amForms_def pmForms_def)
    moreover have "period \<in> set amForms \<longleftrightarrow> ?pd = js ''am''"
      using per by (auto simp: toLowerCase_def js_def amForms_def pmForms_def)
    moreover have "?pd = [] \<Longrightarrow> period \<notin> set pmForms \<and> period \<notin> set amForms"
      by (auto simp: toLowerCase_def amForms_def pmForms_def js_def)
    ultimately show ?thesis
      using pd by (auto simp: convertPeriod_def h js_def)
  qed
  have rd: "rolledDeadline tz now [[], hh, mm, gap, ?pd, []] =
      (if setHours tz now h (int M) \<le> now then addOneDay tz (setHours tz now h (int M))
       else setHours tz now h (int M))"
  proof -
    have "digitsValue (drop (Suc 0) mm) = int M" using mv(2) by simp
    then show ?thesis by (simp add: rolledDeadline_def Let_def hv(3) cp)
  qed
  from rm tr have "rmatch timeRegex (trim (toLowerCase (lead @ hh @ mm @ gap @ period @ trail)))
      = Some [[], hh, mm, gap, ?pd, []]" by simp
  from parseResetTime_matched[OF this, of tz now] show ?thesis by (simp only: rd)
qed


section \<open>Facts about the methods\<close>

lemma map_of_map_delete: "map_of (map_delete kvs k) k = None"
  by (induction kvs) (auto simp: map_delete_def)

lemma stopMonitoring_returns: "fst (stopMonitoring sessionId e s) = Inr ()"
  by (simp add: stopMonitoring_def Let_def)

lemma stopAll_loop_returns: "fst (stopAll_loop ids e s) = Inr ()"
proof (induction ids arbitrary: s)
  case Nil
  then show ?case by (simp add: ret_def)
next
  case (Cons a ids)
  obtain r s' where r: "stopMonitoring a e s = (r, s')" by (cases "stopMonitoring a e s")
  with stopMonitoring_returns[of a e s] have "r = Inr ()" by simp
  with r Cons show ?case by (simp add: andThen_def bnd_def)
qed

text \<open>\<open>handleApprovalRequest\<close>: the question it leaves in the state, and a repeated question.\<close>

lemma handleApprovalRequest_no_state:
  "sessionStates (mon s) sessionId = None \<Longrightarrow> handleApprovalRequest sessionId output e s = (Inr (), s)"
  by (simp add: handleApprovalRequest_def prog_defs)

lemma handleApprovalRequest_duplicate:
  "sessionStates (mon s) sessionId = Some st \<Longrightarrow>
   lastApprovalQuestion st = Some (ai_question (extractApprovalInfo output)) \<Longrightarrow>
   handleApprovalRequest sessionId output e s = (Inr (), s)"
  by (simp add: handleApprovalRequest_def prog_defs Let_def)

lemma handleApprovalRequest_key:
  "sessionStates (mon s) sessionId = Some st \<Longrightarrow>
   \<exists>st'. sessionStates (mon (snd (handleApprovalRequest sessionId output e s))) sessionId = Some st' \<and>
         lastApprovalQuestion st' = Some (ai_question (extractApprovalInfo output))"
  by (auto simp: handleApprovalRequest_def prog_defs Let_def split: sum.splits option.splits)

lemma handleApprovalRequest_repeat:
  assumes "ai_question (extractApprovalInfo output2) = ai_question (extractApprovalInfo output1)"
  shows "handleApprovalRequest sessionId output2 e2 (snd (handleApprovalRequest sessionId output1 e1 s))
         = (Inr (), snd (handleApprovalRequest sessionId output1 e1 s))"
proof (cases "sessionStates (mon s) sessionId")
  case None
  then show ?thesis
    by (simp add: handleApprovalRequest_no_state)
next
  case (Some st)
  from handleApprovalRequest_key[OF Some, of output1 e1] obtain st' where
    "sessionStates (mon (snd (handleApprovalRequest sessionId output1 e1 s))) sessionId = Some st'"
    "lastApprovalQuestion st' = Some (ai_question (extractApprovalInfo output1))" by blast
  then show ?thesis using assms
    by (simp add: handleApprovalRequest_duplicate)
qed

text \<open>The scheduling part of \<open>handleLimitDetected\<close>.\<close>

lemma schedule_notifies:
  assumes "extractResetTime output = Some resetTime" and "resetTime \<noteq> []"
    and "sessionStates (mon s) sessionId = Some st"
    and "discordBot (mon s)"
    and "e_getSession e (steps s + 1) sessionId = Inr session"
  shows "(\<exists>rest. trace (snd (handleLimitDetected_schedule sessionId output e s)) =
            trace s @
            Notify sessionId
              \<lparr>n_type = NLimit, n_sessionName = nameOr session sessionId,
               n_metadata = LimitMeta resetTime (e_clock e (steps s + 2))\<rparr> # rest) \<and>
         map_option scheduledResetTime
           (sessionStates (mon (snd (handleLimitDetected_schedule sessionId output e s))) sessionId) =
           Some (case parseResetTime (e_LocalTZA e) (e_clock e (steps s)) resetTime of
                   Some d \<Rightarrow> Some d | None \<Rightarrow> scheduledResetTime st)"
  using assms
  by (auto simp: handleLimitDetected_schedule_def prog_defs Let_def eval_nat_numeral
      split: option.splits)

lemma handleLimitDetected_already_attempted:
  assumes "sessionStates (mon s) sessionId = Some st"
    and "scheduledResetTime st = None" and "immediateContinueAttempted st"
  shows "handleLimitDetected sessionId output e s =
         handleLimitDetected_schedule sessionId output e
           (effect (Emit \<lparr>ev_type = LimitDetected, ev_sessionId = sessionId,
                           ev_data = LimitData output, ev_timestamp = e_clock e (steps s)\<rparr>)
              (tick s))"
  using assms
  by (simp add: handleLimitDetected_def handleLimitDetected_immediate_def
      ret_def bnd_def andThen_def getState_def newDate_def emit_def)

text \<open>
  The frame of a poll cycle. No method that a poll cycle runs before its \<^verbatim>\<open>catch\<close> changes
  \<open>retryCount\<close>, and \<open>lastApprovalQuestion\<close> changes only where \<open>approval_needed\<close> is
  emitted: each method is built from steps that are within the strict frame.
  \<open>handlePollingError\<close> is within the frame that lets \<open>retryCount\<close> grow, and so is the
  whole of \<open>pollSession\<close>.
\<close>

lemma frame_iff:
  "frame strict sessionId s s' \<longleftrightarrow>
     (\<exists>added. trace s' = trace s @ added \<and>
        (case sessionStates (mon s') sessionId of
           None \<Rightarrow> True
         | Some st' \<Rightarrow>
             (case sessionStates (mon s) sessionId of
                None \<Rightarrow> False
              | Some st \<Rightarrow>
                  retryCount st \<le> retryCount st' \<and>
                  (strict \<longrightarrow> retryCount st' = retryCount st) \<and>
                  (lastApprovalQuestion st' = lastApprovalQuestion st \<or>
                   list_ex isApprovalEvent added))))"
proof
  assume f: "frame strict sessionId s s'"
  then have "trace s' = trace s @ drop (length (trace s)) (trace s')"
    by (metis frame_def append_take_drop_id)
  with f show "\<exists>added. trace s' = trace s @ added \<and>
        (case sessionStates (mon s') sessionId of
           None \<Rightarrow> True
         | Some st' \<Rightarrow>
             (case sessionStates (mon s) sessionId of
                None \<Rightarrow> False
              | Some st \<Rightarrow>
                  retryCount st \<le> retryCount st' \<and>
                  (strict \<longrightarrow> retryCount st' = retryCount st) \<and>
                  (lastApprovalQuestion st' = lastApprovalQuestion st \<or>
                   list_ex isApprovalEvent added)))"
    unfolding frame_def by blast
next
  assume "\<exists>added. trace s' = trace s @ added \<and>
        (case sessionStates (mon s') sessionId of
           None \<Rightarrow> True
         | Some st' \<Rightarrow>
             (case sessionStates (mon s) sessionId of
                None \<Rightarrow> False
              | Some st \<Rightarrow>
                  retryCount st \<le> retryCount st' \<and>
                  (strict \<longrightarrow> retryCount st' = retryCount st) \<and>
                  (lastApprovalQuestion st' = lastApprovalQuestion st \<or>
                   list_ex isApprovalEvent added)))"
  then obtain added where "trace s' = trace s @ added" and
    "case sessionStates (mon s') sessionId of
           None \<Rightarrow> True
         | Some st' \<Rightarrow>
             (case sessionStates (mon s) sessionId of
                None \<Rightarrow> False
              | Some st \<Rightarrow>
                  retryCount st \<le> retryCount st' \<and>
                  (strict \<longrightarrow> retryCount st' = retryCount st) \<and>
                  (lastApprovalQuestion st' = lastApprovalQuestion st \<or>
                   list_ex isApprovalEvent added))"
    by blast
  then show "frame strict sessionId s s'"
    by (auto simp: frame_def split: option.splits)
qed

lemma frame_refl: "frame strict sessionId s s"
  by (simp add: frame_def split: option.splits)

lemma frame_trans:
  assumes "frame strict sessionId s s'" and "frame strict sessionId s' s''"
  shows "frame strict sessionId s s''"
proof -
  from assms(1) obtain a1 where t1: "trace s' = trace s @ a1" and
    c1: "case sessionStates (mon s') sessionId of
           None \<Rightarrow> True
         | Some st' \<Rightarrow>
             (case sessionStates (mon s) sessionId of
                None \<Rightarrow> False
              | Some st \<Rightarrow>
                  retryCount st \<le> retryCount st' \<and>
                  (strict \<longrightarrow> retryCount st' = retryCount st) \<and>
                  (lastApprovalQuestion st' = lastApprovalQuestion st \<or>
                   list_ex isApprovalEvent a1))"
    unfolding frame_iff by blast
  from assms(2) obtain a2 where t2: "trace s'' = trace s' @ a2" and
    c2: "case sessionStates (mon s'') sessionId of
           None \<Rightarrow> True
         | Some st' \<Rightarrow>
             (case sessionStates (mon s') sessionId of
                None \<Rightarrow> False
              | Some st \<Rightarrow>
                  retryCount st \<le> retryCount st' \<and>
                  (strict \<longrightarrow> retryCount st' = retryCount st) \<and>
                  (lastApprovalQuestion st' = lastApprovalQuestion st \<or>
                   list_ex isApprovalEvent a2))"
    unfolding frame_iff by blast
  from t1 t2 have t: "trace s'' = trace s @ (a1 @ a2)" by simp
  from c1 c2 have "case sessionStates (mon s'') sessionId of
           None \<Rightarrow> True
         | Some st' \<Rightarrow>
             (case sessionStates (mon s) sessionId of
                None \<Rightarrow> False
              | Some st \<Rightarrow>
                  retryCount st \<le> retryCount st' \<and>
                  (strict \<longrightarrow> retryCount st' = retryCount st) \<and>
                  (lastApprovalQuestion st' = lastApprovalQuestion st \<or>
                   list_ex isApprovalEvent (a1 @ a2)))"
    by (auto split: option.splits)
  with t show ?thesis unfolding frame_iff by blast
qed

lemma frame_weaken: "frame True sessionId s s' \<Longrightarrow> frame strict sessionId s s'"
  by (auto simp: frame_def split: option.splits)

lemma frame_same_mon: "mon s' = mon s \<Longrightarrow> trace s' = trace s @ added \<Longrightarrow> frame strict sessionId s s'"
  by (simp add: frame_def split: option.splits)

lemma framed_weaken: "framed True sessionId m \<Longrightarrow> framed strict sessionId m"
  by (simp add: framed_def frame_weaken)

lemma framed_ret: "framed strict sessionId (ret v)"
  by (simp add: framed_def ret_def frame_refl)

lemma framed_throw: "framed strict sessionId (throw x)"
  by (simp add: framed_def throw_def frame_refl)

lemma framed_bnd:
  assumes "framed strict sessionId m" and "\<And>v. framed strict sessionId (f v)"
  shows "framed strict sessionId (bnd m f)"
  unfolding framed_def
proof (intro allI)
  fix e s
  obtain r s' where r: "m e s = (r, s')" by (cases "m e s")
  from assms(1) have "frame strict sessionId s (snd (m e s))" by (simp add: framed_def)
  with r have k: "frame strict sessionId s s'" by simp
  show "frame strict sessionId s (snd (bnd m f e s))"
  proof (cases r)
    case (Inl x)
    with r k show ?thesis by (simp add: bnd_def)
  next
    case (Inr v)
    from assms(2)[of v] have "frame strict sessionId s' (snd (f v e s'))" by (simp add: framed_def)
    with k have "frame strict sessionId s (snd (f v e s'))" by (rule frame_trans)
    with r Inr show ?thesis by (simp add: bnd_def)
  qed
qed

lemma framed_andThen:
  "framed strict sessionId m \<Longrightarrow> framed strict sessionId k \<Longrightarrow> framed strict sessionId (andThen m k)"
  by (simp add: andThen_def framed_bnd)

lemma framed_try_catch:
  assumes "framed strict sessionId m" and "\<And>x. framed strict sessionId (h x)"
  shows "framed strict sessionId (try_catch m h)"
  unfolding framed_def
proof (intro allI)
  fix e s
  obtain r s' where r: "m e s = (r, s')" by (cases "m e s")
  from assms(1) have "frame strict sessionId s (snd (m e s))" by (simp add: framed_def)
  with r have k: "frame strict sessionId s s'" by simp
  show "frame strict sessionId s (snd (try_catch m h e s))"
  proof (cases r)
    case (Inr v)
    with r k show ?thesis by (simp add: try_catch_def)
  next
    case (Inl x)
    from assms(2)[of x] have "frame strict sessionId s' (snd (h x e s'))" by (simp add: framed_def)
    with k have "frame strict sessionId s (snd (h x e s'))" by (rule frame_trans)
    with r Inl show ?thesis by (simp add: try_catch_def)
  qed
qed

lemma framed_if:
  "framed strict sessionId a \<Longrightarrow> framed strict sessionId b \<Longrightarrow> framed strict sessionId (if c then a else b)"
  by simp

lemma framed_case_option:
  "framed strict sessionId a \<Longrightarrow> (\<And>y. framed strict sessionId (b y)) \<Longrightarrow>
   framed strict sessionId (case x of None \<Rightarrow> a | Some y \<Rightarrow> b y)"
  by (cases x) simp_all

lemma framed_prims:
  "framed strict sessionId (getSession a)"
  "framed strict sessionId (sessionExists p)"
  "framed strict sessionId (capturePane p)"
  "framed strict sessionId (capturePaneWithColors p)"
  "framed strict sessionId (sendRawKeys p ks)"
  "framed strict sessionId (sendContinueCommand p)"
  "framed strict sessionId (updateSession a u)"
  "framed strict sessionId newDate"
  "framed strict sessionId (sleep n)"
  "framed strict sessionId (emit ev)"
  "framed strict sessionId (safeNotifyDiscord a n')"
  "framed strict sessionId (getState a)"
  "framed strict sessionId getOptions"
  "framed strict sessionId (generateQuotaMessage d)"
  "framed strict sessionId localTZA"
  by (auto simp: framed_def prog_defs intro!: frame_same_mon split: option.splits)

lemma framed_modState:
  "(\<And>x. retryCount (f x) = retryCount x) \<Longrightarrow>
   (\<And>x. lastApprovalQuestion (f x) = lastApprovalQuestion x) \<Longrightarrow>
   framed strict sessionId (modState a f)"
  by (auto simp: framed_def modState_def frame_def split: option.splits)

lemma framed_stopMonitoring: "framed strict sessionId (stopMonitoring a)"
  by (auto simp: framed_def stopMonitoring_def frame_def effect_def Let_def split: option.splits)

lemmas framed_rules = framed_ret framed_throw framed_bnd framed_andThen
  framed_try_catch framed_if framed_case_option framed_prims framed_modState
  framed_stopMonitoring

lemma framed_tryImmediateContinuation: "framed strict sessionId (tryImmediateContinuation a output)"
  unfolding tryImmediateContinuation_def by (intro framed_rules)

lemma framed_handleLimitDetected_immediate:
  "framed strict sessionId (handleLimitDetected_immediate a output st)"
  unfolding handleLimitDetected_immediate_def
  by (intro framed_rules framed_tryImmediateContinuation) simp_all

lemma framed_handleLimitDetected_schedule:
  "framed strict sessionId (handleLimitDetected_schedule a output)"
  unfolding handleLimitDetected_schedule_def Let_def
  by (intro framed_rules) simp_all

lemma framed_handleLimitDetected: "framed strict sessionId (handleLimitDetected a output)"
  unfolding handleLimitDetected_def
  by (intro framed_rules framed_handleLimitDetected_immediate
      framed_handleLimitDetected_schedule)

lemma framed_handleApprovalRequest: "framed strict sessionId (handleApprovalRequest a output)"
  unfolding framed_def
proof (intro allI)
  fix e s
  show "frame strict sessionId s (snd (handleApprovalRequest a output e s))"
    by (auto simp: handleApprovalRequest_def prog_defs Let_def frame_def
        split: option.splits sum.splits)
qed

lemma framed_handleTaskCompletion: "framed strict sessionId (handleTaskCompletion a output idle)"
  unfolding handleTaskCompletion_def
  by (intro framed_rules) simp_all

lemma framed_checkTaskCompletion: "framed strict sessionId (checkTaskCompletion a output)"
  unfolding checkTaskCompletion_def Let_def
  by (intro framed_rules framed_handleTaskCompletion)

lemma framed_detectPatterns_limit: "framed strict sessionId (detectPatterns_limit a output st)"
  unfolding detectPatterns_limit_def
  by (intro framed_rules framed_handleLimitDetected) simp_all

lemma framed_detectPatterns: "framed strict sessionId (detectPatterns a output)"
  unfolding detectPatterns_def
  by (intro framed_rules framed_detectPatterns_limit framed_handleApprovalRequest)

lemma framed_analyzeOutput: "framed strict sessionId (analyzeOutput a output)"
  unfolding analyzeOutput_def
  by (intro framed_rules framed_detectPatterns framed_checkTaskCompletion) simp_all

lemma framed_performAutoContinuation: "framed strict sessionId (performAutoContinuation a)"
  unfolding performAutoContinuation_def
  by (intro framed_rules) simp_all

lemma framed_executeQuotaSchedule: "framed strict sessionId (executeQuotaSchedule a quota)"
  unfolding executeQuotaSchedule_def
  by (intro framed_rules) simp_all

lemma framed_pollSession_capture: "framed strict sessionId (pollSession_capture a found)"
  unfolding pollSession_capture_def
  by (intro framed_rules framed_analyzeOutput)

lemma framed_pollSession_quota: "framed strict sessionId (pollSession_quota a found)"
  unfolding pollSession_quota_def
  by (intro framed_rules framed_executeQuotaSchedule framed_pollSession_capture) simp_all

lemma framed_pollSession_body: "framed strict sessionId (pollSession_body a)"
  unfolding pollSession_body_def handleSessionEnded_def
  by (intro framed_rules framed_performAutoContinuation framed_pollSession_quota) simp_all

lemma framed_handlePollingError: "framed False sessionId (handlePollingError a err)"
  unfolding framed_def
proof (intro allI)
  fix e s
  show "frame False sessionId s (snd (handlePollingError a err e s))"
    by (auto simp: handlePollingError_def stopMonitoring_def prog_defs Let_def frame_def
        split: option.splits)
qed

lemma framed_pollSession: "framed False sessionId (pollSession a)"
  unfolding pollSession_def
  by (intro framed_try_catch framed_pollSession_body framed_handlePollingError)

lemma pollSession_body_retryCount:
  assumes "sessionStates (mon (snd (pollSession_body sessionId e s))) sessionId = Some st'"
  shows "\<exists>st. sessionStates (mon s) sessionId = Some st \<and> retryCount st' = retryCount st"
proof -
  from framed_pollSession_body[of True sessionId sessionId]
  have "frame True sessionId s (snd (pollSession_body sessionId e s))"
    by (simp add: framed_def)
  with assms show ?thesis
    by (auto simp: frame_def split: option.splits)
qed

lemma pollSession_frame:
  assumes "sessionStates (mon (snd (pollSession sessionId e s))) sessionId = Some st'"
  shows "\<exists>st. sessionStates (mon s) sessionId = Some st \<and> retryCount st \<le> retryCount st' \<and>
           (lastApprovalQuestion st' = lastApprovalQuestion st \<or>
            list_ex isApprovalEvent (drop (length (trace s)) (trace (snd (pollSession sessionId e s)))))"
proof -
  from framed_pollSession[of sessionId sessionId]
  have "frame False sessionId s (snd (pollSession sessionId e s))"
    by (simp add: framed_def)
  with assms show ?thesis
    by (auto simp: frame_def split: option.splits)
qed



text \<open>The sample pane shows a prompt and no sign of processing.\<close>

lemma demoPrompt_waiting: "rtest waitingForInput demoPrompt"
  by (simp add: demoPrompt_def pattern_defs rx_defs mt_eval)

lemma demoPrompt_notProcessing: "rtest notProcessing demoPrompt"
  by (simp add: demoPrompt_def pattern_defs rx_defs mt_eval)

section \<open>Facts about the pattern library\<close>

text \<open>The flags the loop of \<open>isInteractiveApprovalDialog\<close> ends with.\<close>

lemma isInteractive_loop_flags:
  "isInteractive_loop ls (hic, hac) =
     (hic \<or> (\<exists>l\<in>set ls. hasApprovalContentLine l \<and> hasNormalColors l \<and> \<not> isGreyOrDim l),
      hac \<or> (\<exists>l\<in>set ls. hasApprovalContentLine l))"
  by (induction ls arbitrary: hic hac) auto

text \<open>
  A test of a regular expression, as a match at some split of the string; and the two
  colour expressions as the substrings they stand for.
\<close>

lemma sufs_set:
  "set (sufs p s) = {(if pre = [] then p else Some (last pre), t) | pre t. s = pre @ t}"
proof (induction s arbitrary: p)
  case Nil
  then show ?case by auto
next
  case (Cons c cs)
  show ?case
  proof (rule set_eqI, rule iffI)
    fix q assume "q \<in> set (sufs p (c # cs))"
    then consider "q = (p, c # cs)" | "q \<in> set (sufs (Some c) cs)" by auto
    then show "q \<in> {(if pre = [] then p else Some (last pre), t) | pre t. c # cs = pre @ t}"
    proof cases
      case 1
      then have "q = (if [] = [] then p else Some (last []), c # cs) \<and> c # cs = [] @ (c # cs)" by simp
      then show ?thesis by blast
    next
      case 2
      then obtain pre t where "q = (if pre = [] then Some c else Some (last pre), t)" "cs = pre @ t"
        using Cons.IH by auto
      then have "q = (if c # pre = [] then p else Some (last (c # pre)), t) \<and> c # cs = (c # pre) @ t"
        by auto
      then show ?thesis by blast
    qed
  next
    fix q assume "q \<in> {(if pre = [] then p else Some (last pre), t) | pre t. c # cs = pre @ t}"
    then obtain pre t where q: "q = (if pre = [] then p else Some (last pre), t)" and e: "c # cs = pre @ t"
      by blast
    show "q \<in> set (sufs p (c # cs))"
    proof (cases pre)
      case Nil
      with q e have "q = (p, c # cs)" by simp
      then show ?thesis by simp
    next
      case (Cons a pre')
      with e have "a = c" "cs = pre' @ t" by simp_all
      moreover from q Cons have "q = (if pre' = [] then Some c else Some (last pre'), t)"
        using \<open>a = c\<close> by auto
      ultimately have "q \<in> set (sufs (Some c) cs)" using Cons.IH by blast
      then show ?thesis by simp
    qed
  qed
qed

lemma rtest_iff:
  "rtest r s \<longleftrightarrow> (\<exists>pre t. s = pre @ t \<and> mt r (if pre = [] then None else Some (last pre)) t \<noteq> [])"
  unfolding rtest_def list_ex_iff sufs_set by auto

lemma greyCodes_at:
  "mt greyCodes p t \<noteq> [] \<longleftrightarrow>
     starts_with t (js ''[2m'') \<or> starts_with t (js ''[8m'') \<or> starts_with t (js ''[90m'')"
  by (auto simp: greyCodes_def rx_defs mt_eval split: list.splits)

lemma digit_ranges:
  "(48 \<le> c \<and> c \<le> 55) \<longleftrightarrow> c \<in> set (js ''01234567'')"
  "(49 \<le> c \<and> c \<le> 55) \<longleftrightarrow> c \<in> set (js ''1234567'')"
  "(51 \<le> c \<and> c \<le> 55) \<longleftrightarrow> c \<in> set (js ''34567'')"
  for c :: nat
  by (simp_all add: js_def) presburger+

lemma normalCodes_at:
  "mt normalCodes p t \<noteq> [] \<longleftrightarrow> (\<exists>code. normalCode code \<and> starts_with t (91 # code @ [109]))"
proof
  assume "mt normalCodes p t \<noteq> []"
  then consider
    (one) a rest where "t = 91 # a # 109 # rest" "normalCode [a]"
    | (two) a b rest where "t = 91 # a # b # 109 # rest" "normalCode [a, b]"
    by (auto simp: normalCodes_def normalCode_def cls_013_79_def cls_13_def cls_0_79_def
        cls_1_79_def digit_ranges chr_def lit_def Seqs_def mt_eval split: list.splits if_splits)
       (auto simp: js_def)
  then show "\<exists>code. normalCode code \<and> starts_with t (91 # code @ [109])"
  proof cases
    case one
    then have "normalCode [a] \<and> starts_with t (91 # [a] @ [109])" by simp
    then show ?thesis by blast
  next
    case two
    then have "normalCode [a, b] \<and> starts_with t (91 # [a, b] @ [109])" by simp
    then show ?thesis by blast
  qed
next
  assume "\<exists>code. normalCode code \<and> starts_with t (91 # code @ [109])"
  then obtain code where c: "normalCode code" and s: "starts_with t (91 # code @ [109])" by blast
  from c consider (one) a where "code = [a]" | (two) a b where "code = [a, b]"
    by (auto simp: normalCode_def split: list.splits)
  then show "mt normalCodes p t \<noteq> []"
  proof cases
    case one
    with s obtain rest where "t = 91 # a # 109 # rest" by (auto simp: starts_with_iff)
    with c one show ?thesis
      by (auto simp: normalCodes_def normalCode_def cls_013_79_def cls_13_def cls_0_79_def
          cls_1_79_def rx_defs mt_eval)
  next
    case two
    with s obtain rest where "t = 91 # a # b # 109 # rest" by (auto simp: starts_with_iff)
    with c two show ?thesis
      by (auto simp: normalCodes_def normalCode_def cls_013_79_def cls_13_def cls_0_79_def
          cls_1_79_def rx_defs mt_eval)
  qed
qed

lemma includes_starts: "str_includes s sub \<longleftrightarrow> (\<exists>pre t. s = pre @ t \<and> starts_with t sub)"
  unfolding str_includes_iff starts_with_iff by auto

lemma isGreyOrDim_iff:
  "isGreyOrDim line \<longleftrightarrow>
     str_includes line ANSI_ESCAPE \<and>
     (str_includes line (js ''[2m'') \<or> str_includes line (js ''[8m'') \<or> str_includes line (js ''[90m''))"
  unfolding isGreyOrDim_def rtest_iff greyCodes_at includes_starts by blast

lemma hasNormalColors_iff:
  "hasNormalColors line \<longleftrightarrow>
     str_includes line ANSI_ESCAPE \<and>
     (\<exists>code. normalCode code \<and> str_includes line (91 # code @ [109]))"
  unfolding hasNormalColors_def rtest_iff normalCodes_at includes_starts by blast

text \<open>
  \<open>isInteractiveApprovalDialog\<close> in terms of what a line includes: some line with
  approval content includes the escape introducer, includes \<^verbatim>\<open>[\<close>, a normal colour code and
  \<^verbatim>\<open>m\<close>, and includes none of \<^verbatim>\<open>[2m\<close>, \<^verbatim>\<open>[8m\<close> and \<^verbatim>\<open>[90m\<close>; or some line has approval
  content and the capture includes no escape introducer at all.
\<close>

lemma isInteractiveApprovalDialog_iff:
  "isInteractiveApprovalDialog colorOutput \<longleftrightarrow>
     (\<exists>line \<in> set (split_lines colorOutput).
        hasApprovalContentLine line \<and> str_includes line ANSI_ESCAPE \<and>
        (\<exists>code. normalCode code \<and> str_includes line (91 # code @ [109])) \<and>
        \<not> (str_includes line (js ''[2m'') \<or> str_includes line (js ''[8m'')
           \<or> str_includes line (js ''[90m'')))
     \<or> ((\<exists>line \<in> set (split_lines colorOutput). hasApprovalContentLine line) \<and>
        \<not> str_includes colorOutput ANSI_ESCAPE)"
proof -
  have "isInteractiveApprovalDialog colorOutput \<longleftrightarrow>
     (\<exists>line \<in> set (split_lines colorOutput).
        hasApprovalContentLine line \<and> hasNormalColors line \<and> \<not> isGreyOrDim line)
     \<or> ((\<exists>line \<in> set (split_lines colorOutput). hasApprovalContentLine line) \<and>
        \<not> str_includes colorOutput ANSI_ESCAPE)"
    by (auto simp: isInteractiveApprovalDialog_def isInteractive_loop_flags)
  then show ?thesis
    unfolding hasNormalColors_iff isGreyOrDim_iff by blast
qed

text \<open>The sample data, evaluated.\<close>

lemma demoDialog_info:
  "extractApprovalInfo demoDialog =
     \<lparr>ai_tool = js ''Tool'', ai_action = js ''Proceed with operation'',
      ai_question = js ''Do you want to proceed?'',
      ai_options = [\<lparr>opt_number = Finite 1, opt_text = js ''Yes'', opt_shortcut = None\<rparr>]\<rparr>"
  by (simp add: demoDialog_def pattern_defs rx_defs mt_eval)

lemma match_3pm:
  "rmatch timeRegex (trim (toLowerCase (js ''3pm''))) = Some [[], js ''3'', [], [], js ''pm'', []]"
  by (simp add: time_defs pattern_defs rx_defs mt_eval)

lemma rolled_3pm: "rolledDeadline utcZone 36000000 [[], js ''3'', [], [], js ''pm'', []] = 54000000"
  by (simp add: rolledDeadline_def Let_def time_defs digitsValue_def js_def)

lemma parse_301: "parseResetTime utcZone 36000000 (js ''3:01pm'') = None"
  by (simp add: time_defs pattern_defs rx_defs mt_eval Let_def)

lemma quiet_zone: "e_LocalTZA (quietEnv t) = utcZone"
  by (simp add: quietEnv_def)

lemma limitNotice_301: "extractResetTime (limitNotice ''3:01pm'') = Some (js ''3:01pm'')"
  by (simp add: limitNotice_def pattern_defs rx_defs mt_eval)

lemma limitNotice_3: "extractResetTime (limitNotice ''3pm'') = Some (js ''3pm'')"
  by (simp add: limitNotice_def pattern_defs rx_defs mt_eval)


section \<open>The claims\<close>

text \<open>
  \<^bold>\<open>C1.\<close> When \<open>handleApprovalRequest\<close> extracts a question equal to the stored
  \<open>lastApprovalQuestion\<close>, the run is left as it was: no \<open>approval_needed\<close> event, no
  approval notification, no status update. Of two dialogs handled one after the other
  with the same question text, the second leaves the run as the first left it, whatever
  the state before the first and whatever the collaborators answer; so when the second
  adds an effect, the question text has changed. A question that differs from the stored
  one emits the event and hands the notification to the bot. The stored question stays
  as it is between two dialogs: if the session's state is there after a poll cycle that
  emitted no \<open>approval_needed\<close> event, it was there before with the same
  \<open>lastApprovalQuestion\<close>.
\<close>

theorem approval_dedup:
  "(sessionStates (mon s) sessionId = Some st \<and>
    lastApprovalQuestion st = Some (ai_question (extractApprovalInfo output)) \<longrightarrow>
      handleApprovalRequest sessionId output e s = (Inr (), s)) \<and>
   (ai_question (extractApprovalInfo output2) = ai_question (extractApprovalInfo output1) \<longrightarrow>
      handleApprovalRequest sessionId output2 e2 (snd (handleApprovalRequest sessionId output1 e1 s))
        = (Inr (), snd (handleApprovalRequest sessionId output1 e1 s))) \<and>
   (trace (snd (handleApprovalRequest sessionId output2 e2
                  (snd (handleApprovalRequest sessionId output1 e1 s))))
      \<noteq> trace (snd (handleApprovalRequest sessionId output1 e1 s)) \<longrightarrow>
      ai_question (extractApprovalInfo output2) \<noteq> ai_question (extractApprovalInfo output1)) \<and>
   (sessionStates (mon s) sessionId = Some st \<and>
    lastApprovalQuestion st \<noteq> Some (ai_question (extractApprovalInfo output)) \<and>
    discordBot (mon s) \<and> e_getSession e (steps s + 1) sessionId = Inr session \<longrightarrow>
      (\<exists>rest. trace (snd (handleApprovalRequest sessionId output e s)) =
         trace s @
         [Emit \<lparr>ev_type = ApprovalNeeded, ev_sessionId = sessionId,
                ev_data = ApprovalData output (extractApprovalInfo output),
                ev_timestamp = e_clock e (steps s)\<rparr>,
          Notify sessionId
            \<lparr>n_type = NApproval, n_sessionName = nameOr session sessionId,
             n_metadata = ApprovalMeta (ai_tool (extractApprovalInfo output))
                            (ai_action (extractApprovalInfo output))
                            (ai_question (extractApprovalInfo output))
                            (e_clock e (steps s + 2))\<rparr>] @ rest)) \<and>
   (sessionStates (mon (snd (pollSession sessionId e s))) sessionId = Some st' \<and>
    \<not> list_ex isApprovalEvent (drop (length (trace s)) (trace (snd (pollSession sessionId e s)))) \<longrightarrow>
      (\<exists>st0. sessionStates (mon s) sessionId = Some st0 \<and>
             lastApprovalQuestion st' = lastApprovalQuestion st0))"
proof -
  have d: "trace (snd (handleApprovalRequest sessionId output2 e2
                  (snd (handleApprovalRequest sessionId output1 e1 s))))
      \<noteq> trace (snd (handleApprovalRequest sessionId output1 e1 s)) \<longrightarrow>
      ai_question (extractApprovalInfo output2) \<noteq> ai_question (extractApprovalInfo output1)"
    using handleApprovalRequest_repeat[of output2 output1 sessionId e2 e1 s] by auto
  have f: "sessionStates (mon s) sessionId = Some st \<and>
    lastApprovalQuestion st \<noteq> Some (ai_question (extractApprovalInfo output)) \<and>
    discordBot (mon s) \<and> e_getSession e (steps s + 1) sessionId = Inr session \<longrightarrow>
      (\<exists>rest. trace (snd (handleApprovalRequest sessionId output e s)) =
         trace s @
         [Emit \<lparr>ev_type = ApprovalNeeded, ev_sessionId = sessionId,
                ev_data = ApprovalData output (extractApprovalInfo output),
                ev_timestamp = e_clock e (steps s)\<rparr>,
          Notify sessionId
            \<lparr>n_type = NApproval, n_sessionName = nameOr session sessionId,
             n_metadata = ApprovalMeta (ai_tool (extractApprovalInfo output))
                            (ai_action (extractApprovalInfo output))
                            (ai_question (extractApprovalInfo output))
                            (e_clock e (steps s + 2))\<rparr>] @ rest)"
    by (auto simp: handleApprovalRequest_def prog_defs Let_def eval_nat_numeral split: option.splits)
  have g: "sessionStates (mon (snd (pollSession sessionId e s))) sessionId = Some st' \<and>
    \<not> list_ex isApprovalEvent (drop (length (trace s)) (trace (snd (pollSession sessionId e s)))) \<longrightarrow>
      (\<exists>st0. sessionStates (mon s) sessionId = Some st0 \<and>
             lastApprovalQuestion st' = lastApprovalQuestion st0)"
    using pollSession_frame[of sessionId e s st'] by blast
  have a: "sessionStates (mon s) sessionId = Some st \<and>
    lastApprovalQuestion st = Some (ai_question (extractApprovalInfo output)) \<longrightarrow>
      handleApprovalRequest sessionId output e s = (Inr (), s)"
    using handleApprovalRequest_duplicate by blast
  have b: "ai_question (extractApprovalInfo output2) = ai_question (extractApprovalInfo output1) \<longrightarrow>
      handleApprovalRequest sessionId output2 e2 (snd (handleApprovalRequest sessionId output1 e1 s))
        = (Inr (), snd (handleApprovalRequest sessionId output1 e1 s))"
    using handleApprovalRequest_repeat by blast
  from a b d f g show ?thesis by blast
qed

text \<open>
  The sample dialog, handled twice: the first time the event and the notification are
  produced, the second time nothing is. A poll cycle on an unchanged pane keeps the
  stored question.
\<close>

theorem approval_dedup_witness:
  "(\<exists>rest. trace (snd (handleApprovalRequest (js ''s1'') demoDialog (quietEnv 0) (demoRun demoState))) =
      [Emit \<lparr>ev_type = ApprovalNeeded, ev_sessionId = js ''s1'',
             ev_data = ApprovalData demoDialog (extractApprovalInfo demoDialog), ev_timestamp = 0\<rparr>,
       Notify (js ''s1'')
         \<lparr>n_type = NApproval, n_sessionName = js ''demo'',
          n_metadata = ApprovalMeta (js ''Tool'') (js ''Proceed with operation'')
                         (js ''Do you want to proceed?'') 0\<rparr>] @ rest) \<and>
   handleApprovalRequest (js ''s1'') demoDialog (quietEnv 5)
       (snd (handleApprovalRequest (js ''s1'') demoDialog (quietEnv 0) (demoRun demoState)))
     = (Inr (), snd (handleApprovalRequest (js ''s1'') demoDialog (quietEnv 0) (demoRun demoState))) \<and>
   map_option lastApprovalQuestion
     (sessionStates (mon (snd (pollSession (js ''s1'') (quietEnv 0)
        (demoRun (demoState\<lparr>lastApprovalQuestion := Some (js ''Do you want to proceed?'')\<rparr>)))))
        (js ''s1''))
     = Some (Some (js ''Do you want to proceed?''))"
proof -
  note t = approval_dedup[of "demoRun demoState" "js ''s1''" demoState demoDialog "quietEnv 0"
      demoDialog demoDialog "quietEnv 5" "quietEnv 0" "Some demoSession"]
  have st: "sessionStates (mon (demoRun demoState)) (js ''s1'') = Some demoState"
    by (simp add: demo_defs)
  have q: "lastApprovalQuestion demoState \<noteq> Some (ai_question (extractApprovalInfo demoDialog))"
    by (simp add: demo_defs)
  have b: "discordBot (mon (demoRun demoState))" by (simp add: demo_defs)
  have g: "e_getSession (quietEnv 0) (steps (demoRun demoState) + 1) (js ''s1'') = Inr (Some demoSession)"
    by (simp add: demo_defs)
  have tr: "trace (demoRun demoState) = []" by (simp add: demo_defs)
  have ck: "e_clock (quietEnv t) k = t" for t k by (simp add: demo_defs)
  have nm: "nameOr (Some demoSession) (js ''s1'') = js ''demo''" by (simp add: demo_defs js_def)
  from t st q b g have "\<exists>rest. trace (snd (handleApprovalRequest (js ''s1'') demoDialog (quietEnv 0) (demoRun demoState))) =
         trace (demoRun demoState) @
         [Emit \<lparr>ev_type = ApprovalNeeded, ev_sessionId = js ''s1'',
                ev_data = ApprovalData demoDialog (extractApprovalInfo demoDialog),
                ev_timestamp = e_clock (quietEnv 0) (steps (demoRun demoState))\<rparr>,
          Notify (js ''s1'')
            \<lparr>n_type = NApproval, n_sessionName = nameOr (Some demoSession) (js ''s1''),
             n_metadata = ApprovalMeta (ai_tool (extractApprovalInfo demoDialog))
                            (ai_action (extractApprovalInfo demoDialog))
                            (ai_question (extractApprovalInfo demoDialog))
                            (e_clock (quietEnv 0) (steps (demoRun demoState) + 2))\<rparr>] @ rest"
    by blast
  then have first: "\<exists>rest. trace (snd (handleApprovalRequest (js ''s1'') demoDialog (quietEnv 0) (demoRun demoState))) =
      [Emit \<lparr>ev_type = ApprovalNeeded, ev_sessionId = js ''s1'',
             ev_data = ApprovalData demoDialog (extractApprovalInfo demoDialog), ev_timestamp = 0\<rparr>,
       Notify (js ''s1'')
         \<lparr>n_type = NApproval, n_sessionName = js ''demo'',
          n_metadata = ApprovalMeta (js ''Tool'') (js ''Proceed with operation'')
                         (js ''Do you want to proceed?'') 0\<rparr>] @ rest"
    by (simp add: tr ck nm demoDialog_info)
  from t have second: "handleApprovalRequest (js ''s1'') demoDialog (quietEnv 5)
       (snd (handleApprovalRequest (js ''s1'') demoDialog (quietEnv 0) (demoRun demoState)))
     = (Inr (), snd (handleApprovalRequest (js ''s1'') demoDialog (quietEnv 0) (demoRun demoState)))"
    by blast
  let ?st = "demoState\<lparr>lastApprovalQuestion := Some (js ''Do you want to proceed?'')\<rparr>"
  have run: "pollSession (js ''s1'') (quietEnv 0) (demoRun ?st) = (Inr (), (demoRun ?st)\<lparr>steps := 5\<rparr>)"
    by (simp add: pollSession_def pollSession_body_def pollSession_quota_def pollSession_capture_def
      analyzeOutput_def checkTaskCompletion_def MIN_IDLE_MS_def prog_defs demo_defs)
  have tr0: "trace (demoRun ?st) = []" by (simp add: demoRun_def)
  have quiet: "\<not> list_ex isApprovalEvent
      (drop (length (trace (demoRun ?st))) (trace (snd (pollSession (js ''s1'') (quietEnv 0) (demoRun ?st)))))"
    by (simp add: run tr0)
  have before: "sessionStates (mon (demoRun ?st)) (js ''s1'') = Some ?st"
    by (simp add: demoRun_def)
  obtain st' where after: "sessionStates (mon (snd (pollSession (js ''s1'') (quietEnv 0) (demoRun ?st)))) (js ''s1'') = Some st'"
    by (simp add: run before)
  note t' = approval_dedup[of "demoRun ?st" "js ''s1''" _ _ "quietEnv 0" _ _ _ _ _ st']
  from t' after quiet before have q: "lastApprovalQuestion st' = Some (js ''Do you want to proceed?'')"
    by auto
  have third: "map_option lastApprovalQuestion
     (sessionStates (mon (snd (pollSession (js ''s1'') (quietEnv 0) (demoRun ?st)))) (js ''s1''))
     = Some (Some (js ''Do you want to proceed?''))"
    by (simp only: after option.map q)
  show ?thesis by (rule conjI[OF first conjI[OF second third]])
qed




text \<open>
  \<^bold>\<open>C3.\<close> For a reset-time string (an hour in one or two digits, possibly a colon
  and a minute in two digits, possibly \<^verbatim>\<open>am\<close> or \<^verbatim>\<open>pm\<close> in any letter case after optional white
  space, the whole possibly padded with white space), \<open>parseResetTime\<close> converts the hour
  by the 12-hour rules (\<^verbatim>\<open>pm\<close> and an hour other than 12 adds 12; \<^verbatim>\<open>am\<close> and hour 12 gives 0).
  When the converted hour is below 24, the minute below 60 and the local time of that hour
  and minute exists on the day, the deadline it computes is today at that hour and minute
  on the local clock, or tomorrow at that hour and minute exactly when the time today is
  not after the current time; it returns that deadline unless it is more than five hours
  ahead, and nothing then.
\<close>

theorem parseResetTime_deadline:
  assumes hours: "oneOrTwoDigits H hh" and minutes: "colonMinutes M mm"
    and per: "(period = [] \<and> gap = []) \<or> period \<in> set amForms \<or> period \<in> set pmForms"
    and ws: "\<forall>c\<in>set gap. isWhiteSpace c" "\<forall>c\<in>set lead. isWhiteSpace c"
      "\<forall>c\<in>set trail. isWhiteSpace c"
    and h: "h = (if period \<in> set pmForms \<and> H \<noteq> 12 then int H + 12
                 else if period \<in> set amForms \<and> H = 12 then 0 else int H)"
    and range: "h < 24" "M < 60"
    and local: "L = MakeDate (dayOf tz now) (MakeTime h (int M))"
    and today: "today = UTC tz L" and tomorrow: "tomorrow = UTC tz (L + msPerDay)"
    and ex: "localTimeExists tz L" "today \<le> now \<longrightarrow> localTimeExists tz (L + msPerDay)"
    and d: "d = (if today \<le> now then tomorrow else today)"
  shows "parseResetTime tz now (lead @ hh @ mm @ gap @ period @ trail) =
           (if d - now > 5 * msPerHour then None else Some d) \<and>
         getHours tz today = h \<and> getMinutes tz today = int M \<and> dayOf tz today = dayOf tz now \<and>
         getHours tz d = h \<and> getMinutes tz d = int M \<and> LocalTime tz d mod msPerMinute = 0 \<and>
         dayOf tz d = (if today \<le> now then dayOf tz now + 1 else dayOf tz now)"
proof -
  have h0: "0 \<le> h" by (simp add: h)
  have m0: "0 \<le> int M" "int M < 60" using range(2) by simp_all
  note f = local_fields[OF h0 range(1) m0, of "dayOf tz now"]
  have sh: "setHours tz now h (int M) = today"
    by (simp add: setHours_def today local dayOf_def)
  from ex(1) have lt: "LocalTime tz today = L" by (simp add: localTimeExists_def today)
  have t: "getHours tz today = h \<and> getMinutes tz today = int M \<and>
      LocalTime tz today mod msPerMinute = 0 \<and> dayOf tz today = dayOf tz now"
    using f by (simp add: getHours_def getMinutes_def dayOf_def lt local)
  have ad: "addOneDay tz today = tomorrow"
    unfolding today tomorrow using ex(1) by (rule addOneDay_existing)
  have p: "parseResetTime tz now (lead @ hh @ mm @ gap @ period @ trail) =
           (if d - now > 5 * msPerHour then None else Some d)"
    using parseResetTime_text[OF hours minutes per ws h, of tz now] by (simp add: sh ad d)
  have r: "getHours tz d = h \<and> getMinutes tz d = int M \<and> LocalTime tz d mod msPerMinute = 0 \<and>
         dayOf tz d = (if today \<le> now then dayOf tz now + 1 else dayOf tz now)"
  proof (cases "today \<le> now")
    case False
    with t d show ?thesis by simp
  next
    case True
    with ex(2) have "LocalTime tz tomorrow = L + msPerDay"
      by (simp add: localTimeExists_def tomorrow)
    then have l2: "LocalTime tz tomorrow = MakeDate (dayOf tz now + 1) (MakeTime h (int M))"
      by (simp add: local next_day)
    note g = local_fields[OF h0 range(1) m0, of "dayOf tz now + 1"]
    from True d have "d = tomorrow" by simp
    with g True show ?thesis by (simp add: getHours_def getMinutes_def dayOf_def l2)
  qed
  from p t r show ?thesis by simp
qed


text \<open>
  At noon \<^verbatim>\<open>3:45PM\<close> is 15:45 today; at 23:30 \<^verbatim>\<open>1 am\<close>, after a blank, is 1:00 tomorrow.
  (Local time is UTC; times are milliseconds from the start of day 0.)
\<close>

theorem parseResetTime_deadline_witness:
  "parseResetTime utcZone 43200000 (js ''3:45PM'') = Some 56700000 \<and>
   getHours utcZone 56700000 = 15 \<and> getMinutes utcZone 56700000 = 45 \<and>
   dayOf utcZone 56700000 = dayOf utcZone 43200000 \<and>
   parseResetTime utcZone 84600000 (js '' 1 am'') = Some 90000000 \<and>
   getHours utcZone 90000000 = 1 \<and> getMinutes utcZone 90000000 = 0 \<and>
   dayOf utcZone 90000000 = dayOf utcZone 84600000 + 1"
proof -
  have a1: "oneOrTwoDigits 3 (js ''3'')" by (simp add: oneOrTwoDigits_def js_def)
  have a2: "colonMinutes 45 (js '':45'')" by (simp add: colonMinutes_def js_def)
  have a3: "(js ''PM'' = [] \<and> [] = []) \<or> js ''PM'' \<in> set amForms \<or> js ''PM'' \<in> set pmForms"
    by (simp add: pmForms_def)
  have w: "\<forall>c\<in>set []. isWhiteSpace c" by simp
  have a4: "(15::int) = (if js ''PM'' \<in> set pmForms \<and> (3::nat) \<noteq> 12 then int 3 + 12
                 else if js ''PM'' \<in> set amForms \<and> (3::nat) = 12 then 0 else int 3)"
    by (simp add: pmForms_def)
  have l1: "(56700000::int) = MakeDate (dayOf utcZone 43200000) (MakeTime 15 (int 45))"
    by (simp add: time_defs)
  have u1: "(56700000::int) = UTC utcZone 56700000" "(143100000::int) = UTC utcZone (56700000 + msPerDay)"
    by (simp_all add: time_defs)
  have d1: "(56700000::int) = (if (56700000::int) \<le> 43200000 then 143100000 else 56700000)" by simp
  have e1: "(56700000::int) \<le> 43200000 \<longrightarrow> localTimeExists utcZone (56700000 + msPerDay)"
    by simp
  note t1 = parseResetTime_deadline[OF a1 a2 a3 w w w a4 _ _ l1 u1 utcZone_exists e1 d1]
  have b1: "oneOrTwoDigits 1 (js ''1'')" by (simp add: oneOrTwoDigits_def js_def)
  have b2: "colonMinutes 0 []" by (simp add: colonMinutes_def)
  have b3: "(js ''am'' = [] \<and> js '' '' = []) \<or> js ''am'' \<in> set amForms \<or> js ''am'' \<in> set pmForms"
    by (simp add: amForms_def)
  have wl: "\<forall>c\<in>set (js '' ''). isWhiteSpace c" by (simp add: js_def isWhiteSpace_def)
  have b4: "(1::int) = (if js ''am'' \<in> set pmForms \<and> (1::nat) \<noteq> 12 then int 1 + 12
                 else if js ''am'' \<in> set amForms \<and> (1::nat) = 12 then 0 else int 1)"
    by (simp add: pmForms_def amForms_def js_def)
  have l2: "(3600000::int) = MakeDate (dayOf utcZone 84600000) (MakeTime 1 (int 0))"
    by (simp add: time_defs)
  have u2: "(3600000::int) = UTC utcZone 3600000" "(90000000::int) = UTC utcZone (3600000 + msPerDay)"
    by (simp_all add: time_defs)
  have d2: "(90000000::int) = (if (3600000::int) \<le> 84600000 then 90000000 else 3600000)" by simp
  have e2: "(3600000::int) \<le> 84600000 \<longrightarrow> localTimeExists utcZone (3600000 + msPerDay)"
    by (simp add: utcZone_exists)
  note t2 = parseResetTime_deadline[OF b1 b2 b3 wl wl w b4 _ _ l2 u2 utcZone_exists e2 d2]
  from t1 have r1: "parseResetTime utcZone 43200000 (js ''3:45PM'') = Some 56700000 \<and>
   getHours utcZone 56700000 = 15 \<and> getMinutes utcZone 56700000 = 45 \<and>
   dayOf utcZone 56700000 = dayOf utcZone 43200000"
    by (simp add: js_def msPerHour_def)
  from t2 have r2: "parseResetTime utcZone 84600000 (js '' 1 am'') = Some 90000000 \<and>
   getHours utcZone 90000000 = 1 \<and> getMinutes utcZone 90000000 = 0 \<and>
   dayOf utcZone 90000000 = dayOf utcZone 84600000 + 1"
    by (simp add: js_def msPerHour_def)
  from r1 r2 show ?thesis by simp
qed


text \<open>
  The claim as stated fails in three ways. At 08:00 the string \<^verbatim>\<open>3pm\<close> gives no deadline,
  15:00 being seven hours ahead. The string \<^verbatim>\<open>7:75\<close> has the form of the claim; at 07:00 it
  gives the deadline 08:15. And where the clock is put forward from 02:00 to 03:00, the
  string \<^verbatim>\<open>2:30\<close> at 00:30 gives a deadline that reads 03:30.
\<close>

theorem parseResetTime_beyond_the_claim:
  "parseResetTime utcZone 28800000 (js ''3pm'') = None \<and>
   parseResetTime utcZone 25200000 (js ''7:75'') = Some 29700000 \<and>
   getHours utcZone 29700000 = 8 \<and> getMinutes utcZone 29700000 = 15 \<and>
   parseResetTime springZone 1800000 (js ''2:30'') = Some 9000000 \<and>
   getHours springZone 9000000 = 3 \<and> getMinutes springZone 9000000 = 30"
proof -
  have a: "parseResetTime utcZone 28800000 (js ''3pm'') = None"
    by (simp add: time_defs pattern_defs rx_defs mt_eval Let_def)
  have b: "parseResetTime utcZone 25200000 (js ''7:75'') = Some 29700000"
    by (simp add: time_defs pattern_defs rx_defs mt_eval Let_def)
  have c: "getHours utcZone 29700000 = 8 \<and> getMinutes utcZone 29700000 = 15"
    by (simp add: time_defs)
  have d: "parseResetTime springZone 1800000 (js ''2:30'') = Some 9000000"
    by (simp add: time_defs springZone_def pattern_defs rx_defs mt_eval Let_def)
  have e: "getHours springZone 9000000 = 3 \<and> getMinutes springZone 9000000 = 30"
    by (simp add: time_defs springZone_def)
  from a b c d e show ?thesis by simp
qed

text \<open>
  \<^bold>\<open>C4.\<close> In every time zone \<open>parseResetTime\<close> never returns a deadline more than
  five hours ahead: a deadline more than five hours ahead yields no schedule. A deadline exactly five hours
  ahead is returned, and scheduled. Whatever \<open>parseResetTime\<close> returns, the scheduling part
  of \<open>handleLimitDetected\<close> hands the bot the limit notification with the reset-time
  string as extracted (given a bot, and a session lookup that does not throw), and the
  schedule is set exactly when \<open>parseResetTime\<close> returned a deadline. That part is what
  \<open>handleLimitDetected\<close> runs, after its event, once the immediate continuation has been
  attempted.
\<close>

theorem reset_time_cap:
  "(parseResetTime tz now timeStr = Some d \<longrightarrow> d - now \<le> 5 * msPerHour) \<and>
   (rmatch timeRegex (trim (toLowerCase timeStr)) = Some timeMatch \<and>
    rolledDeadline tz now timeMatch - now > 5 * msPerHour \<longrightarrow>
      parseResetTime tz now timeStr = None) \<and>
   (rmatch timeRegex (trim (toLowerCase timeStr)) = Some timeMatch \<and>
    rolledDeadline tz now timeMatch - now = 5 * msPerHour \<longrightarrow>
      parseResetTime tz now timeStr = Some (rolledDeadline tz now timeMatch)) \<and>
   (extractResetTime output = Some resetTime \<and> resetTime \<noteq> [] \<and>
    sessionStates (mon s) sessionId = Some st \<and> discordBot (mon s) \<and>
    e_getSession e (steps s + 1) sessionId = Inr session \<longrightarrow>
      (\<exists>rest. trace (snd (handleLimitDetected_schedule sessionId output e s)) =
         trace s @
         Notify sessionId
           \<lparr>n_type = NLimit, n_sessionName = nameOr session sessionId,
            n_metadata = LimitMeta resetTime (e_clock e (steps s + 2))\<rparr> # rest) \<and>
      map_option scheduledResetTime
        (sessionStates (mon (snd (handleLimitDetected_schedule sessionId output e s))) sessionId) =
        Some (case parseResetTime (e_LocalTZA e) (e_clock e (steps s)) resetTime of
                Some deadline \<Rightarrow> Some deadline | None \<Rightarrow> scheduledResetTime st)) \<and>
   (sessionStates (mon s) sessionId = Some st \<and> scheduledResetTime st = None \<and>
    immediateContinueAttempted st \<longrightarrow>
      handleLimitDetected sessionId output e s =
        handleLimitDetected_schedule sessionId output e
          (effect (Emit \<lparr>ev_type = LimitDetected, ev_sessionId = sessionId,
                          ev_data = LimitData output, ev_timestamp = e_clock e (steps s)\<rparr>)
             (tick s)))"
  using parseResetTime_within_cap[of tz now timeStr d]
    parseResetTime_matched[of timeStr timeMatch tz now]
    schedule_notifies[of "output" resetTime s sessionId st e session]
    handleLimitDetected_already_attempted[of s sessionId st "output" e]
  by simp

text \<open>
  At 10:00, \<^verbatim>\<open>3pm\<close> is exactly five hours ahead and is scheduled, \<^verbatim>\<open>3:01pm\<close> is not; the
  notification carries the string in both cases.
\<close>

theorem reset_time_cap_witness:
  "parseResetTime utcZone 36000000 (js ''3pm'') = Some 54000000 \<and>
   (\<exists>rest. trace (snd (handleLimitDetected_schedule (js ''s1'') (limitNotice ''3:01pm'')
                          (quietEnv 36000000) (demoRun demoState))) =
      Notify (js ''s1'')
        \<lparr>n_type = NLimit, n_sessionName = js ''demo'',
         n_metadata = LimitMeta (js ''3:01pm'') 36000000\<rparr> # rest) \<and>
   map_option scheduledResetTime
     (sessionStates (mon (snd (handleLimitDetected_schedule (js ''s1'') (limitNotice ''3:01pm'')
                                (quietEnv 36000000) (demoRun demoState)))) (js ''s1''))
     = Some None \<and>
   (\<exists>rest. trace (snd (handleLimitDetected_schedule (js ''s1'') (limitNotice ''3pm'')
                          (quietEnv 36000000) (demoRun demoState))) =
      Notify (js ''s1'')
        \<lparr>n_type = NLimit, n_sessionName = js ''demo'',
         n_metadata = LimitMeta (js ''3pm'') 36000000\<rparr> # rest) \<and>
   map_option scheduledResetTime
     (sessionStates (mon (snd (handleLimitDetected_schedule (js ''s1'') (limitNotice ''3pm'')
                                (quietEnv 36000000) (demoRun demoState)))) (js ''s1''))
     = Some (Some 54000000)"
proof -
  have st: "sessionStates (mon (demoRun demoState)) (js ''s1'') = Some demoState"
    by (simp add: demo_defs)
  have b: "discordBot (mon (demoRun demoState))" by (simp add: demo_defs)
  have g: "e_getSession (quietEnv t) (steps (demoRun demoState) + 1) (js ''s1'') = Inr (Some demoSession)" for t
    by (simp add: demo_defs)
  have tr: "trace (demoRun demoState) = []" by (simp add: demo_defs)
  have ck: "e_clock (quietEnv t) k = t" for t k by (simp add: demo_defs)
  have nm: "nameOr (Some demoSession) (js ''s1'') = js ''demo''" by (simp add: demo_defs js_def)
  have sc: "scheduledResetTime demoState = None" by (simp add: demo_defs)
  have ne: "js ''3:01pm'' \<noteq> []" "js ''3pm'' \<noteq> []" by (simp_all add: js_def)
  have five: "rolledDeadline utcZone 36000000 [[], js ''3'', [], [], js ''pm'', []] - 36000000 = 5 * msPerHour"
    by (simp add: rolled_3pm msPerHour_def)
  note t1 = reset_time_cap[of utcZone 36000000 "js ''3pm''" 0 "[[], js ''3'', [], [], js ''pm'', []]"
      "limitNotice ''3:01pm''" "js ''3:01pm''" "demoRun demoState" "js ''s1''" demoState
      "quietEnv 36000000" "Some demoSession"]
  note t2 = reset_time_cap[of utcZone 36000000 "js ''3pm''" 0 "[[], js ''3'', [], [], js ''pm'', []]"
      "limitNotice ''3pm''" "js ''3pm''" "demoRun demoState" "js ''s1''" demoState
      "quietEnv 36000000" "Some demoSession"]
  have p3: "parseResetTime utcZone 36000000 (js ''3pm'') = Some 54000000"
    using t1 match_3pm five by (simp add: rolled_3pm)
  have n1: "(\<exists>rest. trace (snd (handleLimitDetected_schedule (js ''s1'') (limitNotice ''3:01pm'')
                          (quietEnv 36000000) (demoRun demoState))) =
      Notify (js ''s1'')
        \<lparr>n_type = NLimit, n_sessionName = js ''demo'',
         n_metadata = LimitMeta (js ''3:01pm'') 36000000\<rparr> # rest) \<and>
   map_option scheduledResetTime
     (sessionStates (mon (snd (handleLimitDetected_schedule (js ''s1'') (limitNotice ''3:01pm'')
                                (quietEnv 36000000) (demoRun demoState)))) (js ''s1''))
     = Some None"
    using t1 limitNotice_301 ne st b g by (simp add: tr ck nm sc parse_301 quiet_zone)
  have n2: "(\<exists>rest. trace (snd (handleLimitDetected_schedule (js ''s1'') (limitNotice ''3pm'')
                          (quietEnv 36000000) (demoRun demoState))) =
      Notify (js ''s1'')
        \<lparr>n_type = NLimit, n_sessionName = js ''demo'',
         n_metadata = LimitMeta (js ''3pm'') 36000000\<rparr> # rest) \<and>
   map_option scheduledResetTime
     (sessionStates (mon (snd (handleLimitDetected_schedule (js ''s1'') (limitNotice ''3pm'')
                                (quietEnv 36000000) (demoRun demoState)))) (js ''s1''))
     = Some (Some 54000000)"
    using t2 limitNotice_3 ne st b g by (simp add: tr ck nm sc p3 quiet_zone)
  from p3 n1 n2 show ?thesis by blast
qed

text \<open>
  The claim as stated fails at exactly five hours: at 10:00:00.000 (local time being UTC)
  the string \<^verbatim>\<open>3pm\<close> gives the deadline 15:00, which is returned.
\<close>

theorem deadline_exactly_five_hours_is_scheduled:
  "parseResetTime utcZone 36000000 (js ''3pm'') = Some 54000000 \<and>
   54000000 - 36000000 = 5 * msPerHour"
  by (simp add: time_defs pattern_defs rx_defs mt_eval Let_def)

text \<open>
  \<^bold>\<open>C5.\<close> When the other preconditions hold (not awaiting a continuation, the time of
  the last change known, the snapshot waiting for input and not processing, the cooldown
  elapsed), \<open>checkTaskCompletion\<close> does nothing for an idle time below 10 seconds, and for
  an idle time of 10 seconds or more it emits \<open>task_completed\<close> and hands the bot the
  notification (given a bot, and a session lookup that does not throw).
\<close>

theorem idle_threshold:
  assumes st: "sessionStates (mon s) sessionId = Some st"
    and "\<not> awaitingContinuation st"
    and "lastOutputChangeTime st = Some lastChange"
    and "rtest waitingForInput output" and "rtest notProcessing output"
    and "case lastTaskCompletionNotification st of None \<Rightarrow> True
         | Some lastNotification \<Rightarrow> e_clock e (steps s) - lastNotification \<ge> COMPLETION_COOLDOWN_MS"
    and "discordBot (mon s)"
    and "e_getSession e (steps s + 3) sessionId = Inr session"
    and idle: "idle = e_clock e (steps s) - lastChange"
  shows "(idle < 10000 \<longrightarrow> checkTaskCompletion sessionId output e s = (Inr (), tick s)) \<and>
         (idle \<ge> 10000 \<longrightarrow>
            trace (snd (checkTaskCompletion sessionId output e s)) =
              trace s @
              [Emit \<lparr>ev_type = TaskCompleted, ev_sessionId = sessionId,
                     ev_data = TaskData output idle, ev_timestamp = e_clock e (steps s + 2)\<rparr>,
               Notify sessionId
                 \<lparr>n_type = NTaskCompleted, n_sessionName = nameOr session sessionId,
                  n_metadata = TaskMeta ((idle + 500) div 1000) (Some lastChange)
                                 (e_clock e (steps s + 4))\<rparr>])"
  using assms
  by (auto simp: checkTaskCompletion_def handleTaskCompletion_def prog_defs MIN_IDLE_MS_def
      Let_def eval_nat_numeral split: option.splits)

text \<open>Idle for 5 seconds: nothing. Idle for 12 seconds: the event and the notification.\<close>

theorem idle_threshold_witness:
  "checkTaskCompletion (js ''s1'') demoPrompt (quietEnv 5000) (demoRun demoState)
     = (Inr (), tick (demoRun demoState)) \<and>
   trace (snd (checkTaskCompletion (js ''s1'') demoPrompt (quietEnv 12000) (demoRun demoState))) =
     [Emit \<lparr>ev_type = TaskCompleted, ev_sessionId = js ''s1'',
            ev_data = TaskData demoPrompt 12000, ev_timestamp = 12000\<rparr>,
      Notify (js ''s1'')
        \<lparr>n_type = NTaskCompleted, n_sessionName = js ''demo'',
         n_metadata = TaskMeta 12 (Some 0) 12000\<rparr>]"
proof -
  have st: "sessionStates (mon (demoRun demoState)) (js ''s1'') = Some demoState"
    by (simp add: demo_defs)
  have aw: "\<not> awaitingContinuation demoState" by (simp add: demo_defs)
  have lc: "lastOutputChangeTime demoState = Some 0" by (simp add: demo_defs)
  have cd: "case lastTaskCompletionNotification demoState of None \<Rightarrow> True
         | Some lastNotification \<Rightarrow> e_clock (quietEnv t) (steps (demoRun demoState)) - lastNotification \<ge> COMPLETION_COOLDOWN_MS" for t
    by (simp add: demo_defs)
  have bot: "discordBot (mon (demoRun demoState))" by (simp add: demo_defs)
  have gs: "e_getSession (quietEnv t) (steps (demoRun demoState) + 3) (js ''s1'') = Inr (Some demoSession)" for t
    by (simp add: demo_defs)
  have idle: "t = e_clock (quietEnv t) (steps (demoRun demoState)) - 0" for t
    by (simp add: demo_defs)
  have tr: "trace (demoRun demoState) = []" by (simp add: demo_defs)
  have ck: "e_clock (quietEnv t) k = t" for t k by (simp add: demo_defs)
  have nm: "nameOr (Some demoSession) (js ''s1'') = js ''demo''" by (simp add: demo_defs js_def)
  have a: "checkTaskCompletion (js ''s1'') demoPrompt (quietEnv 5000) (demoRun demoState)
     = (Inr (), tick (demoRun demoState))"
    using idle_threshold[OF st aw lc demoPrompt_waiting demoPrompt_notProcessing cd bot gs idle, of 5000]
    by simp
  have b: "trace (snd (checkTaskCompletion (js ''s1'') demoPrompt (quietEnv 12000) (demoRun demoState))) =
     [Emit \<lparr>ev_type = TaskCompleted, ev_sessionId = js ''s1'',
            ev_data = TaskData demoPrompt 12000, ev_timestamp = 12000\<rparr>,
      Notify (js ''s1'')
        \<lparr>n_type = NTaskCompleted, n_sessionName = js ''demo'',
         n_metadata = TaskMeta 12 (Some 0) 12000\<rparr>]"
    using idle_threshold[OF st aw lc demoPrompt_waiting demoPrompt_notProcessing cd bot gs idle, of 12000]
    by (simp add: tr ck nm)
  from a b show ?thesis by (rule conjI)
qed

text \<open>
  The claim as stated fails at the boundary: an idle time of exactly 10 seconds triggers
  the notification.
\<close>

theorem idle_of_exactly_ten_seconds_notifies:
  "trace (snd (checkTaskCompletion (js ''s1'') demoPrompt (quietEnv 10000) (demoRun demoState))) =
     [Emit \<lparr>ev_type = TaskCompleted, ev_sessionId = js ''s1'',
            ev_data = TaskData demoPrompt 10000, ev_timestamp = 10000\<rparr>,
      Notify (js ''s1'')
        \<lparr>n_type = NTaskCompleted, n_sessionName = js ''demo'',
         n_metadata = TaskMeta 10 (Some 0) 10000\<rparr>]"
  using demoPrompt_waiting demoPrompt_notProcessing
  by (simp add: checkTaskCompletion_def handleTaskCompletion_def prog_defs MIN_IDLE_MS_def
      COMPLETION_COOLDOWN_MS_def Let_def demo_defs js_def)

text \<open>
  \<^bold>\<open>C6.\<close> Where the last output occurs in the current one but not at its start,
  \<open>getNewOutput\<close> does not return the text that follows the last output: it drops from the
  start of the current output as many code units as the last output has. \<open>abc\<close> includes
  \<open>b\<close> and the text after \<open>b\<close> is \<open>c\<close>, but the function returns \<open>bc\<close>; a pane that shows
  \<open>ok\<close> above the prompt that was the last output gives the line feed and the prompt again,
  not the empty text after the prompt. (It returns what the claim says when the last
  output is empty, does not occur, or stands at the start: \<open>getNewOutput_cases\<close>.)
\<close>

theorem getNewOutput_not_following_suffix:
  "js ''abc'' = js ''a'' @ js ''b'' @ js ''c'' \<and>
   str_includes (js ''abc'') (js ''b'') \<and>
   getNewOutput (js ''b'') (js ''abc'') = js ''bc'' \<and>
   getNewOutput (js ''b'') (js ''abc'') \<noteq> js ''c'' \<and>
   js ''ok'' @ 10 # js ''> '' = (js ''ok'' @ [10]) @ js ''> '' @ [] \<and>
   getNewOutput (js ''> '') (js ''ok'' @ 10 # js ''> '') = 10 # js ''> ''"
  by (simp add: getNewOutput_def js_def)

text \<open>
  \<^bold>\<open>C7.\<close> \<open>isInteractiveApprovalDialog\<close> does what the claim says on a dialog in bold
  (interactive), on a dimmed one (not interactive) and on one without any escape
  (interactive). It does not on escape sequences with more than one parameter: a dialog in
  bold red, \<^verbatim>\<open>ESC[1;31m\<close>, which has a colour and nothing dim, is not interactive; a dialog
  in dim white, \<^verbatim>\<open>ESC[2;37m\<close>, reset at its end by \<^verbatim>\<open>ESC[0m\<close>, is interactive although it is
  dimmed (code 2). The two expressions look for \<^verbatim>\<open>[\<close>, one code and \<^verbatim>\<open>m\<close> next to each other
  (\<open>isInteractiveApprovalDialog_iff\<close>).
\<close>

theorem compound_escapes_misread:
  "isInteractiveApprovalDialog boldDialog \<and> \<not> isInteractiveApprovalDialog dimDialog \<and>
   isInteractiveApprovalDialog plainDialog \<and>
   \<not> isInteractiveApprovalDialog boldRedDialog \<and> isInteractiveApprovalDialog dimWhiteDialog"
proof -
  have a: "isInteractiveApprovalDialog boldDialog"
    by (simp add: boldDialog_def pattern_defs rx_defs mt_eval)
  have b: "\<not> isInteractiveApprovalDialog dimDialog"
    by (simp add: dimDialog_def pattern_defs rx_defs mt_eval)
  have c: "isInteractiveApprovalDialog plainDialog"
    by (simp add: plainDialog_def pattern_defs rx_defs mt_eval)
  have d: "\<not> isInteractiveApprovalDialog boldRedDialog"
    by (simp add: boldRedDialog_def pattern_defs rx_defs mt_eval)
  have e: "isInteractiveApprovalDialog dimWhiteDialog"
    by (simp add: dimWhiteDialog_def pattern_defs rx_defs mt_eval)
  from a b c d e show ?thesis by simp
qed

text \<open>
  \<^bold>\<open>C8.\<close> \<open>stopMonitoring\<close>, \<open>stopAll\<close> and \<open>getActiveMonitoring\<close> always return.
  \<open>startMonitoring\<close> returns when the session lookup finds a session; it throws
  \<^verbatim>\<open>Session not found\<close> when the lookup returns \<^verbatim>\<open>null\<close>, and what the lookup throws when
  it throws.
\<close>

theorem public_operations_outcome:
  "fst (stopMonitoring sessionId e s) = Inr () \<and>
   fst (stopAll e s) = Inr () \<and>
   fst (getActiveMonitoring e s) = Inr (map fst (monitoringIntervals (mon s))) \<and>
   fst (startMonitoring sessionId e s) =
     (case e_getSession e (steps s) sessionId of
        Inl thrown \<Rightarrow> Inl thrown
      | Inr None \<Rightarrow> Inl (Error (js ''Session not found: '' @ sessionId))
      | Inr (Some found) \<Rightarrow> Inr ())"
proof -
  have "fst (startMonitoring sessionId e s) =
     (case e_getSession e (steps s) sessionId of
        Inl thrown \<Rightarrow> Inl thrown
      | Inr None \<Rightarrow> Inl (Error (js ''Session not found: '' @ sessionId))
      | Inr (Some found) \<Rightarrow> Inr ())"
    by (simp add: startMonitoring_def prog_defs split: sum.splits option.splits)
  then show ?thesis
    by (simp add: stopMonitoring_returns stopAll_def stopAll_loop_returns getActiveMonitoring_def)
qed

text \<open>On the sample run all four return.\<close>

theorem public_operations_outcome_witness:
  "fst (stopMonitoring (js ''s1'') (quietEnv 0) (demoRun demoState)) = Inr () \<and>
   fst (stopAll (quietEnv 0) (demoRun demoState)) = Inr () \<and>
   fst (getActiveMonitoring (quietEnv 0) (demoRun demoState)) = Inr [js ''s1''] \<and>
   fst (startMonitoring (js ''s2'') (quietEnv 0) (demoRun demoState)) = Inr ()"
  using public_operations_outcome[of "js ''s1''" "quietEnv 0" "demoRun demoState"]
    public_operations_outcome[of "js ''s2''" "quietEnv 0" "demoRun demoState"]
  by (simp add: demo_defs)

text \<open>
  The claim as stated fails: with a lookup that returns \<^verbatim>\<open>null\<close>, \<open>startMonitoring\<close>
  throws.
\<close>

theorem startMonitoring_throws_without_session:
  "fst (startMonitoring (js ''s2'') noSessionEnv (demoRun demoState))
     = Inl (Error (js ''Session not found: s2''))"
  by (simp add: startMonitoring_def prog_defs demo_defs js_def)

text \<open>
  \<^bold>\<open>C9.\<close> \<open>retryCount\<close> counts the polling errors caught since the session's state was
  created. \<open>handlePollingError\<close> increments it; below \<open>maxRetries\<close> that is all it does, and
  monitoring goes on; when the count reaches \<open>maxRetries\<close> it drops the session's state and
  timer and emits exactly one \<open>error\<close> event. Without a state for the session it does
  nothing. \<open>pollSession\<close> runs it on whatever its body throws, for one when the session
  lookup throws, and returns what its body returns otherwise. The body of a poll cycle
  never changes \<open>retryCount\<close>: if the session's state is there after it, it was there
  before with the same count. A poll cycle as a whole never lowers it. It is 0 in the
  state that \<open>startMonitoring\<close> creates.
\<close>

theorem polling_error_budget:
  "(sessionStates (mon s) sessionId = Some st \<and>
    retryCount st + 1 < opt_maxRetries (options (mon s)) \<longrightarrow>
      handlePollingError sessionId err e s =
        (Inr (), s\<lparr>mon := (mon s)\<lparr>sessionStates :=
                    (sessionStates (mon s))(sessionId \<mapsto> st\<lparr>retryCount := retryCount st + 1\<rparr>)\<rparr>\<rparr>)) \<and>
   (sessionStates (mon s) sessionId = Some st \<and>
    retryCount st + 1 \<ge> opt_maxRetries (options (mon s)) \<longrightarrow>
      sessionStates (mon (snd (handlePollingError sessionId err e s))) sessionId = None \<and>
      map_of (monitoringIntervals (mon (snd (handlePollingError sessionId err e s)))) sessionId = None \<and>
      trace (snd (handlePollingError sessionId err e s)) =
        trace s @
        (case map_of (monitoringIntervals (mon s)) sessionId of
           Some interval \<Rightarrow> [ClearInterval interval] | None \<Rightarrow> []) @
        [Emit \<lparr>ev_type = ErrorEvent, ev_sessionId = sessionId,
               ev_data = ErrorData (errorMessage err), ev_timestamp = e_clock e (steps s)\<rparr>]) \<and>
   (sessionStates (mon s) sessionId = None \<longrightarrow> handlePollingError sessionId err e s = (Inr (), s)) \<and>
   (pollSession_body sessionId e s = (Inl err, s') \<longrightarrow>
      pollSession sessionId e s = handlePollingError sessionId err e s') \<and>
   (e_getSession e (steps s) sessionId = Inl err \<longrightarrow>
      pollSession sessionId e s = handlePollingError sessionId err e (tick s)) \<and>
   (pollSession_body sessionId e s = (Inr (), s') \<longrightarrow> pollSession sessionId e s = (Inr (), s')) \<and>
   (sessionStates (mon (snd (pollSession_body sessionId e s))) sessionId = Some st' \<longrightarrow>
      (\<exists>st0. sessionStates (mon s) sessionId = Some st0 \<and> retryCount st' = retryCount st0)) \<and>
   (sessionStates (mon (snd (pollSession sessionId e s))) sessionId = Some st' \<longrightarrow>
      (\<exists>st0. sessionStates (mon s) sessionId = Some st0 \<and> retryCount st0 \<le> retryCount st')) \<and>
   (e_getSession e (steps s) sessionId = Inr (Some found) \<longrightarrow>
      map_option retryCount (sessionStates (mon (snd (startMonitoring sessionId e s))) sessionId)
        = Some 0)"
proof -
  have a: "sessionStates (mon s) sessionId = Some st \<and>
    retryCount st + 1 < opt_maxRetries (options (mon s)) \<longrightarrow>
      handlePollingError sessionId err e s =
        (Inr (), s\<lparr>mon := (mon s)\<lparr>sessionStates :=
                    (sessionStates (mon s))(sessionId \<mapsto> st\<lparr>retryCount := retryCount st + 1\<rparr>)\<rparr>\<rparr>)"
    by (simp add: handlePollingError_def prog_defs)
  have b: "sessionStates (mon s) sessionId = Some st \<and>
    retryCount st + 1 \<ge> opt_maxRetries (options (mon s)) \<longrightarrow>
      sessionStates (mon (snd (handlePollingError sessionId err e s))) sessionId = None \<and>
      map_of (monitoringIntervals (mon (snd (handlePollingError sessionId err e s)))) sessionId = None \<and>
      trace (snd (handlePollingError sessionId err e s)) =
        trace s @
        (case map_of (monitoringIntervals (mon s)) sessionId of
           Some interval \<Rightarrow> [ClearInterval interval] | None \<Rightarrow> []) @
        [Emit \<lparr>ev_type = ErrorEvent, ev_sessionId = sessionId,
               ev_data = ErrorData (errorMessage err), ev_timestamp = e_clock e (steps s)\<rparr>]"
    by (auto simp: handlePollingError_def stopMonitoring_def prog_defs Let_def map_of_map_delete
        split: option.splits)
  have c: "sessionStates (mon s) sessionId = None \<longrightarrow> handlePollingError sessionId err e s = (Inr (), s)"
    by (simp add: handlePollingError_def prog_defs)
  have d: "pollSession_body sessionId e s = (Inl err, s') \<longrightarrow>
      pollSession sessionId e s = handlePollingError sessionId err e s'"
    by (simp add: pollSession_def try_catch_def)
  have f: "e_getSession e (steps s) sessionId = Inl err \<longrightarrow>
      pollSession sessionId e s = handlePollingError sessionId err e (tick s)"
    by (simp add: pollSession_def pollSession_body_def try_catch_def bnd_def getSession_def)
  have g: "pollSession_body sessionId e s = (Inr (), s') \<longrightarrow> pollSession sessionId e s = (Inr (), s')"
    by (simp add: pollSession_def try_catch_def)
  have h: "sessionStates (mon (snd (pollSession_body sessionId e s))) sessionId = Some st' \<longrightarrow>
      (\<exists>st0. sessionStates (mon s) sessionId = Some st0 \<and> retryCount st' = retryCount st0)"
    using pollSession_body_retryCount by blast
  have i: "sessionStates (mon (snd (pollSession sessionId e s))) sessionId = Some st' \<longrightarrow>
      (\<exists>st0. sessionStates (mon s) sessionId = Some st0 \<and> retryCount st0 \<le> retryCount st')"
    using pollSession_frame[of sessionId e s st'] by blast
  have j: "e_getSession e (steps s) sessionId = Inr (Some found) \<longrightarrow>
      map_option retryCount (sessionStates (mon (snd (startMonitoring sessionId e s))) sessionId)
        = Some 0"
    by (simp add: startMonitoring_def prog_defs initialState_def)
  from a b c d f g h i j show ?thesis by blast
qed

text \<open>
  With the default budget of 3: the second error leaves the count at 2 and nothing else;
  the third clears the timer and emits the event. Starting to monitor the session again
  puts the count back to 0.
\<close>

theorem polling_error_budget_witness:
  "handlePollingError (js ''s1'') (Error (js ''boom'')) (quietEnv 0) (demoRun (demoState\<lparr>retryCount := 1\<rparr>))
     = (Inr (), demoRun (demoState\<lparr>retryCount := 2\<rparr>)) \<and>
   sessionStates (mon (snd (handlePollingError (js ''s1'') (Error (js ''boom'')) (quietEnv 0)
                             (demoRun (demoState\<lparr>retryCount := 2\<rparr>))))) (js ''s1'') = None \<and>
   map_of (monitoringIntervals (mon (snd (handlePollingError (js ''s1'') (Error (js ''boom'')) (quietEnv 0)
                             (demoRun (demoState\<lparr>retryCount := 2\<rparr>)))))) (js ''s1'') = None \<and>
   trace (snd (handlePollingError (js ''s1'') (Error (js ''boom'')) (quietEnv 0)
                 (demoRun (demoState\<lparr>retryCount := 2\<rparr>)))) =
     [ClearInterval 0,
      Emit \<lparr>ev_type = ErrorEvent, ev_sessionId = js ''s1'', ev_data = ErrorData (js ''boom''),
            ev_timestamp = 0\<rparr>] \<and>
   map_option retryCount
     (sessionStates (mon (snd (startMonitoring (js ''s1'') (quietEnv 0)
                                (demoRun (demoState\<lparr>retryCount := 1\<rparr>))))) (js ''s1'')) = Some 0"
proof -
  let ?err = "Error (js ''boom'')"
  have st: "sessionStates (mon (demoRun x)) (js ''s1'') = Some x" for x
    by (simp add: demo_defs)
  have mx: "opt_maxRetries (options (mon (demoRun x))) = 3" for x
    by (simp add: demo_defs)
  have r1: "retryCount (demoState\<lparr>retryCount := 1\<rparr>) + 1 < 3" by simp
  have r2: "retryCount (demoState\<lparr>retryCount := 2\<rparr>) + 1 \<ge> 3" by simp
  have upd: "(demoRun (demoState\<lparr>retryCount := 1\<rparr>))\<lparr>mon := (mon (demoRun (demoState\<lparr>retryCount := 1\<rparr>)))
        \<lparr>sessionStates := (sessionStates (mon (demoRun (demoState\<lparr>retryCount := 1\<rparr>))))
           (js ''s1'' \<mapsto> demoState\<lparr>retryCount := 1\<rparr>\<lparr>retryCount := retryCount (demoState\<lparr>retryCount := 1\<rparr>) + 1\<rparr>)\<rparr>\<rparr>
      = demoRun (demoState\<lparr>retryCount := 2\<rparr>)"
    by (simp add: demo_defs)
  have iv: "map_of (monitoringIntervals (mon (demoRun x))) (js ''s1'') = Some 0" for x
    by (simp add: demo_defs)
  have tr: "trace (demoRun x) = []" for x by (simp add: demo_defs)
  have ck: "e_clock (quietEnv t) k = t" for t k by (simp add: demo_defs)
  have em: "errorMessage ?err = js ''boom''" by (simp add: errorMessage_def)
  have gs: "e_getSession (quietEnv 0) (steps (demoRun x)) (js ''s1'') = Inr (Some demoSession)" for x
    by (simp add: demo_defs)
  note t1 = polling_error_budget[of "demoRun (demoState\<lparr>retryCount := 1\<rparr>)" "js ''s1''"
      "demoState\<lparr>retryCount := 1\<rparr>" ?err "quietEnv 0" _ _ demoSession]
  note t2 = polling_error_budget[of "demoRun (demoState\<lparr>retryCount := 2\<rparr>)" "js ''s1''"
      "demoState\<lparr>retryCount := 2\<rparr>" ?err "quietEnv 0"]
  have a: "handlePollingError (js ''s1'') ?err (quietEnv 0) (demoRun (demoState\<lparr>retryCount := 1\<rparr>))
     = (Inr (), demoRun (demoState\<lparr>retryCount := 2\<rparr>))"
    using t1 st r1 by (simp only: mx upd)
  have b: "sessionStates (mon (snd (handlePollingError (js ''s1'') ?err (quietEnv 0)
                             (demoRun (demoState\<lparr>retryCount := 2\<rparr>))))) (js ''s1'') = None \<and>
   map_of (monitoringIntervals (mon (snd (handlePollingError (js ''s1'') ?err (quietEnv 0)
                             (demoRun (demoState\<lparr>retryCount := 2\<rparr>)))))) (js ''s1'') = None \<and>
   trace (snd (handlePollingError (js ''s1'') ?err (quietEnv 0)
                 (demoRun (demoState\<lparr>retryCount := 2\<rparr>)))) =
     [ClearInterval 0,
      Emit \<lparr>ev_type = ErrorEvent, ev_sessionId = js ''s1'', ev_data = ErrorData (js ''boom''),
            ev_timestamp = 0\<rparr>]"
    using t2 st r2 by (simp add: mx iv tr ck em)
  have c: "map_option retryCount
     (sessionStates (mon (snd (startMonitoring (js ''s1'') (quietEnv 0)
                                (demoRun (demoState\<lparr>retryCount := 1\<rparr>))))) (js ''s1'')) = Some 0"
    using t1 gs by blast
  from a b c show ?thesis by blast
qed

text \<open>
  The claim as stated fails: a poll cycle that completes without error leaves a
  \<open>retryCount\<close> of 1 at 1.
\<close>

theorem successful_poll_keeps_retryCount:
  "fst (pollSession (js ''s1'') (quietEnv 0) (demoRun (demoState\<lparr>retryCount := 1\<rparr>))) = Inr () \<and>
   map_option retryCount
     (sessionStates (mon (snd (pollSession (js ''s1'') (quietEnv 0)
                                (demoRun (demoState\<lparr>retryCount := 1\<rparr>))))) (js ''s1''))
     = Some 1"
  by (simp add: pollSession_def pollSession_body_def pollSession_quota_def pollSession_capture_def
      analyzeOutput_def checkTaskCompletion_def MIN_IDLE_MS_def prog_defs demo_defs)

text \<open>
  \<^bold>\<open>C10.\<close> Whatever options the constructor is given, \<open>autoRestart\<close> is true afterwards,
  also when \<^verbatim>\<open>false\<close> was given; a \<open>pollInterval\<close> or \<open>maxRetries\<close> given as 0 is replaced
  by the default 2000 or 3; a number other than 0 is kept; without options the defaults
  apply.
\<close>

theorem constructor_defaults:
  "opt_autoRestart (options (Monitor_new b arg)) = True \<and>
   (arg = Some given \<and> pollInterval given = Some (Num 0) \<longrightarrow>
      opt_pollInterval (options (Monitor_new b arg)) = 2000) \<and>
   (arg = Some given \<and> maxRetries given = Some (Num 0) \<longrightarrow>
      opt_maxRetries (options (Monitor_new b arg)) = 3) \<and>
   (arg = Some given \<and> pollInterval given = Some (Num n) \<and> n \<noteq> 0 \<longrightarrow>
      opt_pollInterval (options (Monitor_new b arg)) = n) \<and>
   (arg = Some given \<and> maxRetries given = Some (Num n) \<and> n \<noteq> 0 \<longrightarrow>
      opt_maxRetries (options (Monitor_new b arg)) = n) \<and>
   (arg = None \<longrightarrow> opt_pollInterval (options (Monitor_new b arg)) = 2000 \<and>
      opt_maxRetries (options (Monitor_new b arg)) = 3)"
proof -
  have "bool_or x True = True" for x by (cases x) auto
  then show ?thesis by (auto simp: Monitor_new_def Let_def)
qed

text \<open>All three at once: 0, 0 and \<^verbatim>\<open>false\<close> give 2000, 3 and true.\<close>

theorem constructor_defaults_witness:
  "options (Monitor_new True
      (Some \<lparr>pollInterval = Some (Num 0), maxRetries = Some (Num 0), autoRestart = Some False\<rparr>))
   = \<lparr>opt_pollInterval = 2000, opt_maxRetries = 3, opt_autoRestart = True\<rparr>"
proof -
  let ?given = "\<lparr>pollInterval = Some (Num 0), maxRetries = Some (Num 0), autoRestart = Some False\<rparr>"
  let ?o = "options (Monitor_new True (Some ?given))"
  note c = constructor_defaults[of True "Some ?given" ?given 1]
  have a: "opt_autoRestart ?o = True" using c by blast
  have p: "opt_pollInterval ?o = 2000" using c by simp
  have m: "opt_maxRetries ?o = 3" using c by simp
  have "?o = \<lparr>opt_pollInterval = opt_pollInterval ?o, opt_maxRetries = opt_maxRetries ?o,
              opt_autoRestart = opt_autoRestart ?o\<rparr>" by simp
  then show ?thesis by (simp only: a p m)
qed

end
